theory Spec2Isabelle
  imports Main "HOL-Library.Word"
begin

section \<open>Text formatting used by the encoder\<close>

text \<open>
  Strings are byte strings (\<open>char list\<close>), as Go's are. \<open>fmt_d\<close> is the decimal text
  that \<open>fmt.Sprintf("%d", n)\<close> produces for an integer.
\<close>

definition digit :: "nat \<Rightarrow> char" where
  "digit n = char_of (48 + n)"

function decimal :: "nat \<Rightarrow> string" where
  "decimal n = (if n < 10 then [digit n] else decimal (n div 10) @ [digit (n mod 10)])"
  by pat_completeness auto
termination
  by (relation "measure id") auto

declare decimal.simps [simp del]

definition fmt_d :: "int \<Rightarrow> string" where
  "fmt_d i = (if i < 0 then CHR ''-'' # decimal (nat (- i)) else decimal (nat i))"

section \<open>Cell values\<close>

text \<open>
  A row is a \<open>[]interface{}\<close>; the type switch of \<open>generateRow\<close> distinguishes six
  kinds of dynamic value, one constructor each. All signed and unsigned integer widths
  share the branch that prints the number with \<open>%v\<close>, so they are one constructor
  carrying the number. A floating-point value and a value of any other type are used by
  the encoder only through the text \<open>%v\<close> renders for them (a matter of Go's
  \<open>fmt\<close> package), so they carry that text.
\<close>

datatype cell =
    VString string
  | VInt int
  | VFloat string
  | VBool bool
  | VNil
  | VOther string

section \<open>Row encoder (sink.go: columnName, cellReference, generateRow)\<close>

text \<open>
  The indices of the encoder are of Go's type \<open>int\<close>, 64 bits wide on the platforms the
  library is built for; its arithmetic wraps around in two's complement. \<open>int64 x\<close> is
  the value such an integer holds when the exact result is \<open>x\<close>. The encoder adds one to
  an index given by the caller in three places: \<open>col++\<close> in \<open>columnName\<close>, and
  \<open>row+1\<close> and \<open>rowIndex+1\<close> in \<open>cellReference\<close> and \<open>generateRow\<close>.
\<close>

definition int64 :: "int \<Rightarrow> int" where
  "int64 x = (x + 2 ^ 63) mod 2 ^ 64 - 2 ^ 63"

text \<open>
  \<open>columnName\<close>: the loop \<open>for col > 0 { col--; name = letter(col % 26) + name; col /= 26 }\<close>
  after \<open>col++\<close>. Inside the loop \<open>col\<close> is positive, so that \<open>col--\<close> does not
  wrap, and Go's truncating \<open>%\<close> and \<open>/\<close> agree with \<open>mod\<close> and \<open>div\<close>. At the
  greatest index, \<open>col++\<close> wraps to the least integer and the loop does not run.
\<close>

function columnName_loop :: "int \<Rightarrow> string \<Rightarrow> string" where
  "columnName_loop col name =
     (if col > 0
      then columnName_loop ((col - 1) div 26) (char_of (65 + (col - 1) mod 26) # name)
      else name)"
  by pat_completeness auto
termination
  by (relation "measure (\<lambda>(col, name). nat col)") auto

declare columnName_loop.simps [simp del]

definition columnName :: "int \<Rightarrow> string" where
  "columnName col = columnName_loop (int64 (col + 1)) []"

definition cellReference :: "int \<Rightarrow> int \<Rightarrow> string" where
  "cellReference row col = columnName col @ fmt_d (int64 (row + 1))"

text \<open>
  \<open>escapeXML\<close> hands the string to \<open>xml.EscapeText\<close> of Go's standard library. That
  function is not part of the repository; it is the parameter \<open>EscapeText\<close> of the
  encoder and of every operation that encodes a row.
\<close>

definition escapeXML :: "(string \<Rightarrow> string) \<Rightarrow> string \<Rightarrow> string" where
  "escapeXML EscapeText s = EscapeText s"

text \<open>The body of the type switch: the element written for one cell at reference \<open>ref\<close>.\<close>

fun generateCell :: "(string \<Rightarrow> string) \<Rightarrow> string \<Rightarrow> cell \<Rightarrow> string" where
  \<open>generateCell esc ref (VString v) =
     ''<c r="'' @ ref @ ''" t="inlineStr"><is><t>'' @ escapeXML esc v @ ''</t></is></c>''\<close>
| \<open>generateCell esc ref (VInt v) =
     ''<c r="'' @ ref @ ''"><v>'' @ fmt_d v @ ''</v></c>''\<close>
| \<open>generateCell esc ref (VFloat v) =
     ''<c r="'' @ ref @ ''"><v>'' @ v @ ''</v></c>''\<close>
| \<open>generateCell esc ref (VBool v) =
     ''<c r="'' @ ref @ ''" t="b"><v>'' @ (if v then ''1'' else ''0'') @ ''</v></c>''\<close>
| \<open>generateCell esc ref VNil =
     ''<c r="'' @ ref @ ''"/>''\<close>
| \<open>generateCell esc ref (VOther v) =
     ''<c r="'' @ ref @ ''" t="inlineStr"><is><t>'' @ escapeXML esc v @ ''</t></is></c>''\<close>

text \<open>The \<open>range\<close> loop over the values, \<open>colIndex\<close> counting from the given start.\<close>

fun generateRow_cells :: "(string \<Rightarrow> string) \<Rightarrow> int \<Rightarrow> int \<Rightarrow> cell list \<Rightarrow> string" where
  "generateRow_cells esc rowIndex colIndex [] = []"
| "generateRow_cells esc rowIndex colIndex (value # values) =
     generateCell esc (cellReference rowIndex colIndex) value
       @ generateRow_cells esc rowIndex (colIndex + 1) values"

definition generateRow :: "(string \<Rightarrow> string) \<Rightarrow> int \<Rightarrow> cell list \<Rightarrow> string" where
  \<open>generateRow esc rowIndex values =
     ''<row r="'' @ fmt_d (int64 (rowIndex + 1)) @ ''">''
       @ generateRow_cells esc rowIndex 0 values @ ''</row>''\<close>


text \<open>
  The five cell encodings of the specification, as data: what kind of element a cell
  becomes and what it carries. \<open>classify\<close> is the specification's classification of a
  value, \<open>render\<close> the text of an encoding at a cell reference. They are written from
  the specification's words and compared with \<open>generateCell\<close> below.
\<close>

datatype encoding =
    InlineText string
  | Integer int
  | FloatingPoint string
  | Boolean bool
  | Empty

fun classify :: "cell \<Rightarrow> encoding" where
  "classify (VString s) = InlineText s"
| "classify (VInt n) = Integer n"
| "classify (VFloat f) = FloatingPoint f"
| "classify (VBool b) = Boolean b"
| "classify VNil = Empty"
| "classify (VOther s) = InlineText s"

fun render :: "(string \<Rightarrow> string) \<Rightarrow> string \<Rightarrow> encoding \<Rightarrow> string" where
  \<open>render esc ref (InlineText s) =
     ''<c r="'' @ ref @ ''" t="inlineStr"><is><t>'' @ esc s @ ''</t></is></c>''\<close>
| \<open>render esc ref (Integer n) = ''<c r="'' @ ref @ ''"><v>'' @ fmt_d n @ ''</v></c>''\<close>
| \<open>render esc ref (FloatingPoint f) = ''<c r="'' @ ref @ ''"><v>'' @ f @ ''</v></c>''\<close>
| \<open>render esc ref (Boolean b) =
     ''<c r="'' @ ref @ ''" t="b"><v>'' @ (if b then ''1'' else ''0'') @ ''</v></c>''\<close>
| \<open>render esc ref Empty = ''<c r="'' @ ref @ ''"/>''\<close>

text \<open>
  Reading a column name back as a number: \<open>A\<close> is 1, \<open>Z\<close> is 26, and each further
  letter to the left weighs 26 times more (bijective base 26).
\<close>

fun letters_value :: "int \<Rightarrow> string \<Rightarrow> int" where
  "letters_value acc [] = acc"
| "letters_value acc (ch # name) = letters_value (acc * 26 + (of_char ch - 64)) name"

definition column_number :: "string \<Rightarrow> int" where
  "column_number name = letters_value 0 name"

section \<open>Errors and results\<close>

text \<open>
  A Go \<open>error\<close> is either a message (\<open>fmt.Errorf("...")\<close>, or an error of a library) or
  a message wrapped around a cause (\<open>fmt.Errorf("...: %w", err)\<close>). An operation ends
  normally with a value, returns an error, or panics (an index out of range, a nil
  dereference); after a panic the state holds the assignments made until then.
\<close>

datatype error = Err string | Wrap string error

datatype 'a result = Ok 'a | Fail error | Panic string

type_synonym byte = "8 word"

section \<open>The chunked-upload sink (s3sink.go)\<close>

text \<open>
  The S3 client is the environment of the sink. Its model keeps the history of the
  requests it has served, each with its response, and answers a request by a function of
  that history and the request, so any deterministic service, failing where it likes, is
  an instance. Pointers to strings (\<open>UploadId\<close>, \<open>ETag\<close>, \<open>SSEKMSKeyId\<close>) are options;
  \<open>partNumber\<close> is an \<open>int32\<close>, a 32-bit word read by \<open>sint\<close>; byte counts are Go \<open>int\<close>/\<open>int64\<close>, modelled by
  \<open>int\<close> (they count bytes held in memory and stay far below \<open>2^63\<close>). The
  \<open>context.Context\<close> is not modelled.
\<close>

record S3Options =
  PartSize :: int
  ACL :: string
  ContentType :: string
  Metadata :: "(string \<times> string) list option"
  StorageClass :: string
  ServerSideEncryption :: string
  SSEKMSKeyId :: "string option"

record CompletedPart =
  ETag :: "string option"
  PartNumber :: "32 word"

datatype s3_event =
    CreateMultipartUpload string string S3Options "error + string option"
  | UploadPart "32 word" "byte list" "error + string option"
  | CompleteMultipartUpload "CompletedPart list" "error option"
  | AbortMultipartUpload "error option"

record s3_Client =
  history :: "s3_event list"
  onCreate :: "s3_event list \<Rightarrow> string \<Rightarrow> string \<Rightarrow> S3Options \<Rightarrow> error + string option"
  onUploadPart :: "s3_event list \<Rightarrow> 32 word \<Rightarrow> byte list \<Rightarrow> error + string option"
  onComplete :: "s3_event list \<Rightarrow> CompletedPart list \<Rightarrow> error option"
  onAbort :: "s3_event list \<Rightarrow> error option"

definition client_CreateMultipartUpload ::
  "s3_Client \<Rightarrow> string \<Rightarrow> string \<Rightarrow> S3Options \<Rightarrow> (error + string option) \<times> s3_Client" where
  "client_CreateMultipartUpload c b k opts =
     (let r = onCreate c (history c) b k opts
      in (r, c\<lparr>history := history c @ [CreateMultipartUpload b k opts r]\<rparr>))"

definition client_UploadPart ::
  "s3_Client \<Rightarrow> 32 word \<Rightarrow> byte list \<Rightarrow> (error + string option) \<times> s3_Client" where
  "client_UploadPart c pn body =
     (let r = onUploadPart c (history c) pn body
      in (r, c\<lparr>history := history c @ [UploadPart pn body r]\<rparr>))"

definition client_CompleteMultipartUpload ::
  "s3_Client \<Rightarrow> CompletedPart list \<Rightarrow> error option \<times> s3_Client" where
  "client_CompleteMultipartUpload c parts =
     (let r = onComplete c (history c) parts
      in (r, c\<lparr>history := history c @ [CompleteMultipartUpload parts r]\<rparr>))"

definition client_AbortMultipartUpload :: "s3_Client \<Rightarrow> error option \<times> s3_Client" where
  "client_AbortMultipartUpload c =
     (let r = onAbort c (history c)
      in (r, c\<lparr>history := history c @ [AbortMultipartUpload r]\<rparr>))"

record S3Sink =
  client :: s3_Client
  bucket :: string
  key :: string
  options :: S3Options
  uploadID :: "string option"
  buffer :: "byte list"
  partNumber :: "32 word"
  completedParts :: "CompletedPart list"
  totalBytes :: int

definition DefaultS3Options :: S3Options where
  "DefaultS3Options =
     \<lparr>PartSize = 32 * 1024 * 1024, ACL = [],
      ContentType = ''application/vnd.openxmlformats-officedocument.spreadsheetml.sheet'',
      Metadata = None, StorageClass = [], ServerSideEncryption = [], SSEKMSKeyId = None\<rparr>"

text \<open>
  \<open>initiateMultipartUpload\<close> copies the optional fields into the request when they are
  set, which sends them as they are; the request is the bucket, the key and the options.
\<close>

definition initiateMultipartUpload :: "S3Sink \<Rightarrow> error option \<times> S3Sink" where
  "initiateMultipartUpload s =
     (case client_CreateMultipartUpload (client s) (bucket s) (key s) (options s) of
        (Inl err, c) \<Rightarrow> (Some err, s\<lparr>client := c\<rparr>)
      | (Inr uid, c) \<Rightarrow> (None, s\<lparr>client := c, uploadID := uid\<rparr>))"

text \<open>
  \<open>NewS3Sink\<close> takes the options as a variadic list of pointers and uses the first one
  if it is there and not nil. When it fails no sink is returned; the client, which the
  caller still holds, is returned with the error.
\<close>

definition NewS3Sink ::
  "s3_Client \<Rightarrow> string \<Rightarrow> string \<Rightarrow> S3Options option list \<Rightarrow> (error \<times> s3_Client) + S3Sink" where
  "NewS3Sink c b k opts_arg =
     (let opts = (case opts_arg of Some given # _ \<Rightarrow> given | _ \<Rightarrow> DefaultS3Options)
      in if PartSize opts < 5 * 1024 * 1024
         then Inl (Err ''part size must be at least 5MB'', c)
         else
           (case initiateMultipartUpload
                   \<lparr>client = c, bucket = b, key = k, options = opts, uploadID = None,
                    buffer = [], partNumber = 1, completedParts = [], totalBytes = 0\<rparr> of
              (Some err, s) \<Rightarrow> Inl (Wrap ''failed to initiate multipart upload'' err, client s)
            | (None, s) \<Rightarrow> Inr s))"

definition uploadPart :: "S3Sink \<Rightarrow> error option \<times> S3Sink" where
  "uploadPart s =
     (if length (buffer s) = 0 then (None, s)
      else
        (case client_UploadPart (client s) (partNumber s) (buffer s) of
           (Inl err, c) \<Rightarrow> (Some err, s\<lparr>client := c\<rparr>)
         | (Inr etag, c) \<Rightarrow>
             (None, s\<lparr>client := c,
                      completedParts :=
                        completedParts s @ [\<lparr>ETag = etag, PartNumber = partNumber s\<rparr>],
                      buffer := [],
                      partNumber := partNumber s + 1\<rparr>)))"

text \<open>
  \<open>Write\<close>: \<open>bytes.Buffer.Write\<close> takes all of \<open>p\<close> and returns no error, so \<open>n\<close> is
  the length of \<open>p\<close>. The result is the pair \<open>(n, err)\<close>.
\<close>

definition S3Sink_Write :: "S3Sink \<Rightarrow> byte list \<Rightarrow> (int \<times> error option) \<times> S3Sink" where
  "S3Sink_Write s p =
     (let n = int (length p);
          s1 = s\<lparr>buffer := buffer s @ p, totalBytes := totalBytes s + n\<rparr>
      in if int (length (buffer s1)) \<ge> PartSize (options s1)
         then (case uploadPart s1 of
                 (Some err, s2) \<Rightarrow> ((n, Some (Wrap ''failed to upload part'' err)), s2)
               | (None, s2) \<Rightarrow> ((n, None), s2))
         else ((n, None), s1))"

definition completeMultipartUpload :: "S3Sink \<Rightarrow> error option \<times> S3Sink" where
  "completeMultipartUpload s =
     (case client_CompleteMultipartUpload (client s) (completedParts s) of
        (err, c) \<Rightarrow> (err, s\<lparr>client := c\<rparr>))"

definition abortMultipartUpload :: "S3Sink \<Rightarrow> error option \<times> S3Sink" where
  "abortMultipartUpload s =
     (if uploadID s = None then (None, s)
      else (case client_AbortMultipartUpload (client s) of
              (err, c) \<Rightarrow> (err, s\<lparr>client := c\<rparr>)))"

definition S3Sink_Close :: "S3Sink \<Rightarrow> error option \<times> S3Sink" where
  "S3Sink_Close s =
     (case (if length (buffer s) > 0 then uploadPart s else (None, s)) of
        (Some err, s1) \<Rightarrow> (Some (Wrap ''failed to upload final part'' err), s1)
      | (None, s1) \<Rightarrow>
          (case completeMultipartUpload s1 of
             (Some err, s2) \<Rightarrow>
               (Some (Wrap ''failed to complete multipart upload'' err),
                snd (abortMultipartUpload s2))
           | (None, s2) \<Rightarrow> (None, s2)))"

definition TotalBytes :: "S3Sink \<Rightarrow> int" where
  "TotalBytes s = totalBytes s"

definition PartCount :: "S3Sink \<Rightarrow> int" where
  "PartCount s = int (length (completedParts s))"

definition Abort :: "S3Sink \<Rightarrow> error option \<times> S3Sink" where
  "Abort s = abortMultipartUpload s"


section \<open>The local-file sink\<close>

text \<open>
  The operating-system file behind a \<open>FileSink\<close>: the bytes it holds, whether it is
  closed, and the answers of the system to a write and to a close, as functions of the
  bytes held (a full disk is a write that fails from some size on). A write or a close
  on a closed file fails.
\<close>

record os_File =
  written :: "byte list"
  fclosed :: bool
  onWrite :: "byte list \<Rightarrow> byte list \<Rightarrow> error option"
  onFileClose :: "byte list \<Rightarrow> error option"

definition File_Write :: "os_File \<Rightarrow> byte list \<Rightarrow> (int \<times> error option) \<times> os_File" where
  "File_Write f p =
     (if fclosed f then ((0, Some (Err ''file already closed'')), f)
      else (case onWrite f (written f) p of
              Some err \<Rightarrow> ((0, Some err), f)
            | None \<Rightarrow> ((int (length p), None), f\<lparr>written := written f @ p\<rparr>)))"

definition File_Close :: "os_File \<Rightarrow> error option \<times> os_File" where
  "File_Close f =
     (if fclosed f then (Some (Err ''file already closed''), f)
      else (onFileClose f (written f), f\<lparr>fclosed := True\<rparr>))"

text \<open>The field \<open>file\<close> is \<open>file0\<close> here (\<open>file\<close> is a keyword); a nil pointer is \<open>None\<close>.\<close>

record FileSink =
  file0 :: "os_File option"
  path :: string

text \<open>\<open>NewFileSink\<close>, given what \<open>os.Create\<close> answered for the path.\<close>

definition NewFileSink :: "(error + os_File) \<Rightarrow> string \<Rightarrow> error + FileSink" where
  "NewFileSink created p =
     (case created of Inl err \<Rightarrow> Inl err | Inr f \<Rightarrow> Inr \<lparr>file0 = Some f, path = p\<rparr>)"

definition FileSink_Write :: "FileSink \<Rightarrow> byte list \<Rightarrow> (int \<times> error option) \<times> FileSink" where
  "FileSink_Write fs p =
     (case file0 fs of
        None \<Rightarrow> ((0, Some (Err ''invalid argument'')), fs)
      | Some f \<Rightarrow> (case File_Write f p of (r, f') \<Rightarrow> (r, fs\<lparr>file0 := Some f'\<rparr>)))"

definition FileSink_Close :: "FileSink \<Rightarrow> error option \<times> FileSink" where
  "FileSink_Close fs =
     (case file0 fs of
        Some f \<Rightarrow> (case File_Close f of (err, f') \<Rightarrow> (err, fs\<lparr>file0 := Some f'\<rparr>))
      | None \<Rightarrow> (None, fs))"

definition Path :: "FileSink \<Rightarrow> string" where
  "Path fs = path fs"

section \<open>The Sink interface\<close>

text \<open>
  \<open>Sink\<close> is the interface with \<open>Write\<close> and \<open>Close\<close>; its implementations in the
  repository are the two sinks, and a call through the interface goes to the method of
  the implementation.
\<close>

datatype Sink = LocalFile FileSink | S3 S3Sink

fun Sink_Write :: "Sink \<Rightarrow> byte list \<Rightarrow> (int \<times> error option) \<times> Sink" where
  "Sink_Write (LocalFile fs) p = (case FileSink_Write fs p of (r, fs') \<Rightarrow> (r, LocalFile fs'))"
| "Sink_Write (S3 s) p = (case S3Sink_Write s p of (r, s') \<Rightarrow> (r, S3 s'))"

fun Sink_Close :: "Sink \<Rightarrow> error option \<times> Sink" where
  "Sink_Close (LocalFile fs) = (case FileSink_Close fs of (err, fs') \<Rightarrow> (err, LocalFile fs'))"
| "Sink_Close (S3 s) = (case S3Sink_Close s of (err, s') \<Rightarrow> (err, S3 s'))"

section \<open>The archive layer\<close>

text \<open>
  The writer drives \<open>archive/zip\<close> of Go's standard library, which is not part of the
  repository. Its model keeps what the claims observe of an archive: the entries created,
  in order, each with the pieces of data written to it, and whether the archive is
  closed. An entry takes data only while it is the newest entry of an open archive
  (\<open>Create\<close> and \<open>Close\<close> close the entry before). Which compressed bytes reach the
  sink, and when, is decided by the compressor and the archive's buffer; the model takes
  it as a schedule: for each coming operation of the archive the bytes that operation
  hands to the sink (none: the operation stays inside the buffer). An operation of the
  archive fails when the sink refuses its bytes; \<open>Create\<close> fails as well when the
  compressor rejects the compression level (\<open>flate.NewWriter\<close> takes -2 to 9).
\<close>

record zip_entry =
  ename :: string
  chunks :: "string list"

record zip_Writer =
  dir :: "zip_entry list"
  zclosed :: bool
  flushes :: "byte list list"

definition zip_NewWriter :: "byte list list \<Rightarrow> zip_Writer" where
  "zip_NewWriter schedule = \<lparr>dir = [], zclosed = False, flushes = schedule\<rparr>"

definition zip_flush :: "zip_Writer \<Rightarrow> Sink \<Rightarrow> error option \<times> zip_Writer \<times> Sink" where
  "zip_flush z s =
     (case flushes z of
        [] \<Rightarrow> (None, z, s)
      | bs # rest \<Rightarrow>
          (if bs = [] then (None, z\<lparr>flushes := rest\<rparr>, s)
           else (case Sink_Write s bs of
                   ((n, err), s') \<Rightarrow> (err, z\<lparr>flushes := rest\<rparr>, s'))))"

text \<open>\<open>Create\<close> returns the handle of the new entry: its position in the archive.\<close>

definition zip_Create ::
  "int \<Rightarrow> string \<Rightarrow> zip_Writer \<Rightarrow> Sink \<Rightarrow> (error + nat) \<times> zip_Writer \<times> Sink" where
  "zip_Create level name z s =
     (if level < - 2 \<or> level > 9
      then (Inl (Err ''flate: invalid compression level''), z, s)
      else (case zip_flush z s of
              (Some err, z', s') \<Rightarrow> (Inl err, z', s')
            | (None, z', s') \<Rightarrow>
                (Inr (length (dir z')),
                 z'\<lparr>dir := dir z' @ [\<lparr>ename = name, chunks = []\<rparr>]\<rparr>, s')))"

definition zip_Write ::
  "nat \<Rightarrow> string \<Rightarrow> zip_Writer \<Rightarrow> Sink \<Rightarrow> error option \<times> zip_Writer \<times> Sink" where
  "zip_Write h data z s =
     (if zclosed z \<or> Suc h \<noteq> length (dir z)
      then (Some (Err ''zip: write to closed file''), z, s)
      else (case zip_flush z s of
              (Some err, z', s') \<Rightarrow> (Some err, z', s')
            | (None, z', s') \<Rightarrow>
                (None,
                 z'\<lparr>dir := (dir z')[h := (dir z' ! h)\<lparr>chunks := chunks (dir z' ! h) @ [data]\<rparr>]\<rparr>,
                 s')))"

definition zip_Close :: "zip_Writer \<Rightarrow> Sink \<Rightarrow> error option \<times> zip_Writer \<times> Sink" where
  "zip_Close z s =
     (if zclosed z then (Some (Err ''zip: writer closed twice''), z, s)
      else zip_flush (z\<lparr>zclosed := True\<rparr>) s)"

section \<open>Container templates (sink.go)\<close>

text \<open>
  The template constants, line by line. \<open>contentTypesXML\<close> is a format string with one
  \<open>%s\<close>; it is the function of the text put there.
\<close>

definition contentTypesXML :: "string \<Rightarrow> string" where
  \<open>contentTypesXML overrides =
     ''<?xml version="1.0" encoding="UTF-8" standalone="yes"?>\<newline>'' @
     ''<Types xmlns="http://schemas.openxmlformats.org/package/2006/content-types">\<newline>'' @
     ''<Default Extension="rels" ContentType="application/vnd.openxmlformats-package.relationships+xml"/>\<newline>'' @
     ''<Default Extension="xml" ContentType="application/xml"/>\<newline>'' @
     ''<Override PartName="/xl/workbook.xml" ContentType="application/vnd.openxmlformats-officedocument.spreadsheetml.sheet.main+xml"/>\<newline>'' @
     ''<Override PartName="/xl/styles.xml" ContentType="application/vnd.openxmlformats-officedocument.spreadsheetml.styles+xml"/>\<newline>'' @
     overrides @ ''</Types>''\<close>

definition relsXML :: string where
  \<open>relsXML =
     ''<?xml version="1.0" encoding="UTF-8" standalone="yes"?>\<newline>'' @
     ''<Relationships xmlns="http://schemas.openxmlformats.org/package/2006/relationships">\<newline>'' @
     ''<Relationship Id="rId1" Type="http://schemas.openxmlformats.org/officeDocument/2006/relationships/officeDocument" Target="xl/workbook.xml"/>\<newline>'' @
     ''</Relationships>''\<close>

definition workbookXMLHeader :: string where
  \<open>workbookXMLHeader =
     ''<?xml version="1.0" encoding="UTF-8" standalone="yes"?>\<newline>'' @
     ''<workbook xmlns="http://schemas.openxmlformats.org/spreadsheetml/2006/main" xmlns:r="http://schemas.openxmlformats.org/officeDocument/2006/relationships">\<newline>'' @
     ''<sheets>''\<close>

definition workbookXMLFooter :: string where
  \<open>workbookXMLFooter =
     ''</sheets>\<newline>'' @
     ''</workbook>''\<close>

definition workbookRelsXMLHeader :: string where
  \<open>workbookRelsXMLHeader =
     ''<?xml version="1.0" encoding="UTF-8" standalone="yes"?>\<newline>'' @
     ''<Relationships xmlns="http://schemas.openxmlformats.org/package/2006/relationships">''\<close>

definition workbookRelsXMLFooter :: string where
  \<open>workbookRelsXMLFooter =
     ''<Relationship Id="rId999" Type="http://schemas.openxmlformats.org/officeDocument/2006/relationships/styles" Target="styles.xml"/>\<newline>'' @
     ''</Relationships>''\<close>

definition stylesXML :: string where
  \<open>stylesXML =
     ''<?xml version="1.0" encoding="UTF-8" standalone="yes"?>\<newline>'' @
     ''<styleSheet xmlns="http://schemas.openxmlformats.org/spreadsheetml/2006/main">\<newline>'' @
     ''<fonts count="1"><font><sz val="11"/><name val="Calibri"/></font></fonts>\<newline>'' @
     ''<fills count="2"><fill><patternFill patternType="none"/></fill><fill><patternFill patternType="gray125"/></fill></fills>\<newline>'' @
     ''<borders count="1"><border><left/><right/><top/><bottom/><diagonal/></border></borders>\<newline>'' @
     ''<cellStyleXfs count="1"><xf numFmtId="0" fontId="0" fillId="0" borderId="0"/></cellStyleXfs>\<newline>'' @
     ''<cellXfs count="1"><xf numFmtId="0" fontId="0" fillId="0" borderId="0" xfId="0"/></cellXfs>\<newline>'' @
     ''</styleSheet>''\<close>

definition worksheetHeader :: string where
  \<open>worksheetHeader =
     ''<?xml version="1.0" encoding="UTF-8" standalone="yes"?>\<newline>'' @
     ''<worksheet xmlns="http://schemas.openxmlformats.org/spreadsheetml/2006/main">\<newline>'' @
     ''<sheetData>''\<close>

definition worksheetFooter :: string where
  \<open>worksheetFooter =
     ''</sheetData>\<newline>'' @
     ''</worksheet>''\<close>

definition generateContentTypesXML :: "int \<Rightarrow> string" where
  \<open>generateContentTypesXML sheetCount =
     contentTypesXML
       (concat (map (\<lambda>i. ''<Override PartName="/xl/worksheets/sheet'' @ fmt_d i @
                          ''.xml" ContentType="application/vnd.openxmlformats-officedocument.spreadsheetml.worksheet+xml"/>\<newline>'')
                    [1..sheetCount]))\<close>

definition generateWorkbookXML :: "int \<Rightarrow> string \<Rightarrow> string" where
  \<open>generateWorkbookXML sheetCount sheetPrefix =
     workbookXMLHeader @
     concat (map (\<lambda>i. ''<sheet name="'' @ sheetPrefix @ fmt_d i @ ''" sheetId="'' @ fmt_d i @
                        ''" r:id="rId'' @ fmt_d i @ ''"/>\<newline>'')
                 [1..sheetCount]) @
     workbookXMLFooter\<close>

definition generateWorkbookRelsXML :: "int \<Rightarrow> string" where
  \<open>generateWorkbookRelsXML sheetCount =
     workbookRelsXMLHeader @
     concat (map (\<lambda>i. ''<Relationship Id="rId'' @ fmt_d i @
                        ''" Type="http://schemas.openxmlformats.org/officeDocument/2006/relationships/worksheet" Target="worksheets/sheet'' @
                        fmt_d i @ ''.xml"/>\<newline>'')
                 [1..sheetCount]) @
     workbookRelsXMLFooter\<close>


section \<open>The streaming writer\<close>

text \<open>
  Row and sheet counters are Go \<open>int\<close> and \<open>int64\<close>; they count rows written one at
  a time and are modelled by \<open>int\<close>. The wall-clock fields (\<open>startTime\<close>, and
  \<open>Duration\<close>, \<open>RowsPerSecond\<close>, \<open>BytesPerSecond\<close> of the statistics) are floating
  point readings of the clock and are left out. A \<open>sheetWriter\<close> holds the
  \<open>io.Writer\<close> that \<open>Create\<close> returned for its entry: the handle of the entry. The
  slice \<open>sheetWriters\<close> holds pointers, so an assignment to a field of a sheet writer
  is an update of the list at its position.
\<close>

record Stats =
  TotalRows :: int
  TotalSheets :: int
  FileSize :: int

record Config =
  CompressionLevel :: int
  BufferSize :: int
  MaxRowsPerSheet :: int
  SheetNamePrefix :: string

definition DefaultConfig :: Config where
  "DefaultConfig =
     \<lparr>CompressionLevel = 6, BufferSize = 64 * 1024, MaxRowsPerSheet = 1048576,
      SheetNamePrefix = ''Sheet''\<rparr>"

record sheetWriter =
  writer :: nat
  rowCount :: int
  sheetIndex :: int
  headersDone :: bool
  closed :: bool

record Writer =
  sink :: Sink
  config :: Config
  zipWriter :: "zip_Writer option"
  started :: bool
  finished :: bool
  currentSheet :: int
  currentSheetRows :: int
  currentSheetIndex :: int
  sheetWriters :: "sheetWriter list"
  totalRows :: int
  bytesWritten :: int

text \<open>
  What the writer takes from Go's standard library: the text escaping of
  \<open>encoding/xml\<close> and, for the archive that \<open>StartFile\<close> opens, the schedule of the
  bytes it hands to the sink.
\<close>

record stdlib =
  EscapeText :: "string \<Rightarrow> string"
  deflate_schedule :: "byte list list"

definition NewWriter :: "Sink \<Rightarrow> Config option list \<Rightarrow> Writer" where
  "NewWriter snk config_arg =
     \<lparr>sink = snk,
      config = (case config_arg of Some given # _ \<Rightarrow> given | _ \<Rightarrow> DefaultConfig),
      zipWriter = None, started = False, finished = False,
      currentSheet = 0, currentSheetRows = 0, currentSheetIndex = 0,
      sheetWriters = [], totalRows = 0, bytesWritten = 0\<rparr>"

text \<open>
  Calls of the writer into its archive. The archive writes into the sink the writer
  holds; both are updated. A call through the nil \<open>zipWriter\<close> panics.
\<close>

definition archive_Create :: "Writer \<Rightarrow> string \<Rightarrow> nat result \<times> Writer" where
  "archive_Create w name =
     (case zipWriter w of
        None \<Rightarrow> (Panic ''nil pointer dereference'', w)
      | Some z \<Rightarrow>
          (case zip_Create (CompressionLevel (config w)) name z (sink w) of
             (Inl err, z', s') \<Rightarrow> (Fail err, w\<lparr>zipWriter := Some z', sink := s'\<rparr>)
           | (Inr h, z', s') \<Rightarrow> (Ok h, w\<lparr>zipWriter := Some z', sink := s'\<rparr>)))"

definition entry_Write :: "Writer \<Rightarrow> nat \<Rightarrow> string \<Rightarrow> unit result \<times> Writer" where
  "entry_Write w h data =
     (case zipWriter w of
        None \<Rightarrow> (Panic ''nil pointer dereference'', w)
      | Some z \<Rightarrow>
          (case zip_Write h data z (sink w) of
             (Some err, z', s') \<Rightarrow> (Fail err, w\<lparr>zipWriter := Some z', sink := s'\<rparr>)
           | (None, z', s') \<Rightarrow> (Ok (), w\<lparr>zipWriter := Some z', sink := s'\<rparr>)))"

definition archive_Close :: "Writer \<Rightarrow> unit result \<times> Writer" where
  "archive_Close w =
     (case zipWriter w of
        None \<Rightarrow> (Panic ''nil pointer dereference'', w)
      | Some z \<Rightarrow>
          (case zip_Close z (sink w) of
             (Some err, z', s') \<Rightarrow> (Fail err, w\<lparr>zipWriter := Some z', sink := s'\<rparr>)
           | (None, z', s') \<Rightarrow> (Ok (), w\<lparr>zipWriter := Some z', sink := s'\<rparr>)))"

definition writeZipFile :: "Writer \<Rightarrow> string \<Rightarrow> string \<Rightarrow> unit result \<times> Writer" where
  "writeZipFile w name data =
     (case archive_Create w name of
        (Ok h, w1) \<Rightarrow> entry_Write w1 h data
      | (Fail err, w1) \<Rightarrow> (Fail err, w1)
      | (Panic msg, w1) \<Rightarrow> (Panic msg, w1))"

text \<open>
  Both \<open>startNewSheet\<close> and \<open>FinishFile\<close> begin by closing the last sheet if there
  is one and it is open: they write the worksheet footer to it and set its \<open>closed\<close>
  flag. The two copies differ in the message of the error only, the argument here.
\<close>

definition closeLastSheet :: "string \<Rightarrow> Writer \<Rightarrow> unit result \<times> Writer" where
  "closeLastSheet msg w =
     (if length (sheetWriters w) > 0 \<and> \<not> closed (last (sheetWriters w))
      then (case entry_Write w (writer (last (sheetWriters w))) worksheetFooter of
              (Fail err, w1) \<Rightarrow> (Fail (Wrap msg err), w1)
            | (Panic p, w1) \<Rightarrow> (Panic p, w1)
            | (Ok u, w1) \<Rightarrow>
                (Ok (),
                 w1\<lparr>sheetWriters :=
                      (sheetWriters w1)[length (sheetWriters w1) - 1 :=
                         (last (sheetWriters w1))\<lparr>closed := True\<rparr>]\<rparr>))
      else (Ok (), w))"

text \<open>\<open>fmt.Sprintf("xl/worksheets/sheet%d.xml", sheetNum)\<close>.\<close>

definition sheetName_of :: "int \<Rightarrow> string" where
  "sheetName_of sheetNum = ''xl/worksheets/sheet'' @ fmt_d sheetNum @ ''.xml''"

definition startNewSheet :: "Writer \<Rightarrow> unit result \<times> Writer" where
  "startNewSheet w =
     (case closeLastSheet ''failed to close previous sheet'' w of
        (Fail err, w1) \<Rightarrow> (Fail err, w1)
      | (Panic p, w1) \<Rightarrow> (Panic p, w1)
      | (Ok u, w1) \<Rightarrow>
          (let sheetNum = int (length (sheetWriters w1)) + 1;
               sheetName = sheetName_of sheetNum
           in case archive_Create w1 sheetName of
                (Fail err, w2) \<Rightarrow> (Fail (Wrap (''failed to create sheet '' @ fmt_d sheetNum) err), w2)
              | (Panic p, w2) \<Rightarrow> (Panic p, w2)
              | (Ok h, w2) \<Rightarrow>
                  (case entry_Write w2 h (worksheetHeader @ ''\<newline>'') of
                     (Fail err, w3) \<Rightarrow> (Fail (Wrap ''failed to write worksheet header'' err), w3)
                   | (Panic p, w3) \<Rightarrow> (Panic p, w3)
                   | (Ok u, w3) \<Rightarrow>
                       (Ok (),
                        w3\<lparr>sheetWriters :=
                             sheetWriters w3 @
                               [\<lparr>writer = h, rowCount = 0, sheetIndex = sheetNum - 1,
                                 headersDone = False, closed = False\<rparr>],
                           currentSheetIndex := int (length (sheetWriters w3) + 1) - 1\<rparr>))))"

text \<open>
  \<open>w.sheetWriters[w.currentSheetIndex]\<close>: the sheet writer at the current index, or
  nothing where the index is out of range and Go panics.
\<close>

definition currentWriter :: "Writer \<Rightarrow> sheetWriter option" where
  "currentWriter w =
     (if 0 \<le> currentSheetIndex w \<and> currentSheetIndex w < int (length (sheetWriters w))
      then Some (sheetWriters w ! nat (currentSheetIndex w))
      else None)"

text \<open>The second half of \<open>WriteRow\<close>: encode the row and write it to the current sheet.\<close>

definition appendRow :: "stdlib \<Rightarrow> Writer \<Rightarrow> cell list \<Rightarrow> unit result \<times> Writer" where
  "appendRow L w values =
     (case currentWriter w of
        None \<Rightarrow> (Panic ''index out of range'', w)
      | Some cur \<Rightarrow>
          (case entry_Write w (writer cur)
                  (generateRow (EscapeText L) (rowCount cur) values @ ''\<newline>'') of
             (Fail err, w1) \<Rightarrow> (Fail (Wrap ''failed to write row'' err), w1)
           | (Panic p, w1) \<Rightarrow> (Panic p, w1)
           | (Ok u, w1) \<Rightarrow>
               (Ok (),
                w1\<lparr>sheetWriters :=
                     (sheetWriters w1)[nat (currentSheetIndex w1) :=
                        cur\<lparr>rowCount := rowCount cur + 1\<rparr>],
                   totalRows := totalRows w1 + 1\<rparr>)))"

definition WriteRow :: "stdlib \<Rightarrow> Writer \<Rightarrow> cell list \<Rightarrow> unit result \<times> Writer" where
  "WriteRow L w values =
     (if \<not> started w then (Fail (Err ''file not started, call StartFile first''), w)
      else if finished w then (Fail (Err ''file already finished''), w)
      else
        (case currentWriter w of
           None \<Rightarrow> (Panic ''index out of range'', w)
         | Some cur \<Rightarrow>
             (if rowCount cur \<ge> MaxRowsPerSheet (config w)
              then (case startNewSheet w of
                      (Fail err, w1) \<Rightarrow> (Fail err, w1)
                    | (Panic p, w1) \<Rightarrow> (Panic p, w1)
                    | (Ok u, w1) \<Rightarrow> appendRow L w1 values)
              else appendRow L w values)))"

fun WriteRows :: "stdlib \<Rightarrow> Writer \<Rightarrow> cell list list \<Rightarrow> unit result \<times> Writer" where
  "WriteRows L w [] = (Ok (), w)"
| "WriteRows L w (row # rows) =
     (case WriteRow L w row of
        (Ok u, w1) \<Rightarrow> WriteRows L w1 rows
      | (Fail err, w1) \<Rightarrow> (Fail err, w1)
      | (Panic p, w1) \<Rightarrow> (Panic p, w1))"

text \<open>
  \<open>StartFile\<close> takes the headers as a variadic list of rows and writes the first one
  if it is there and not empty.
\<close>

definition writeHeaders :: "stdlib \<Rightarrow> Writer \<Rightarrow> cell list list \<Rightarrow> unit result \<times> Writer" where
  "writeHeaders L w headers =
     (if length headers > 0 \<and> length (hd headers) > 0
      then (case WriteRow L w (hd headers) of
              (Fail err, w1) \<Rightarrow> (Fail (Wrap ''failed to write headers'' err), w1)
            | (Panic p, w1) \<Rightarrow> (Panic p, w1)
            | (Ok u, w1) \<Rightarrow>
                (case sheetWriters w1 of
                   [] \<Rightarrow> (Panic ''index out of range'', w1)
                 | first # others \<Rightarrow>
                     (Ok (),
                      w1\<lparr>sheetWriters := first\<lparr>headersDone := True\<rparr> # others,
                         totalRows := totalRows w1 - 1\<rparr>)))
      else (Ok (), w))"

definition StartFile :: "stdlib \<Rightarrow> Writer \<Rightarrow> cell list list \<Rightarrow> unit result \<times> Writer" where
  "StartFile L w headers =
     (if started w then (Fail (Err ''file already started''), w)
      else
        (case writeZipFile
                (w\<lparr>started := True, zipWriter := Some (zip_NewWriter (deflate_schedule L))\<rparr>)
                ''_rels/.rels'' relsXML of
           (Fail err, w1) \<Rightarrow> (Fail (Wrap ''failed to write _rels/.rels'' err), w1)
         | (Panic p, w1) \<Rightarrow> (Panic p, w1)
         | (Ok u, w1) \<Rightarrow>
             (case writeZipFile w1 ''xl/styles.xml'' stylesXML of
                (Fail err, w2) \<Rightarrow> (Fail (Wrap ''failed to write styles.xml'' err), w2)
              | (Panic p, w2) \<Rightarrow> (Panic p, w2)
              | (Ok u, w2) \<Rightarrow>
                  (case startNewSheet w2 of
                     (Fail err, w3) \<Rightarrow> (Fail err, w3)
                   | (Panic p, w3) \<Rightarrow> (Panic p, w3)
                   | (Ok u, w3) \<Rightarrow> writeHeaders L w3 headers))))"

text \<open>The last two steps of \<open>FinishFile\<close>: close the sink, then build the statistics.\<close>

definition closeSink :: "Writer \<Rightarrow> Stats result \<times> Writer" where
  "closeSink w =
     (case Sink_Close (sink w) of
        (Some err, s') \<Rightarrow> (Fail (Wrap ''failed to close sink'' err), w\<lparr>sink := s'\<rparr>)
      | (None, s') \<Rightarrow>
          (Ok \<lparr>TotalRows = totalRows w, TotalSheets = int (length (sheetWriters w)),
               FileSize = 0\<rparr>,
           w\<lparr>sink := s'\<rparr>))"

text \<open>The steps of \<open>FinishFile\<close> after the last sheet is closed.\<close>

definition writeManifests :: "Writer \<Rightarrow> Stats result \<times> Writer" where
  "writeManifests w =
     (case writeZipFile w ''xl/workbook.xml''
             (generateWorkbookXML (int (length (sheetWriters w))) (SheetNamePrefix (config w))) of
        (Fail err, w1) \<Rightarrow> (Fail (Wrap ''failed to write workbook.xml'' err), w1)
      | (Panic p, w1) \<Rightarrow> (Panic p, w1)
      | (Ok u, w1) \<Rightarrow>
          (case writeZipFile w1 ''xl/_rels/workbook.xml.rels''
                  (generateWorkbookRelsXML (int (length (sheetWriters w1)))) of
             (Fail err, w2) \<Rightarrow> (Fail (Wrap ''failed to write workbook.xml.rels'' err), w2)
           | (Panic p, w2) \<Rightarrow> (Panic p, w2)
           | (Ok u, w2) \<Rightarrow>
               (case writeZipFile w2 ''[Content_Types].xml''
                       (generateContentTypesXML (int (length (sheetWriters w2)))) of
                  (Fail err, w3) \<Rightarrow> (Fail (Wrap ''failed to write [Content_Types].xml'' err), w3)
                | (Panic p, w3) \<Rightarrow> (Panic p, w3)
                | (Ok u, w3) \<Rightarrow>
                    (case archive_Close w3 of
                       (Fail err, w4) \<Rightarrow> (Fail (Wrap ''failed to close zip writer'' err), w4)
                     | (Panic p, w4) \<Rightarrow> (Panic p, w4)
                     | (Ok u, w4) \<Rightarrow> closeSink w4))))"

definition FinishFile :: "Writer \<Rightarrow> Stats result \<times> Writer" where
  "FinishFile w =
     (if \<not> started w then (Fail (Err ''file not started''), w)
      else if finished w then (Fail (Err ''file already finished''), w)
      else
        (case closeLastSheet ''failed to write worksheet footer'' (w\<lparr>finished := True\<rparr>) of
           (Fail err, w1) \<Rightarrow> (Fail err, w1)
         | (Panic p, w1) \<Rightarrow> (Panic p, w1)
         | (Ok u, w1) \<Rightarrow> writeManifests w1))"

definition SetCompressionLevel :: "Writer \<Rightarrow> int \<Rightarrow> error option \<times> Writer" where
  "SetCompressionLevel w lvl =
     (if started w then (Some (Err ''cannot change compression level after file started''), w)
      else if lvl < 0 \<or> lvl > 9
      then (Some (Err ''compression level must be between 0 and 9''), w)
      else (None, w\<lparr>config := (config w)\<lparr>CompressionLevel := lvl\<rparr>\<rparr>))"

definition SetBufferSize :: "Writer \<Rightarrow> int \<Rightarrow> error option \<times> Writer" where
  "SetBufferSize w sz =
     (if started w then (Some (Err ''cannot change buffer size after file started''), w)
      else if sz < 1024 then (Some (Err ''buffer size must be at least 1024 bytes''), w)
      else (None, w\<lparr>config := (config w)\<lparr>BufferSize := sz\<rparr>\<rparr>))"

definition SetMaxRowsPerSheet :: "Writer \<Rightarrow> int \<Rightarrow> error option \<times> Writer" where
  "SetMaxRowsPerSheet w rows =
     (if started w then (Some (Err ''cannot change max rows per sheet after file started''), w)
      else if rows < 1 \<or> rows > 1048576
      then (Some (Err ''max rows per sheet must be between 1 and 1048576''), w)
      else (None, w\<lparr>config := (config w)\<lparr>MaxRowsPerSheet := rows\<rparr>\<rparr>))"

section \<open>Observing the chunked-upload sink\<close>

text \<open>
  A caller that writes the chunks of a list one after the other, whatever each write
  returns, and collects the results \<open>(n, err)\<close>.
\<close>

fun S3Sink_Writes :: "S3Sink \<Rightarrow> byte list list \<Rightarrow> (int \<times> error option) list \<times> S3Sink" where
  "S3Sink_Writes s [] = ([], s)"
| "S3Sink_Writes s (p # ps) =
     (case S3Sink_Write s p of
        (r, s1) \<Rightarrow> (case S3Sink_Writes s1 ps of (rs, s2) \<Rightarrow> (r # rs, s2)))"

text \<open>
  What a history of the service shows: the parts it acknowledged, in the order of the
  acknowledgments, each with the number it was sent under and the tag the service
  returned; the bodies of those parts; the manifests submitted to complete the upload;
  the number of aborts.
\<close>

fun acked :: "s3_event list \<Rightarrow> CompletedPart list" where
  "acked [] = []"
| "acked (UploadPart pn body (Inr etag) # es) = \<lparr>ETag = etag, PartNumber = pn\<rparr> # acked es"
| "acked (e # es) = acked es"

fun acked_bodies :: "s3_event list \<Rightarrow> byte list list" where
  "acked_bodies [] = []"
| "acked_bodies (UploadPart pn body (Inr etag) # es) = body # acked_bodies es"
| "acked_bodies (e # es) = acked_bodies es"

fun manifests :: "s3_event list \<Rightarrow> CompletedPart list list" where
  "manifests [] = []"
| "manifests (CompleteMultipartUpload parts r # es) = parts # manifests es"
| "manifests (e # es) = manifests es"

fun aborts :: "s3_event list \<Rightarrow> nat" where
  "aborts [] = 0"
| "aborts (AbortMultipartUpload r # es) = Suc (aborts es)"
| "aborts (e # es) = aborts es"

text \<open>
  Part numbers are dense from 1 when the part at position \<open>i\<close> (from 0) has the number
  \<open>i + 1\<close>, in 32-bit arithmetic. \<open>part_inv\<close> is the invariant of a sink between its
  creation and its close, over the events since position \<open>n0\<close> of the history;
  \<open>closed_inv\<close> is what holds after the close.
\<close>

definition dense :: "CompletedPart list \<Rightarrow> bool" where
  "dense parts \<longleftrightarrow> map PartNumber parts = map (\<lambda>i. of_nat (Suc i)) [0..<length parts]"

definition part_inv :: "nat \<Rightarrow> S3Sink \<Rightarrow> bool" where
  "part_inv n0 s \<longleftrightarrow>
     n0 \<le> length (history (client s))
     \<and> acked (drop n0 (history (client s))) = completedParts s
     \<and> manifests (drop n0 (history (client s))) = []
     \<and> dense (completedParts s)
     \<and> partNumber s = of_nat (Suc (length (completedParts s)))"

definition closed_inv :: "nat \<Rightarrow> S3Sink \<Rightarrow> bool" where
  "closed_inv n0 s \<longleftrightarrow>
     acked (drop n0 (history (client s))) = completedParts s
     \<and> dense (completedParts s)
     \<and> (manifests (drop n0 (history (client s))) = []
          \<or> manifests (drop n0 (history (client s))) = [completedParts s])"

text \<open>
  The state of a sink between its creation and its close when the service acknowledges
  every part and every completion and no write has brought more than \<open>M\<close> bytes:
  the buffer is below the part size \<open>P\<close>; every part acknowledged since position
  \<open>n0\<close> of the history holds at least \<open>P\<close> and fewer than \<open>P + M\<close> bytes; the
  parts in order, followed by the buffer, are the bytes \<open>wr\<close> written so far, which
  \<open>totalBytes\<close> counts.
\<close>

definition filling :: "nat \<Rightarrow> int \<Rightarrow> int \<Rightarrow> byte list \<Rightarrow> S3Sink \<Rightarrow> bool" where
  "filling n0 P M wr s \<longleftrightarrow>
     PartSize (options s) = P
     \<and> n0 \<le> length (history (client s))
     \<and> (\<forall>h pn body. \<exists>etag. onUploadPart (client s) h pn body = Inr etag)
     \<and> (\<forall>h parts. onComplete (client s) h parts = None)
     \<and> int (length (buffer s)) < P
     \<and> (\<forall>body \<in> set (acked_bodies (drop n0 (history (client s)))).
           P \<le> int (length body) \<and> int (length body) < P + M)
     \<and> concat (acked_bodies (drop n0 (history (client s)))) @ buffer s = wr
     \<and> totalBytes s = int (length wr)"

text \<open>
  The fixtures of sink\_test.go: the mock client with its default answers, the mock
  whose part uploads fail with a network error, the options with 5 MiB parts, and the
  sinks created with them for the test bucket and key.
\<close>

definition mockS3Client :: s3_Client where
  "mockS3Client =
     \<lparr>history = [],
      onCreate = (\<lambda>h b k opts. Inr (Some ''test-upload-id'')),
      onUploadPart = (\<lambda>h pn body. Inr (Some ''test-etag'')),
      onComplete = (\<lambda>h parts. None),
      onAbort = (\<lambda>h. None)\<rparr>"

definition failingUploadClient :: s3_Client where
  "failingUploadClient =
     mockS3Client\<lparr>onUploadPart := (\<lambda>h pn body. Inl (Err ''network error''))\<rparr>"

definition options_5MiB :: S3Options where
  "options_5MiB =
     \<lparr>PartSize = 5 * 1024 * 1024, ACL = [],
      ContentType = ''application/vnd.openxmlformats-officedocument.spreadsheetml.sheet'',
      Metadata = None, StorageClass = [], ServerSideEncryption = [], SSEKMSKeyId = None\<rparr>"

definition sink_5MiB :: S3Sink where
  "sink_5MiB =
     \<lparr>client = mockS3Client
        \<lparr>history := [CreateMultipartUpload ''test-bucket'' ''test-key'' options_5MiB
                        (Inr (Some ''test-upload-id''))]\<rparr>,
      bucket = ''test-bucket'', key = ''test-key'', options = options_5MiB,
      uploadID = Some ''test-upload-id'', buffer = [], partNumber = 1,
      completedParts = [], totalBytes = 0\<rparr>"

definition sink_failing :: S3Sink where
  "sink_failing =
     \<lparr>client = failingUploadClient
        \<lparr>history := [CreateMultipartUpload ''test-bucket'' ''test-key'' DefaultS3Options
                        (Inr (Some ''test-upload-id''))]\<rparr>,
      bucket = ''test-bucket'', key = ''test-key'', options = DefaultS3Options,
      uploadID = Some ''test-upload-id'', buffer = [], partNumber = 1,
      completedParts = [], totalBytes = 0\<rparr>"

text \<open>
  Twelve writes that bring 12 MiB, none of more than 1 MiB and one byte: four of 1 MiB,
  one of a byte less and one of a byte more, twice.
\<close>

definition writes_one_byte_over :: "byte list list" where
  "writes_one_byte_over =
     [replicate 1048576 0, replicate 1048576 0, replicate 1048576 0, replicate 1048576 0,
      replicate 1048575 0, replicate 1048577 0,
      replicate 1048576 0, replicate 1048576 0, replicate 1048576 0, replicate 1048576 0,
      replicate 1048575 0, replicate 1048577 0]"

section \<open>A whole export, and what is observed of it\<close>

text \<open>
  The caller of the examples and tests: a writer is created for a sink and a
  configuration, the file is started (with the headers given, if any), the rows are
  written one after the other, and the file is finished. The first step that fails or
  panics ends the export.
\<close>

definition export ::
  "stdlib \<Rightarrow> Sink \<Rightarrow> Config \<Rightarrow> cell list list \<Rightarrow> cell list list \<Rightarrow> Stats result \<times> Writer" where
  "export L snk cfg headers rows =
     (case StartFile L (NewWriter snk [Some cfg]) headers of
        (Fail err, w1) \<Rightarrow> (Fail err, w1)
      | (Panic p, w1) \<Rightarrow> (Panic p, w1)
      | (Ok u, w1) \<Rightarrow>
          (case WriteRows L w1 rows of
             (Fail err, w2) \<Rightarrow> (Fail err, w2)
           | (Panic p, w2) \<Rightarrow> (Panic p, w2)
           | (Ok u, w2) \<Rightarrow> FinishFile w2))"

text \<open>
  The archive of a writer is the list of the entries of its zip writer. A worksheet
  entry is an entry under \<open>xl/worksheets/sheet\<close>; the rows of an entry are the
  pieces of its data that open a row element.
\<close>

definition archive :: "Writer \<Rightarrow> zip_entry list" where
  "archive w = (case zipWriter w of None \<Rightarrow> [] | Some z \<Rightarrow> dir z)"

definition is_worksheet :: "zip_entry \<Rightarrow> bool" where
  "is_worksheet e \<longleftrightarrow> take 19 (ename e) = ''xl/worksheets/sheet''"

definition worksheet_entries :: "Writer \<Rightarrow> zip_entry list" where
  "worksheet_entries w = filter is_worksheet (archive w)"

definition is_row_chunk :: "string \<Rightarrow> bool" where
  "is_row_chunk c \<longleftrightarrow> take 5 c = ''<row ''"

definition entry_rows :: "zip_entry \<Rightarrow> nat" where
  "entry_rows e = length (filter is_row_chunk (chunks e))"

text \<open>
  The rows that reach the worksheets: the header row, when the first of the headers
  given is there and not empty, then the data rows.
\<close>

definition header_rows :: "cell list list \<Rightarrow> cell list list" where
  "header_rows headers = (if length headers > 0 \<and> length (hd headers) > 0 then [hd headers] else [])"

text \<open>
  Where the rows go, told on lists: \<open>place\<close> puts a row into the last of a list of
  groups, or into a new group when the last one holds the ceiling or more;
  \<open>distribute\<close> places the rows in order, from one empty group. \<open>counts c n\<close> are the
  sizes of \<open>n\<close> rows cut into groups of \<open>c\<close>: full groups and a last group of 1 to
  \<open>c\<close> rows (one empty group for no rows); \<open>ceil_div n c\<close> is \<open>n / c\<close> rounded up.
\<close>

definition place :: "int \<Rightarrow> cell list list list \<Rightarrow> cell list \<Rightarrow> cell list list list" where
  "place c gs r =
     (if int (length (last gs)) \<ge> c then gs @ [[r]] else butlast gs @ [last gs @ [r]])"

definition distribute :: "int \<Rightarrow> cell list list \<Rightarrow> cell list list list" where
  "distribute c rows = foldl (place c) [[]] rows"

definition counts :: "nat \<Rightarrow> nat \<Rightarrow> nat list" where
  "counts c n =
     (if n = 0 then [0] else replicate ((n - 1) div c) c @ [n - ((n - 1) div c) * c])"

definition ceil_div :: "nat \<Rightarrow> nat \<Rightarrow> nat" where
  "ceil_div n c = (n + c - 1) div c"

text \<open>
  The states of a writer whose operations have all succeeded, as functions of the groups
  of rows written. A sheet is its rows and its closed flag. The entry of sheet \<open>i\<close>
  (from 0) holds the worksheet header, one piece per row, numbered from 0 within the
  sheet, and the footer once the sheet is closed; the archive starts with the two
  static entries, so the handle of sheet \<open>i\<close> is \<open>i + 2\<close>. \<open>writing\<close> is the writer
  between \<open>StartFile\<close> and the end of \<open>FinishFile\<close>; \<open>finished_writer\<close> is the
  writer after \<open>FinishFile\<close>, with the three manifests behind the sheets and the archive
  closed. The schedule left and the sink are what the archive layer made of them.
\<close>

definition sheet_path :: "nat \<Rightarrow> string" where
  "sheet_path i = sheetName_of (int i + 1)"

definition row_chunks :: "(string \<Rightarrow> string) \<Rightarrow> cell list list \<Rightarrow> string list" where
  "row_chunks esc rows = map (\<lambda>j. generateRow esc (int j) (rows ! j) @ ''\<newline>'') [0..<length rows]"

definition sheet_entry :: "(string \<Rightarrow> string) \<Rightarrow> nat \<Rightarrow> cell list list \<Rightarrow> bool \<Rightarrow> zip_entry" where
  "sheet_entry esc i rows fin =
     \<lparr>ename = sheet_path i,
      chunks = (worksheetHeader @ ''\<newline>'') # row_chunks esc rows @ (if fin then [worksheetFooter] else [])\<rparr>"

definition static_entries :: "zip_entry list" where
  "static_entries =
     [\<lparr>ename = ''_rels/.rels'', chunks = [relsXML]\<rparr>,
      \<lparr>ename = ''xl/styles.xml'', chunks = [stylesXML]\<rparr>]"

definition sheets_dir :: "(string \<Rightarrow> string) \<Rightarrow> (cell list list \<times> bool) list \<Rightarrow> zip_entry list" where
  "sheets_dir esc ss = map (\<lambda>i. sheet_entry esc i (fst (ss ! i)) (snd (ss ! i))) [0..<length ss]"

definition sheets_writers :: "bool \<Rightarrow> (cell list list \<times> bool) list \<Rightarrow> sheetWriter list" where
  "sheets_writers hdone ss =
     map (\<lambda>i. \<lparr>writer = i + 2, rowCount = int (length (fst (ss ! i))), sheetIndex = int i,
                headersDone = (hdone \<and> i = 0), closed = snd (ss ! i)\<rparr>)
         [0..<length ss]"

definition writing ::
  "(string \<Rightarrow> string) \<Rightarrow> Config \<Rightarrow> bool \<Rightarrow> (cell list list \<times> bool) list \<Rightarrow> bool \<Rightarrow> int \<Rightarrow>
   byte list list \<Rightarrow> Sink \<Rightarrow> Writer" where
  "writing esc cfg fin ss hdone t fl snk =
     \<lparr>sink = snk, config = cfg,
      zipWriter = Some \<lparr>dir = static_entries @ sheets_dir esc ss, zclosed = False, flushes = fl\<rparr>,
      started = True, finished = fin, currentSheet = 0, currentSheetRows = 0,
      currentSheetIndex = (if ss = [] then 0 else int (length ss) - 1),
      sheetWriters = sheets_writers hdone ss, totalRows = t, bytesWritten = 0\<rparr>"

definition close_last :: "(cell list list \<times> bool) list \<Rightarrow> (cell list list \<times> bool) list" where
  "close_last ss = (if ss = [] then [] else butlast ss @ [(fst (last ss), True)])"

definition sheets :: "cell list list list \<Rightarrow> (cell list list \<times> bool) list" where
  "sheets gs = map (\<lambda>g. (g, True)) (butlast gs) @ [(last gs, False)]"

definition all_closed :: "cell list list list \<Rightarrow> (cell list list \<times> bool) list" where
  "all_closed gs = map (\<lambda>g. (g, True)) gs"

definition manifest_entries :: "Config \<Rightarrow> nat \<Rightarrow> zip_entry list" where
  "manifest_entries cfg n =
     [\<lparr>ename = ''xl/workbook.xml'', chunks = [generateWorkbookXML (int n) (SheetNamePrefix cfg)]\<rparr>,
      \<lparr>ename = ''xl/_rels/workbook.xml.rels'', chunks = [generateWorkbookRelsXML (int n)]\<rparr>,
      \<lparr>ename = ''[Content_Types].xml'', chunks = [generateContentTypesXML (int n)]\<rparr>]"

definition finished_writer ::
  "(string \<Rightarrow> string) \<Rightarrow> Config \<Rightarrow> cell list list list \<Rightarrow> bool \<Rightarrow> int \<Rightarrow> byte list list \<Rightarrow> Sink \<Rightarrow> Writer" where
  "finished_writer esc cfg gs hdone t fl snk =
     \<lparr>sink = snk, config = cfg,
      zipWriter = Some \<lparr>dir = static_entries @ sheets_dir esc (all_closed gs) @ manifest_entries cfg (length gs),
                        zclosed = True, flushes = fl\<rparr>,
      started = True, finished = True, currentSheet = 0, currentSheetRows = 0,
      currentSheetIndex = int (length gs) - 1,
      sheetWriters = sheets_writers hdone (all_closed gs), totalRows = t, bytesWritten = 0\<rparr>"

text \<open>Two states of a writer with the same lifecycle flags.\<close>

definition same_flags :: "Writer \<Rightarrow> Writer \<Rightarrow> bool" where
  "same_flags w w' \<longleftrightarrow> started w' = started w \<and> finished w' = finished w"

text \<open>
  A sink on which no write and no close fails: a local file that is open and whose
  system accepts every write and the close. \<open>level_ok\<close>: the compression level is one
  the compressor takes.
\<close>

definition healthy_file :: "Sink \<Rightarrow> bool" where
  "healthy_file s \<longleftrightarrow>
     (case s of
        LocalFile fs \<Rightarrow>
          (case file0 fs of
             Some f \<Rightarrow> \<not> fclosed f \<and> (\<forall>held p. onWrite f held p = None)
                        \<and> (\<forall>held. onFileClose f held = None)
           | None \<Rightarrow> False)
      | S3 s3 \<Rightarrow> False)"

definition level_ok :: "Config \<Rightarrow> bool" where
  "level_ok cfg \<longleftrightarrow> - 2 \<le> CompressionLevel cfg \<and> CompressionLevel cfg \<le> 9"

text \<open>
  Fixtures in the manner of writer\_test.go: an empty file that accepts everything, the
  sink on it, the configuration with 10 rows per sheet, and a standard library whose
  archive hands four bytes to the sink on its first operation. The escaping fixture
  replaces the five markup characters as \<open>xml.EscapeText\<close> does and leaves every other
  byte as it is.
\<close>

definition test_file :: os_File where
  "test_file =
     \<lparr>written = [], fclosed = False, onWrite = (\<lambda>held p. None), onFileClose = (\<lambda>held. None)\<rparr>"

definition test_sink :: Sink where
  "test_sink = LocalFile \<lparr>file0 = Some test_file, path = ''test_output.xlsx''\<rparr>"

definition config_10 :: Config where
  "config_10 = DefaultConfig\<lparr>MaxRowsPerSheet := 10\<rparr>"

definition escape_char :: "char \<Rightarrow> string" where
  \<open>escape_char c =
     (if c = CHR ''"'' then ''&#34;''
      else if c = CHR 0x27 then ''&#39;''
      else if c = CHR ''&'' then ''&amp;''
      else if c = CHR ''<'' then ''&lt;''
      else if c = CHR ''>'' then ''&gt;''
      else [c])\<close>

definition test_lib :: stdlib where
  "test_lib =
     \<lparr>EscapeText = (\<lambda>s. concat (map escape_char s)), deflate_schedule = [[80, 75, 3, 4]]\<rparr>"

text \<open>The header and the rows of \<open>TestMultiSheet\<close>: an id and a value per row.\<close>

definition header_ID_Value :: "cell list list" where
  "header_ID_Value = [[VString ''ID'', VString ''Value'']]"

definition rows_of :: "nat \<Rightarrow> cell list list" where
  "rows_of n = map (\<lambda>i. [VInt (int i + 1), VString ''Value'']) [0..<n]"

section \<open>An export to a store whose part uploads fail\<close>

text \<open>
  What the object store has seen through a sink: the calls of the upload, in order. A
  local file has no such record.
\<close>

fun sink_history :: "Sink \<Rightarrow> s3_event list" where
  "sink_history (S3 s) = history (client s)"
| "sink_history (LocalFile fs) = []"

text \<open>
  The writer of a started export, with the default configuration and no header, to the
  sink of the test whose part uploads fail with a network error.
\<close>

definition writer_on_failing_s3 :: Writer where
  "writer_on_failing_s3 = snd (StartFile test_lib (NewWriter (S3 sink_failing) []) [])"

section \<open>The row encoder: totality and cell addresses\<close>

lemma generateCell_render: "generateCell esc ref v = render esc ref (classify v)"
  by (cases v) (simp_all add: escapeXML_def)

lemma generateRow_cells_concat:
  "generateRow_cells esc i c vs =
     concat (map (\<lambda>k. render esc (cellReference i (c + int k)) (classify (vs ! k)))
                 [0..<length vs])"
proof (induction vs arbitrary: c)
  case Nil
  then show ?case by simp
next
  case (Cons v vs)
  have "map (\<lambda>k. render esc (cellReference i (c + int k)) (classify ((v # vs) ! k)))
            [0..<length (v # vs)]
      = render esc (cellReference i c) (classify v)
        # map (\<lambda>k. render esc (cellReference i (c + 1 + int k)) (classify (vs ! k)))
              [0..<length vs]"
    by (simp add: upt_conv_Cons map_Suc_upt [symmetric] add.assoc del: upt_Suc)
  then show ?case
    using Cons.IH [of "c + 1"] by (simp add: generateCell_render)
qed

text \<open>
  C7. The encoder is a total function into text: \<open>generateRow\<close> has no error result,
  and the row it returns is the row element around one cell element per value, in
  order, each at the reference of its position. The element of a cell is the rendering
  of exactly one of the five encodings, the one \<open>classify\<close> assigns to the value: inline
  text, integer, floating point, boolean (\<open>1\<close> or \<open>0\<close>), or the empty cell that carries
  its address only. A value of any other type is encoded as the inline text of its
  rendering.
\<close>

theorem generateRow_total:
  \<open>generateRow esc rowIndex values =
      ''<row r="'' @ fmt_d (int64 (rowIndex + 1)) @ ''">'' @
      concat (map (\<lambda>k. render esc (cellReference rowIndex (int k)) (classify (values ! k)))
                  [0..<length values]) @
      ''</row>''
    \<and> generateCell esc ref v = render esc ref (classify v)
    \<and> generateCell esc ref (VBool b) =
        ''<c r="'' @ ref @ ''" t="b"><v>'' @ (if b then ''1'' else ''0'') @ ''</v></c>''
    \<and> generateCell esc ref VNil = ''<c r="'' @ ref @ ''"/>''
    \<and> generateCell esc ref (VOther text) = render esc ref (InlineText text)\<close>
  using generateRow_cells_concat [of esc rowIndex 0 "values"]
  by (simp add: generateRow_def generateCell_render)

theorem generateRow_total_witness:
  \<open>generateRow (\<lambda>s. s) 0 [VString ''a'', VInt 5, VFloat ''2.5'', VBool True, VNil, VOther ''{1 2}''] =
     ''<row r="1"><c r="A1" t="inlineStr"><is><t>a</t></is></c><c r="B1"><v>5</v></c><c r="C1"><v>2.5</v></c><c r="D1" t="b"><v>1</v></c><c r="E1"/><c r="F1" t="inlineStr"><is><t>{1 2}</t></is></c></row>''\<close>
proof -
  have \<open>generateRow (\<lambda>s. s) 0 [VString ''a'', VInt 5, VFloat ''2.5'', VBool True, VNil, VOther ''{1 2}''] =
      ''<row r="'' @ fmt_d (int64 (0 + 1)) @ ''">'' @
      concat (map (\<lambda>k. render (\<lambda>s. s) (cellReference 0 (int k))
                          (classify ([VString ''a'', VInt 5, VFloat ''2.5'', VBool True, VNil, VOther ''{1 2}''] ! k)))
                  [0..<length [VString ''a'', VInt 5, VFloat ''2.5'', VBool True, VNil, VOther ''{1 2}'']]) @
      ''</row>''\<close>
    using generateRow_total [of "\<lambda>s. s" 0 "[VString ''a'', VInt 5, VFloat ''2.5'', VBool True, VNil, VOther ''{1 2}'']"]
    by blast
  also have \<open>\<dots> = ''<row r="1"><c r="A1" t="inlineStr"><is><t>a</t></is></c><c r="B1"><v>5</v></c><c r="C1"><v>2.5</v></c><c r="D1" t="b"><v>1</v></c><c r="E1"/><c r="F1" t="inlineStr"><is><t>{1 2}</t></is></c></row>''\<close>
    by code_simp
  finally show ?thesis .
qed

section \<open>Indices within the 64 bits\<close>

lemma int64_id: "- (2 ^ 63) \<le> x \<Longrightarrow> x < 2 ^ 63 \<Longrightarrow> int64 x = x"
  by (simp add: int64_def)

lemma int64_greatest: "int64 (2 ^ 63 - 1 + 1) = - (2 ^ 63)"
  by (simp add: int64_def)

section \<open>Column names\<close>

lemma letters_value_shift:
  "letters_value a name = a * 26 ^ length name + letters_value 0 name"
proof (induction name arbitrary: a)
  case Nil
  then show ?case by simp
next
  case (Cons x xs)
  define k :: int where "k = of_char x - 64"
  define P :: int where "P = 26 ^ length xs"
  define L where "L = letters_value 0 xs"
  have 1: "letters_value (a * 26 + k) xs = (a * 26 + k) * P + L"
    unfolding P_def L_def by (rule Cons.IH)
  have 2: "letters_value k xs = k * P + L"
    unfolding P_def L_def by (rule Cons.IH)
  have "letters_value a (x # xs) = letters_value (a * 26 + k) xs"
    by (simp add: k_def)
  moreover have "letters_value 0 (x # xs) = letters_value k xs"
    by (simp add: k_def)
  moreover have "(26::int) ^ length (x # xs) = 26 * P"
    by (simp add: P_def)
  ultimately show ?case
    unfolding 1 2 by (simp only: distrib_right mult.assoc add.assoc)
qed

lemma of_char_letter:
  "0 \<le> k \<Longrightarrow> k < 26 \<Longrightarrow> (of_char (char_of (65 + k :: int)) :: int) = 65 + k"
  by (simp add: take_bit_eq_mod)

lemma loop_number:
  "0 \<le> col \<Longrightarrow> letters_value 0 (columnName_loop col name)
     = col * 26 ^ length name + letters_value 0 name"
proof (induction col name rule: columnName_loop.induct)
  case (1 col name)
  show ?case
  proof (cases "col > 0")
    case True
    define q where "q = (col - 1) div 26"
    define r where "r = (col - 1) mod 26"
    define c :: char where "c = char_of (65 + r)"
    define P :: int where "P = 26 ^ length name"
    define L where "L = letters_value 0 name"
    have r: "0 \<le> r" "r < 26" by (simp_all add: r_def)
    have oc: "(of_char c :: int) - 64 = 1 + r"
      unfolding c_def using of_char_letter [OF r] by simp
    have qr: "q * 26 + r + 1 = col" by (simp add: q_def r_def)
    have q0: "0 \<le> q" using True by (simp add: q_def)
    have ih: "letters_value 0 (columnName_loop q (c # name))
        = q * 26 ^ length (c # name) + letters_value 0 (c # name)"
      using "1.IH" [OF True] q0 by (simp only: q_def r_def c_def)
    have hd1: "letters_value 0 (c # name) = letters_value (1 + r) name"
      using oc by simp
    have hd2: "letters_value (1 + r) name = (1 + r) * P + L"
      unfolding P_def L_def by (rule letters_value_shift)
    have pw: "(26::int) ^ length (c # name) = 26 * P" by (simp add: P_def)
    have "letters_value 0 (columnName_loop q (c # name)) = (q * 26 + r + 1) * P + L"
      unfolding ih hd1 hd2 pw
      by (simp only: distrib_right mult.assoc add.assoc add.commute [of 1 r])
    then have "letters_value 0 (columnName_loop q (c # name)) = col * P + L"
      unfolding qr .
    moreover have "columnName_loop col name = columnName_loop q (c # name)"
      using True by (simp add: columnName_loop.simps [of col name] q_def r_def c_def)
    ultimately show ?thesis by (simp add: P_def L_def)
  next
    case False
    with "1.prems" have "col = 0" by simp
    then show ?thesis by (simp add: columnName_loop.simps [of 0 name])
  qed
qed

lemma loop_letters:
  "set (columnName_loop col name) \<subseteq> set name \<union> char_of ` {65 .. (90::int)}"
proof (induction col name rule: columnName_loop.induct)
  case (1 col name)
  show ?case
  proof (cases "col > 0")
    case True
    have "char_of (65 + (col - 1) mod 26) \<in> char_of ` {65 .. (90::int)}"
      by (rule imageI) simp
    then show ?thesis using "1.IH" [OF True] True
      by (auto simp add: columnName_loop.simps [of col name])
  next
    case False
    then show ?thesis by (simp add: columnName_loop.simps [of col name])
  qed
qed

section \<open>The chunked-upload sink: parts and manifest\<close>

lemma acked_append: "acked (es @ fs) = acked es @ acked fs"
  by (induction es rule: acked.induct) simp_all

lemma manifests_append: "manifests (es @ fs) = manifests es @ manifests fs"
  by (induction es rule: manifests.induct) simp_all

lemma dense_snoc:
  "dense parts \<Longrightarrow> dense (parts @ [\<lparr>ETag = e, PartNumber = of_nat (Suc (length parts))\<rparr>])"
  by (simp add: dense_def)

lemma uploadPart_empty: "buffer s = [] \<Longrightarrow> uploadPart s = (None, s)"
  by (simp add: uploadPart_def)

lemma uploadPart_fail:
  "buffer s \<noteq> [] \<Longrightarrow>
   onUploadPart (client s) (history (client s)) (partNumber s) (buffer s) = Inl err \<Longrightarrow>
   uploadPart s =
     (Some err,
      s\<lparr>client := (client s)\<lparr>history := history (client s) @
                                 [UploadPart (partNumber s) (buffer s) (Inl err)]\<rparr>\<rparr>)"
  by (simp add: uploadPart_def client_UploadPart_def Let_def)

lemma uploadPart_ok:
  "buffer s \<noteq> [] \<Longrightarrow>
   onUploadPart (client s) (history (client s)) (partNumber s) (buffer s) = Inr etag \<Longrightarrow>
   uploadPart s =
     (None,
      s\<lparr>client := (client s)\<lparr>history := history (client s) @
                                 [UploadPart (partNumber s) (buffer s) (Inr etag)]\<rparr>,
        completedParts := completedParts s @ [\<lparr>ETag = etag, PartNumber = partNumber s\<rparr>],
        buffer := [],
        partNumber := partNumber s + 1\<rparr>)"
  by (simp add: uploadPart_def client_UploadPart_def Let_def)

lemma part_inv_uploadPart:
  assumes "part_inv n0 s"
  shows "part_inv n0 (snd (uploadPart s))"
proof (cases "buffer s = []")
  case True
  then show ?thesis using assms by (simp add: uploadPart_empty)
next
  case False
  show ?thesis
  proof (cases "onUploadPart (client s) (history (client s)) (partNumber s) (buffer s)")
    case (Inl err)
    show ?thesis
      unfolding uploadPart_fail [OF False Inl]
      using assms by (simp add: part_inv_def acked_append manifests_append)
  next
    case (Inr etag)
    from assms have pn: "partNumber s = of_nat (Suc (length (completedParts s)))"
      and d: "dense (completedParts s)"
      by (simp_all add: part_inv_def)
    have "dense (completedParts s @ [\<lparr>ETag = etag, PartNumber = partNumber s\<rparr>])"
      unfolding pn by (rule dense_snoc [OF d])
    then show ?thesis
      unfolding uploadPart_ok [OF False Inr]
      using assms by (simp add: part_inv_def acked_append manifests_append)
  qed
qed

lemma S3Sink_Write_cases:
  "snd (S3Sink_Write s p) = s\<lparr>buffer := buffer s @ p, totalBytes := totalBytes s + int (length p)\<rparr>
   \<or> snd (S3Sink_Write s p) =
       snd (uploadPart (s\<lparr>buffer := buffer s @ p, totalBytes := totalBytes s + int (length p)\<rparr>))"
  by (simp add: S3Sink_Write_def Let_def split: prod.splits option.splits)

lemma part_inv_Write:
  assumes "part_inv n0 s"
  shows "part_inv n0 (snd (S3Sink_Write s p))"
proof -
  let ?s1 = "s\<lparr>buffer := buffer s @ p, totalBytes := totalBytes s + int (length p)\<rparr>"
  have 1: "part_inv n0 ?s1" using assms by (simp add: part_inv_def)
  from S3Sink_Write_cases [of s p] show ?thesis
    using 1 part_inv_uploadPart [OF 1] by auto
qed

lemma S3Sink_Writes_snd:
  "snd (S3Sink_Writes s (p # ps)) = snd (S3Sink_Writes (snd (S3Sink_Write s p)) ps)"
  by (simp split: prod.splits)

lemma part_inv_Writes: "part_inv n0 s \<Longrightarrow> part_inv n0 (snd (S3Sink_Writes s ps))"
proof (induction ps arbitrary: s)
  case Nil
  then show ?case by simp
next
  case (Cons p ps)
  show ?case
    unfolding S3Sink_Writes_snd
    by (rule Cons.IH) (rule part_inv_Write [OF Cons.prems])
qed

lemma part_inv_New:
  assumes "NewS3Sink c b k opts = Inr s"
  shows "part_inv (Suc (length (history c))) s"
proof -
  define o1 where "o1 = (case opts of Some given # _ \<Rightarrow> given | _ \<Rightarrow> DefaultS3Options)"
  define s0 where "s0 = \<lparr>client = c, bucket = b, key = k, options = o1, uploadID = None,
                    buffer = [], partNumber = 1, completedParts = [], totalBytes = 0\<rparr>"
  from assms obtain uid where
    "onCreate c (history c) b k o1 = Inr uid"
    and s: "s = s0\<lparr>client := c\<lparr>history := history c @ [CreateMultipartUpload b k o1 (Inr uid)]\<rparr>,
                   uploadID := uid\<rparr>"
    by (auto simp add: NewS3Sink_def initiateMultipartUpload_def client_CreateMultipartUpload_def
        Let_def o1_def s0_def split: if_splits sum.splits)
  show ?thesis unfolding s by (simp add: part_inv_def s0_def dense_def)
qed

lemma closed_inv_complete:
  assumes "part_inv n0 s"
  shows "closed_inv n0 (snd (completeMultipartUpload s))"
  using assms
  by (simp add: completeMultipartUpload_def client_CompleteMultipartUpload_def Let_def
      part_inv_def closed_inv_def acked_append manifests_append)

lemma closed_inv_abort:
  assumes "closed_inv n0 s" "n0 \<le> length (history (client s))"
  shows "closed_inv n0 (snd (abortMultipartUpload s))"
  using assms
  by (simp add: abortMultipartUpload_def client_AbortMultipartUpload_def Let_def
      closed_inv_def acked_append manifests_append)

lemma complete_history_length:
  "length (history (client s)) \<le> length (history (client (snd (completeMultipartUpload s))))"
  by (simp add: completeMultipartUpload_def client_CompleteMultipartUpload_def Let_def)

lemma part_inv_closed_inv: "part_inv n0 s \<Longrightarrow> closed_inv n0 s"
  by (simp add: part_inv_def closed_inv_def)

lemma S3Sink_Close_alt:
  "S3Sink_Close s =
     (case uploadPart s of
        (Some err, s1) \<Rightarrow> (Some (Wrap ''failed to upload final part'' err), s1)
      | (None, s1) \<Rightarrow>
          (case completeMultipartUpload s1 of
             (Some err, s2) \<Rightarrow>
               (Some (Wrap ''failed to complete multipart upload'' err),
                snd (abortMultipartUpload s2))
           | (None, s2) \<Rightarrow> (None, s2)))"
  by (cases "buffer s = []") (simp_all add: S3Sink_Close_def uploadPart_empty)

lemma S3Sink_Close_cases:
  "snd (S3Sink_Close s) = snd (uploadPart s)
   \<or> snd (S3Sink_Close s) = snd (completeMultipartUpload (snd (uploadPart s)))
   \<or> snd (S3Sink_Close s) =
       snd (abortMultipartUpload (snd (completeMultipartUpload (snd (uploadPart s)))))"
  by (simp add: S3Sink_Close_alt split: option.splits prod.splits)

lemma closed_inv_Close:
  assumes "part_inv n0 s"
  shows "closed_inv n0 (snd (S3Sink_Close s))"
proof -
  have 1: "part_inv n0 (snd (uploadPart s))" by (rule part_inv_uploadPart [OF assms])
  have 2: "closed_inv n0 (snd (completeMultipartUpload (snd (uploadPart s))))"
    by (rule closed_inv_complete [OF 1])
  have "n0 \<le> length (history (client (snd (uploadPart s))))"
    using 1 by (simp add: part_inv_def)
  then have "n0 \<le> length (history (client (snd (completeMultipartUpload (snd (uploadPart s))))))"
    using complete_history_length [of "snd (uploadPart s)"] by simp
  then have 3: "closed_inv n0
      (snd (abortMultipartUpload (snd (completeMultipartUpload (snd (uploadPart s))))))"
    by (rule closed_inv_abort [OF 2])
  from S3Sink_Close_cases [of s] show ?thesis
    using part_inv_closed_inv [OF 1] 2 3 by auto
qed

text \<open>A close that returns no error has submitted exactly one manifest.\<close>

lemma Close_ok_manifest:
  assumes inv: "part_inv n0 s" and ok: "fst (S3Sink_Close s) = None"
  shows "manifests (drop n0 (history (client (snd (S3Sink_Close s)))))
           = [completedParts (snd (S3Sink_Close s))]"
proof -
  define s1 where "s1 = snd (uploadPart s)"
  have 1: "part_inv n0 s1" unfolding s1_def by (rule part_inv_uploadPart [OF inv])
  from ok have "S3Sink_Close s = (None, snd (completeMultipartUpload s1))"
    by (auto simp add: S3Sink_Close_alt s1_def split: prod.splits option.splits)
  then show ?thesis
    using 1
    by (simp add: completeMultipartUpload_def client_CompleteMultipartUpload_def Let_def
        part_inv_def manifests_append)
qed

lemma sint_part:
  assumes "n < 2 ^ 31"
  shows "sint (of_nat n :: 32 word) = int n"
proof -
  have "(of_nat n :: 32 word) = word_of_int (int n)" by simp
  then have "sint (of_nat n :: 32 word) = signed_take_bit (LENGTH(32) - 1) (int n)"
    by (simp only: sint_sbintrunc')
  also have "\<dots> = signed_take_bit 31 (int n)" by simp
  also have "\<dots> = int n"
  proof (rule signed_take_bit_int_eq_self)
    show "- (2 ^ 31) \<le> int n" by simp
    from assms have "int n < int (2 ^ 31)" by (simp only: of_nat_less_iff)
    then show "int n < 2 ^ 31" by simp
  qed
  finally show ?thesis .
qed

lemma dense_sint:
  assumes "dense parts" "length parts < 2 ^ 31" "i < length parts"
  shows "sint (PartNumber (parts ! i)) = int i + 1"
proof -
  from assms(1) have "map PartNumber parts ! i = map (\<lambda>i. of_nat (Suc i)) [0..<length parts] ! i"
    by (simp only: dense_def)
  with assms(3) have pn: "PartNumber (parts ! i) = of_nat (Suc i)" by simp
  from assms(2,3) have "Suc i < 2 ^ 31" by simp
  then have "sint (of_nat (Suc i) :: 32 word) = int (Suc i)" by (rule sint_part)
  with pn show ?thesis by simp
qed

text \<open>
  C9. For a sink that \<open>NewS3Sink\<close> created, any sequence of writes (whatever the
  service answers, failures included) and the close after it: among the events since the
  creation, the acknowledged parts carry the numbers 1, 2, 3, ... in the order of their
  acknowledgments (an \<open>int32\<close> counter: below \<open>2^31\<close> parts); the sink's list of
  completed parts is that list of acknowledged parts, numbers and tags, in that order;
  no manifest is submitted but that list, and a close that returns no error has
  submitted it exactly once.
\<close>

theorem part_numbers_dense_manifest_ordered:
  assumes new: "NewS3Sink c b k opts = Inr s0"
    and fin: "s2 = snd (S3Sink_Close (snd (S3Sink_Writes s0 ps)))"
    and evs: "evs = drop (Suc (length (history c))) (history (client s2))"
    and bound: "length (acked evs) < 2 ^ 31"
  shows "(\<forall>i < length (acked evs). sint (PartNumber (acked evs ! i)) = int i + 1)
       \<and> completedParts s2 = acked evs
       \<and> (manifests evs = [] \<or> manifests evs = [acked evs])
       \<and> (fst (S3Sink_Close (snd (S3Sink_Writes s0 ps))) = None \<longrightarrow> manifests evs = [acked evs])"
proof -
  have inv: "part_inv (Suc (length (history c))) (snd (S3Sink_Writes s0 ps))"
    by (rule part_inv_Writes [OF part_inv_New [OF new]])
  then have "closed_inv (Suc (length (history c))) s2"
    unfolding fin by (rule closed_inv_Close)
  then have a: "acked evs = completedParts s2" and d: "dense (acked evs)"
    and m: "manifests evs = [] \<or> manifests evs = [acked evs]"
    by (simp_all add: closed_inv_def evs)
  from d bound have n: "\<forall>i < length (acked evs). sint (PartNumber (acked evs ! i)) = int i + 1"
    by (simp add: dense_sint)
  have "fst (S3Sink_Close (snd (S3Sink_Writes s0 ps))) = None \<longrightarrow> manifests evs = [acked evs]"
    using Close_ok_manifest [OF inv] a by (simp add: evs fin)
  with a m n show ?thesis by simp
qed

lemmas s3_defs = S3Sink_Write_def uploadPart_def client_UploadPart_def Let_def
     S3Sink_Close_def completeMultipartUpload_def client_CompleteMultipartUpload_def
     abortMultipartUpload_def client_AbortMultipartUpload_def
     PartCount_def TotalBytes_def

lemma sink_5MiB_new:
  "NewS3Sink mockS3Client ''test-bucket'' ''test-key'' [Some options_5MiB] = Inr sink_5MiB"
  by (simp add: NewS3Sink_def initiateMultipartUpload_def client_CreateMultipartUpload_def
      Let_def mockS3Client_def options_5MiB_def sink_5MiB_def)

lemma sink_failing_new:
  "NewS3Sink failingUploadClient ''test-bucket'' ''test-key'' [] = Inr sink_failing"
  by (simp add: NewS3Sink_def initiateMultipartUpload_def client_CreateMultipartUpload_def
      Let_def mockS3Client_def failingUploadClient_def DefaultS3Options_def sink_failing_def)

text \<open>
  C9, at the mock service with 5 MiB parts: writes of 5 MiB, of 6000000 bytes and of one
  byte, then the close, give the parts 1, 2, 3 and one manifest listing them in order.
\<close>

theorem part_numbers_dense_manifest_ordered_witness:
  "map (\<lambda>p. sint (PartNumber p))
       (acked (drop 1 (history (client (snd (S3Sink_Close (snd (S3Sink_Writes sink_5MiB
           [replicate 5242880 0, replicate 6000000 1, [7]]))))))))
     = [1, 2, 3]
   \<and> manifests (drop 1 (history (client (snd (S3Sink_Close (snd (S3Sink_Writes sink_5MiB
           [replicate 5242880 0, replicate 6000000 1, [7]])))))))
     = [[\<lparr>ETag = Some ''test-etag'', PartNumber = 1\<rparr>, \<lparr>ETag = Some ''test-etag'', PartNumber = 2\<rparr>,
         \<lparr>ETag = Some ''test-etag'', PartNumber = 3\<rparr>]]"
proof -
  define s2 where "s2 = snd (S3Sink_Close (snd (S3Sink_Writes sink_5MiB
           [replicate 5242880 0, replicate 6000000 1, [7]])))"
  define evs where "evs = drop (Suc (length (history mockS3Client))) (history (client s2))"
  have a: "acked evs = [\<lparr>ETag = Some ''test-etag'', PartNumber = 1\<rparr>, \<lparr>ETag = Some ''test-etag'', PartNumber = 2\<rparr>,
         \<lparr>ETag = Some ''test-etag'', PartNumber = 3\<rparr>]"
    by (simp add: evs_def s2_def s3_defs sink_5MiB_def mockS3Client_def options_5MiB_def)
  have ok: "fst (S3Sink_Close (snd (S3Sink_Writes sink_5MiB
           [replicate 5242880 0, replicate 6000000 1, [7]]))) = None"
    by (simp add: s3_defs sink_5MiB_def mockS3Client_def options_5MiB_def)
  have b: "length (acked evs) < 2 ^ 31" by (simp add: a)
  have h: "drop 1 (history (client s2)) = evs" by (simp add: evs_def mockS3Client_def)
  from part_numbers_dense_manifest_ordered [OF sink_5MiB_new s2_def evs_def b] ok
  have "(\<forall>i < length (acked evs). sint (PartNumber (acked evs ! i)) = int i + 1)"
    and m: "manifests evs = [acked evs]"
    by simp_all
  then have "sint (PartNumber (acked evs ! 0)) = 1" "sint (PartNumber (acked evs ! 1)) = 2"
     "sint (PartNumber (acked evs ! 2)) = 3"
    by (simp_all add: a)
  then have "map (\<lambda>p. sint (PartNumber p)) (acked evs) = [1, 2, 3]"
    by (simp add: a)
  with m show ?thesis unfolding s2_def [symmetric] h by (simp add: a)
qed

section \<open>The chunked-upload sink: 12 MiB through 5 MiB parts\<close>

lemma NewS3Sink_Inr:
  assumes "NewS3Sink c b k [Some opts] = Inr s"
  shows "\<exists>uid. s = \<lparr>client = c\<lparr>history := history c @ [CreateMultipartUpload b k opts (Inr uid)]\<rparr>,
                      bucket = b, key = k, options = opts, uploadID = uid,
                      buffer = [], partNumber = 1, completedParts = [], totalBytes = 0\<rparr>"
  using assms
  by (auto simp add: NewS3Sink_def initiateMultipartUpload_def client_CreateMultipartUpload_def
      Let_def split: if_splits sum.splits)

lemma list12:
  assumes "length ps = 12"
  obtains d1 d2 d3 d4 d5 d6 d7 d8 d9 d10 d11 d12
  where "ps = [d1, d2, d3, d4, d5, d6, d7, d8, d9, d10, d11, d12]"
proof -
  from assms have "length ps = Suc (Suc (Suc (Suc (Suc (Suc (Suc (Suc (Suc (Suc (Suc (Suc 0)))))))))))"
    by simp
  then obtain d1 d2 d3 d4 d5 d6 d7 d8 d9 d10 d11 d12
    where "ps = [d1, d2, d3, d4, d5, d6, d7, d8, d9, d10, d11, d12]"
    by (auto simp only: length_Suc_conv length_0_conv)
  then show ?thesis by (rule that)
qed

text \<open>
  The split of the test of the repository: twelve writes of exactly 1 MiB each, through
  a sink with 5 MiB parts, at a service that acknowledges every part and the completion.
  The parts are then of 5 MiB, 5 MiB and 2 MiB.
\<close>

lemma twelve_writes_of_one_MiB:
  assumes new: "NewS3Sink c b k [Some opts] = Inr s0"
    and psize: "PartSize opts = 5 * 1024 * 1024"
    and upl: "\<And>h pn body. onUploadPart c h pn body = Inr (tag h pn body)"
    and cmp: "\<And>h parts. onComplete c h parts = None"
    and n: "length ps = 12"
    and sz: "\<forall>p \<in> set ps. length p = 1024 * 1024"
    and s1: "s1 = snd (S3Sink_Writes s0 ps)"
    and s2: "s2 = snd (S3Sink_Close s1)"
    and evs: "evs = drop (Suc (length (history c))) (history (client s2))"
  shows "(\<forall>r \<in> set (fst (S3Sink_Writes s0 ps)). r = (1024 * 1024, None))
       \<and> PartCount s1 = 2
       \<and> fst (S3Sink_Close s1) = None
       \<and> PartCount s2 = 3
       \<and> map (\<lambda>p. sint (PartNumber p)) (completedParts s2) = [1, 2, 3]
       \<and> acked evs = completedParts s2
       \<and> map length (acked_bodies evs) = [5 * 1024 * 1024, 5 * 1024 * 1024, 2 * 1024 * 1024]
       \<and> sum_list (map length (acked_bodies evs)) = 12 * 1024 * 1024
       \<and> concat (acked_bodies evs) = concat ps
       \<and> TotalBytes s2 = 12 * 1024 * 1024"
proof -
  from NewS3Sink_Inr [OF new] obtain uid where
    s0: "s0 = \<lparr>client = c\<lparr>history := history c @ [CreateMultipartUpload b k opts (Inr uid)]\<rparr>,
                      bucket = b, key = k, options = opts, uploadID = uid,
                      buffer = [], partNumber = 1, completedParts = [], totalBytes = 0\<rparr>" ..
  from n obtain d1 d2 d3 d4 d5 d6 d7 d8 d9 d10 d11 d12
    where ps: "ps = [d1, d2, d3, d4, d5, d6, d7, d8, d9, d10, d11, d12]" by (rule list12)
  from sz have len: "length d1 = 1048576" "length d2 = 1048576" "length d3 = 1048576"
    "length d4 = 1048576" "length d5 = 1048576" "length d6 = 1048576" "length d7 = 1048576"
    "length d8 = 1048576" "length d9 = 1048576" "length d10 = 1048576" "length d11 = 1048576"
    "length d12 = 1048576"
    by (simp_all add: ps)
  have ne: "d1 \<noteq> []" "d6 \<noteq> []" "d11 \<noteq> []" using len by auto
  note facts = s3_defs len psize upl cmp ne
  have 1: "\<forall>r \<in> set (fst (S3Sink_Writes s0 ps)). r = (1024 * 1024, None)"
    unfolding s0 ps by (simp add: facts)
  have 2: "PartCount s1 = 2"
    unfolding s1 s0 ps by (simp add: facts)
  have 3: "fst (S3Sink_Close s1) = None"
    unfolding s1 s0 ps by (simp add: facts)
  have 4: "PartCount s2 = 3"
    unfolding s2 s1 s0 ps by (simp add: facts)
  have 5: "map (\<lambda>p. sint (PartNumber p)) (completedParts s2) = [1, 2, 3]"
    unfolding s2 s1 s0 ps by (simp add: facts)
  have 6: "acked evs = completedParts s2"
    unfolding evs s2 s1 s0 ps by (simp add: facts)
  have 7: "map length (acked_bodies evs) = [5 * 1024 * 1024, 5 * 1024 * 1024, 2 * 1024 * 1024]"
    unfolding evs s2 s1 s0 ps by (simp add: facts)
  have 8: "sum_list (map length (acked_bodies evs)) = 12 * 1024 * 1024"
    unfolding 7 by simp
  have 9: "concat (acked_bodies evs) = concat ps"
    unfolding evs s2 s1 s0 ps by (simp add: facts)
  have 10: "TotalBytes s2 = 12 * 1024 * 1024"
    unfolding s2 s1 s0 ps by (simp add: facts)
  from 1 2 3 4 5 6 7 8 9 10 show ?thesis by blast
qed

text \<open>The same for every split into writes of at most 1 MiB.\<close>

lemma acked_bodies_append: "acked_bodies (es @ fs) = acked_bodies es @ acked_bodies fs"
  by (induction es rule: acked_bodies.induct) simp_all

lemma length_acked_bodies: "length (acked_bodies es) = length (acked es)"
  by (induction es rule: acked_bodies.induct) simp_all

lemma filling_Write:
  assumes f: "filling n0 P M wr s" and P: "0 < P" and p: "int (length p) \<le> M"
  shows "fst (S3Sink_Write s p) = (int (length p), None)
       \<and> filling n0 P M (wr @ p) (snd (S3Sink_Write s p))"
proof -
  define s1 where "s1 = s\<lparr>buffer := buffer s @ p, totalBytes := totalBytes s + int (length p)\<rparr>"
  show ?thesis
  proof (cases "PartSize (options s) \<le> int (length (buffer s @ p))")
    case False
    then have w: "S3Sink_Write s p = ((int (length p), None), s1)"
      by (simp add: S3Sink_Write_def Let_def s1_def)
    have "filling n0 P M (wr @ p) s1"
      using f False by (auto simp add: filling_def s1_def)
    with w show ?thesis by simp
  next
    case True
    with f P have ne: "buffer s1 \<noteq> []" by (auto simp add: filling_def s1_def)
    from f have "\<exists>etag. onUploadPart (client s) (history (client s)) (partNumber s) (buffer s @ p)
        = Inr etag"
      by (simp add: filling_def)
    then obtain etag where
      e: "onUploadPart (client s1) (history (client s1)) (partNumber s1) (buffer s1) = Inr etag"
      by (auto simp add: s1_def)
    note u = uploadPart_ok [OF ne e]
    have w: "S3Sink_Write s p = ((int (length p), None), snd (uploadPart s1))"
      using True unfolding u by (simp add: S3Sink_Write_def Let_def s1_def [symmetric] u)
    have n0: "n0 \<le> length (history (client s))" using f by (simp add: filling_def)
    have len: "P \<le> int (length (buffer s @ p))" "int (length (buffer s @ p)) < P + M"
      using f True p by (auto simp add: filling_def)
    have "filling n0 P M (wr @ p) (snd (uploadPart s1))"
      unfolding u using f n0 len
      by (auto simp add: filling_def s1_def acked_bodies_append)
    with w show ?thesis by simp
  qed
qed

lemma filling_Writes:
  assumes "filling n0 P M wr s" and "0 < P" and "\<forall>p \<in> set ps. int (length p) \<le> M"
  shows "fst (S3Sink_Writes s ps) = map (\<lambda>p. (int (length p), None)) ps
       \<and> filling n0 P M (wr @ concat ps) (snd (S3Sink_Writes s ps))"
  using assms
proof (induction ps arbitrary: s wr)
  case Nil
  then show ?case by simp
next
  case (Cons p ps)
  from Cons.prems have p: "int (length p) \<le> M" and ps: "\<forall>p \<in> set ps. int (length p) \<le> M"
    by simp_all
  from filling_Write [OF Cons.prems(1,2) p]
  have w: "fst (S3Sink_Write s p) = (int (length p), None)"
    and f: "filling n0 P M (wr @ p) (snd (S3Sink_Write s p))"
    by simp_all
  from Cons.IH [OF f Cons.prems(2) ps] w show ?case
    by (simp add: split_beta)
qed

lemma filling_New:
  assumes new: "NewS3Sink c b k [Some opts] = Inr s0"
    and upl: "\<And>h pn body. onUploadPart c h pn body = Inr (tag h pn body)"
    and cmp: "\<And>h parts. onComplete c h parts = None"
  shows "filling (Suc (length (history c))) (PartSize opts) M [] s0"
proof -
  from NewS3Sink_Inr [OF new] obtain uid where
    s0: "s0 = \<lparr>client = c\<lparr>history := history c @ [CreateMultipartUpload b k opts (Inr uid)]\<rparr>,
                      bucket = b, key = k, options = opts, uploadID = uid,
                      buffer = [], partNumber = 1, completedParts = [], totalBytes = 0\<rparr>" ..
  from new have "5 * 1024 * 1024 \<le> PartSize opts"
    by (simp add: NewS3Sink_def Let_def split: if_splits)
  then show ?thesis
    unfolding s0 by (simp add: filling_def upl cmp)
qed

lemma bodies_bounds:
  assumes "\<forall>body \<in> set bs. P \<le> int (length body) \<and> int (length body) < P + M"
  shows "P * int (length bs) \<le> int (length (concat bs))
       \<and> int (length (concat bs)) \<le> (P + M - 1) * int (length bs)"
  using assms
proof (induction bs)
  case Nil
  then show ?case by simp
next
  case (Cons x bs)
  then have x: "P \<le> int (length x)" "int (length x) \<le> P + M - 1"
    and ih: "P * int (length bs) \<le> int (length (concat bs))"
      "int (length (concat bs)) \<le> (P + M - 1) * int (length bs)"
    by simp_all
  have 1: "P * int (length (x # bs)) = P + P * int (length bs)"
    by (simp add: distrib_left)
  have 2: "(P + M - 1) * int (length (x # bs)) = (P + M - 1) + (P + M - 1) * int (length bs)"
    by (simp add: distrib_left)
  have 3: "int (length (concat (x # bs))) = int (length x) + int (length (concat bs))"
    by simp
  from x ih show ?case unfolding 1 2 3 by linarith
qed

lemma list3:
  assumes "length xs = 3"
  shows "xs = [xs ! 0, xs ! 1, xs ! 2]"
proof -
  from assms have "length xs = Suc (Suc (Suc 0))" by simp
  then obtain a b c where "xs = [a, b, c]"
    by (auto simp only: length_Suc_conv length_0_conv)
  then show ?thesis by simp
qed

lemma list2:
  assumes "length xs = 2"
  shows "xs = [xs ! 0, xs ! 1]"
proof -
  from assms have "length xs = Suc (Suc 0)" by simp
  then obtain a b where "xs = [a, b]"
    by (auto simp only: length_Suc_conv length_0_conv)
  then show ?thesis by simp
qed

lemma length_concat_equal:
  "\<forall>p \<in> set ps. length p = m \<Longrightarrow> length (concat ps) = m * length ps"
  by (induction ps) simp_all

lemma two_parts:
  fixes L Bn :: int and k :: nat
  assumes lo: "5242880 * int k \<le> L" and hi: "L \<le> 6291455 * int k"
    and sum: "L + Bn = 12582912" and B0: "0 \<le> Bn" and Blt: "Bn < 5242880"
  shows "k = 2 \<and> 0 < Bn \<and> Bn \<le> 2097152"
proof -
  consider "k = 0" | "k = 1" | "k = 2" | "3 \<le> k" by linarith
  then show ?thesis
  proof cases
    case 1
    with hi sum Blt show ?thesis by simp
  next
    case 2
    with hi sum Blt show ?thesis by simp
  next
    case 3
    with lo hi sum show ?thesis by simp
  next
    case 4
    then have "3 \<le> int k" by simp
    with lo sum B0 show ?thesis by linarith
  qed
qed

text \<open>
  C3, as amended. The sink uploads its whole buffer as one part when a write brings the
  buffer to the part size or beyond; how many parts 12 MiB make depends on how the bytes
  arrive. Written in any sequence of writes of at most 1 MiB each (the test of the
  repository writes 1 MiB at a time) through a sink with 5 MiB parts, at a service that
  acknowledges every part and the completion: every write returns the length of its
  bytes and no error; 2 parts are completed before the close; the close returns no
  error and completes a 3rd part; the parts are numbered 1, 2, 3 in order and the
  sink's list is the list the service acknowledged; the first two parts hold at least
  5 MiB and less than 6 MiB each, the third at least one byte and at most 2 MiB; the
  lengths sum to 12 MiB; the parts in order are the bytes written; and \<open>TotalBytes\<close>
  is 12 MiB. When every write is of exactly 1 MiB the parts are of 5 MiB, 5 MiB and
  2 MiB.
\<close>

theorem twelve_MiB_in_small_writes:
  assumes new: "NewS3Sink c b k [Some opts] = Inr s0"
    and psize: "PartSize opts = 5 * 1024 * 1024"
    and upl: "\<And>h pn body. onUploadPart c h pn body = Inr (tag h pn body)"
    and cmp: "\<And>h parts. onComplete c h parts = None"
    and sz: "\<forall>p \<in> set ps. length p \<le> 1024 * 1024"
    and tot: "length (concat ps) = 12 * 1024 * 1024"
    and s1: "s1 = snd (S3Sink_Writes s0 ps)"
    and s2: "s2 = snd (S3Sink_Close s1)"
    and evs: "evs = drop (Suc (length (history c))) (history (client s2))"
  shows "fst (S3Sink_Writes s0 ps) = map (\<lambda>p. (int (length p), None)) ps
       \<and> PartCount s1 = 2
       \<and> fst (S3Sink_Close s1) = None
       \<and> PartCount s2 = 3
       \<and> map (\<lambda>p. sint (PartNumber p)) (completedParts s2) = [1, 2, 3]
       \<and> acked evs = completedParts s2
       \<and> length (acked_bodies evs) = 3
       \<and> 5 * 1024 * 1024 \<le> length (acked_bodies evs ! 0)
       \<and> length (acked_bodies evs ! 0) < 6 * 1024 * 1024
       \<and> 5 * 1024 * 1024 \<le> length (acked_bodies evs ! 1)
       \<and> length (acked_bodies evs ! 1) < 6 * 1024 * 1024
       \<and> 0 < length (acked_bodies evs ! 2)
       \<and> length (acked_bodies evs ! 2) \<le> 2 * 1024 * 1024
       \<and> sum_list (map length (acked_bodies evs)) = 12 * 1024 * 1024
       \<and> concat (acked_bodies evs) = concat ps
       \<and> TotalBytes s2 = 12 * 1024 * 1024
       \<and> ((\<forall>p \<in> set ps. length p = 1024 * 1024) \<longrightarrow>
            map length (acked_bodies evs) = [5 * 1024 * 1024, 5 * 1024 * 1024, 2 * 1024 * 1024])"
proof -
  define n0 where "n0 = Suc (length (history c))"
  define bs where "bs = acked_bodies (drop n0 (history (client s1)))"
  define B where "B = buffer s1"
  have f0: "filling n0 5242880 1048576 [] s0"
    using filling_New [OF new upl cmp, of 1048576] psize by (simp add: n0_def)
  have sz': "\<forall>p \<in> set ps. int (length p) \<le> 1048576" using sz by auto
  from filling_Writes [OF f0 _ sz']
  have 1: "fst (S3Sink_Writes s0 ps) = map (\<lambda>p. (int (length p), None)) ps"
    and f1: "filling n0 5242880 1048576 (concat ps) s1"
    by (simp_all add: s1)
  have pi1: "part_inv n0 s1"
    unfolding s1 n0_def by (rule part_inv_Writes [OF part_inv_New [OF new]])
  from f1 have bnd: "\<forall>body \<in> set bs. 5242880 \<le> int (length body)
        \<and> int (length body) < 5242880 + 1048576"
    and cat: "concat bs @ B = concat ps"
    and Blt: "int (length B) < 5242880"
    and tb: "totalBytes s1 = int (length (concat ps))"
    and n0le: "n0 \<le> length (history (client s1))"
    and cm: "\<And>h parts. onComplete (client s1) h parts = None"
    and up: "\<exists>etag. onUploadPart (client s1) (history (client s1)) (partNumber s1) (buffer s1)
        = Inr etag"
    by (simp_all add: filling_def bs_def B_def)
  have k: "length bs = length (completedParts s1)"
    using pi1 by (simp add: bs_def length_acked_bodies part_inv_def)
  from bodies_bounds [OF bnd]
  have lo: "5242880 * int (length bs) \<le> int (length (concat bs))"
    and hi: "int (length (concat bs)) \<le> 6291455 * int (length bs)"
    by simp_all
  from cat have "length (concat bs) + length B = length (concat ps)"
    by (metis length_append)
  with tot have sum: "int (length (concat bs)) + int (length B) = 12582912" by simp
  from two_parts [OF lo hi sum _ Blt]
  have two: "length bs = 2" and "0 < int (length B)" and "int (length B) \<le> 2097152"
    by simp_all
  then have Bpos: "0 < length B" and Ble: "length B \<le> 2097152"
    by simp_all
  have 2: "PartCount s1 = 2" using k two by (simp add: PartCount_def)
  from Bpos have ne: "buffer s1 \<noteq> []" by (simp add: B_def)
  from up obtain etag where
    e: "onUploadPart (client s1) (history (client s1)) (partNumber s1) (buffer s1) = Inr etag" ..
  note u = uploadPart_ok [OF ne e]
  have close: "S3Sink_Close s1 =
      (None, s1\<lparr>client := (client s1)\<lparr>history := history (client s1) @
                   [UploadPart (partNumber s1) (buffer s1) (Inr etag),
                    CompleteMultipartUpload
                      (completedParts s1 @ [\<lparr>ETag = etag, PartNumber = partNumber s1\<rparr>]) None]\<rparr>,
                completedParts := completedParts s1 @ [\<lparr>ETag = etag, PartNumber = partNumber s1\<rparr>],
                buffer := [],
                partNumber := partNumber s1 + 1\<rparr>)"
    unfolding S3Sink_Close_alt u
    by (simp add: completeMultipartUpload_def client_CompleteMultipartUpload_def Let_def cm)
  have 3: "fst (S3Sink_Close s1) = None" unfolding close by simp
  have cp: "completedParts s2 = completedParts s1 @ [\<lparr>ETag = etag, PartNumber = partNumber s1\<rparr>]"
    unfolding s2 close by simp
  have len3: "length (completedParts s2) = 3" unfolding cp using k two by simp
  have 4: "PartCount s2 = 3" using len3 by (simp add: PartCount_def)
  have "closed_inv n0 s2" unfolding s2 by (rule closed_inv_Close [OF pi1])
  then have 6: "acked evs = completedParts s2" and d: "dense (completedParts s2)"
    by (simp_all add: closed_inv_def evs n0_def)
  have lt: "length (completedParts s2) < 2 ^ 31" unfolding len3 by simp
  have i0: "0 < length (completedParts s2)" and i1: "1 < length (completedParts s2)"
    and i2: "2 < length (completedParts s2)"
    unfolding len3 by simp_all
  have p0: "sint (PartNumber (completedParts s2 ! 0)) = 1"
    using dense_sint [OF d lt i0] by simp
  have p1: "sint (PartNumber (completedParts s2 ! 1)) = 2"
    using dense_sint [OF d lt i1] by simp
  have p2: "sint (PartNumber (completedParts s2 ! 2)) = 3"
    using dense_sint [OF d lt i2] by simp
  have "map (\<lambda>p. sint (PartNumber p)) (completedParts s2) =
      map (\<lambda>p. sint (PartNumber p)) [completedParts s2 ! 0, completedParts s2 ! 1, completedParts s2 ! 2]"
    by (rule arg_cong [OF list3 [OF len3]])
  also have "\<dots> = [1, 2, 3]" by (simp only: list.map p0 p1 p2)
  finally have 5: "map (\<lambda>p. sint (PartNumber p)) (completedParts s2) = [1, 2, 3]" .
  have bodies: "acked_bodies evs = bs @ [B]"
    unfolding evs s2 close n0_def [symmetric]
    using n0le by (simp add: acked_bodies_append bs_def B_def)
  have bs2: "bs = [bs ! 0, bs ! 1]" by (rule list2 [OF two])
  have in0: "bs ! 0 \<in> set bs" and in1: "bs ! 1 \<in> set bs" using two by simp_all
  have 7: "length (acked_bodies evs) = 3" unfolding bodies using two by simp
  have n0': "acked_bodies evs ! 0 = bs ! 0" and n1': "acked_bodies evs ! 1 = bs ! 1"
    and n2': "acked_bodies evs ! 2 = B"
    unfolding bodies using two by (simp_all add: nth_append)
  have 8: "5 * 1024 * 1024 \<le> length (acked_bodies evs ! 0)
       \<and> length (acked_bodies evs ! 0) < 6 * 1024 * 1024
       \<and> 5 * 1024 * 1024 \<le> length (acked_bodies evs ! 1)
       \<and> length (acked_bodies evs ! 1) < 6 * 1024 * 1024
       \<and> 0 < length (acked_bodies evs ! 2)
       \<and> length (acked_bodies evs ! 2) \<le> 2 * 1024 * 1024"
    unfolding n0' n1' n2' using bnd in0 in1 Bpos Ble by auto
  have 10: "concat (acked_bodies evs) = concat ps" unfolding bodies using cat by simp
  have 9: "sum_list (map length (acked_bodies evs)) = 12 * 1024 * 1024"
    using 10 tot by (simp add: length_concat [symmetric])
  have 11: "TotalBytes s2 = 12 * 1024 * 1024"
    unfolding s2 close using tb tot by (simp add: TotalBytes_def)
  have 12: "map length (acked_bodies evs) = [5 * 1024 * 1024, 5 * 1024 * 1024, 2 * 1024 * 1024]"
    if eq: "\<forall>p \<in> set ps. length p = 1024 * 1024"
  proof -
    from length_concat_equal [OF eq] tot have n: "length ps = 12" by simp
    from twelve_writes_of_one_MiB [OF new psize upl cmp n eq s1 s2 evs] show ?thesis by blast
  qed
  from 1 2 3 4 5 6 7 8 9 10 11 12 show ?thesis by blast
qed

text \<open>
  C3, as amended, at the mock service: twelve writes of 1 MiB of zero bytes, and sixteen
  writes of 768 KiB.
\<close>

theorem twelve_MiB_in_small_writes_witness:
  "PartCount (snd (S3Sink_Writes sink_5MiB (replicate 12 (replicate 1048576 0)))) = 2
   \<and> PartCount (snd (S3Sink_Close (snd (S3Sink_Writes sink_5MiB (replicate 12 (replicate 1048576 0)))))) = 3
   \<and> map (\<lambda>p. sint (PartNumber p))
        (completedParts (snd (S3Sink_Close (snd (S3Sink_Writes sink_5MiB (replicate 12 (replicate 1048576 0)))))))
       = [1, 2, 3]
   \<and> map length (acked_bodies (drop 1 (history (client
        (snd (S3Sink_Close (snd (S3Sink_Writes sink_5MiB (replicate 12 (replicate 1048576 0))))))))))
       = [5242880, 5242880, 2097152]
   \<and> TotalBytes (snd (S3Sink_Close (snd (S3Sink_Writes sink_5MiB (replicate 12 (replicate 1048576 0)))))) = 12582912
   \<and> PartCount (snd (S3Sink_Writes sink_5MiB (replicate 16 (replicate 786432 0)))) = 2
   \<and> PartCount (snd (S3Sink_Close (snd (S3Sink_Writes sink_5MiB (replicate 16 (replicate 786432 0)))))) = 3
   \<and> TotalBytes (snd (S3Sink_Close (snd (S3Sink_Writes sink_5MiB (replicate 16 (replicate 786432 0)))))) = 12582912"
proof -
  have upl: "\<And>h pn body. onUploadPart mockS3Client h pn body = Inr ((\<lambda>h pn body. Some ''test-etag'') h pn body)"
    by (simp add: mockS3Client_def)
  have cmp: "\<And>h parts. onComplete mockS3Client h parts = None"
    by (simp add: mockS3Client_def)
  have psize: "PartSize options_5MiB = 5 * 1024 * 1024" by (simp add: options_5MiB_def)
  have sz: "\<forall>p \<in> set (replicate 12 (replicate 1048576 (0::byte))). length p \<le> 1024 * 1024" by simp
  have eq: "\<forall>p \<in> set (replicate 12 (replicate 1048576 (0::byte))). length p = 1024 * 1024" by simp
  have tot: "length (concat (replicate 12 (replicate 1048576 (0::byte)))) = 12 * 1024 * 1024"
    by (simp add: length_concat sum_list_replicate)
  have sz': "\<forall>p \<in> set (replicate 16 (replicate 786432 (0::byte))). length p \<le> 1024 * 1024" by simp
  have tot': "length (concat (replicate 16 (replicate 786432 (0::byte)))) = 12 * 1024 * 1024"
    by (simp add: length_concat sum_list_replicate)
  have h: "Suc (length (history mockS3Client)) = 1" by (simp add: mockS3Client_def)
  from twelve_MiB_in_small_writes [OF sink_5MiB_new psize upl cmp sz tot refl refl refl]
    twelve_MiB_in_small_writes [OF sink_5MiB_new psize upl cmp sz' tot' refl refl refl] eq
  show ?thesis unfolding h by simp
qed

text \<open>
  C3, as stated, fails: the same 12 MiB written by one call of \<open>Write\<close>, at the same
  sink and service. The write returns no error and has completed one part of 12 MiB,
  not two parts; the close finds the buffer empty and uploads nothing, so there is one
  part in total, not three.
\<close>

theorem twelve_MiB_single_write_counterexample:
  "NewS3Sink mockS3Client ''test-bucket'' ''test-key'' [Some options_5MiB] = Inr sink_5MiB
   \<and> PartSize options_5MiB = 5 * 1024 * 1024
   \<and> S3Sink_Write sink_5MiB (replicate (12 * 1024 * 1024) 0)
       = ((12 * 1024 * 1024, None), snd (S3Sink_Write sink_5MiB (replicate (12 * 1024 * 1024) 0)))
   \<and> PartCount (snd (S3Sink_Write sink_5MiB (replicate (12 * 1024 * 1024) 0))) = 1
   \<and> PartCount (snd (S3Sink_Write sink_5MiB (replicate (12 * 1024 * 1024) 0))) \<noteq> 2
   \<and> fst (S3Sink_Close (snd (S3Sink_Write sink_5MiB (replicate (12 * 1024 * 1024) 0)))) = None
   \<and> PartCount (snd (S3Sink_Close (snd (S3Sink_Write sink_5MiB (replicate (12 * 1024 * 1024) 0))))) = 1
   \<and> PartCount (snd (S3Sink_Close (snd (S3Sink_Write sink_5MiB (replicate (12 * 1024 * 1024) 0))))) \<noteq> 3
   \<and> TotalBytes (snd (S3Sink_Close (snd (S3Sink_Write sink_5MiB (replicate (12 * 1024 * 1024) 0)))))
       = 12 * 1024 * 1024"
proof -
  note new = sink_5MiB_new
  have rest: "PartSize options_5MiB = 5 * 1024 * 1024
   \<and> S3Sink_Write sink_5MiB (replicate (12 * 1024 * 1024) 0)
       = ((12 * 1024 * 1024, None), snd (S3Sink_Write sink_5MiB (replicate (12 * 1024 * 1024) 0)))
   \<and> PartCount (snd (S3Sink_Write sink_5MiB (replicate (12 * 1024 * 1024) 0))) = 1
   \<and> PartCount (snd (S3Sink_Write sink_5MiB (replicate (12 * 1024 * 1024) 0))) \<noteq> 2
   \<and> fst (S3Sink_Close (snd (S3Sink_Write sink_5MiB (replicate (12 * 1024 * 1024) 0)))) = None
   \<and> PartCount (snd (S3Sink_Close (snd (S3Sink_Write sink_5MiB (replicate (12 * 1024 * 1024) 0))))) = 1
   \<and> PartCount (snd (S3Sink_Close (snd (S3Sink_Write sink_5MiB (replicate (12 * 1024 * 1024) 0))))) \<noteq> 3
   \<and> TotalBytes (snd (S3Sink_Close (snd (S3Sink_Write sink_5MiB (replicate (12 * 1024 * 1024) 0)))))
       = 12 * 1024 * 1024"
    by (simp add: s3_defs sink_5MiB_def mockS3Client_def options_5MiB_def)
  from new rest show ?thesis by (rule conjI)
qed

text \<open>
  The bound on the writes cannot be raised by a byte: with writes of up to 1 MiB and one
  byte, each of the two parts before the close can take 6 MiB, and the close has nothing
  left to upload.
\<close>

lemma twelve_MiB_one_byte_over:
  "map length writes_one_byte_over =
     [1048576, 1048576, 1048576, 1048576, 1048575, 1048577,
      1048576, 1048576, 1048576, 1048576, 1048575, 1048577]
   \<and> length (concat writes_one_byte_over) = 12 * 1024 * 1024
   \<and> PartCount (snd (S3Sink_Writes sink_5MiB writes_one_byte_over)) = 2
   \<and> fst (S3Sink_Close (snd (S3Sink_Writes sink_5MiB writes_one_byte_over))) = None
   \<and> PartCount (snd (S3Sink_Close (snd (S3Sink_Writes sink_5MiB writes_one_byte_over)))) = 2
   \<and> map length (acked_bodies (history (client
        (snd (S3Sink_Close (snd (S3Sink_Writes sink_5MiB writes_one_byte_over)))))))
       = [6 * 1024 * 1024, 6 * 1024 * 1024]"
  by (simp add: writes_one_byte_over_def s3_defs sink_5MiB_def mockS3Client_def options_5MiB_def
      replicate_add [symmetric])

section \<open>The chunked-upload sink: failure at the close\<close>

text \<open>
  When the completion call fails, \<open>Close\<close> aborts the upload before it returns the
  error: the last request the service has seen is the abort.
\<close>

lemma Close_completion_failure_aborts:
  assumes up: "fst (uploadPart s) = None"
    and cmp: "fst (completeMultipartUpload (snd (uploadPart s))) = Some err"
    and uid: "uploadID s = Some u"
  shows "fst (S3Sink_Close s) = Some (Wrap ''failed to complete multipart upload'' err)
       \<and> (\<exists>r. last (history (client (snd (S3Sink_Close s)))) = AbortMultipartUpload r)"
proof -
  define s1 where "s1 = snd (uploadPart s)"
  define s2 where "s2 = snd (completeMultipartUpload s1)"
  have u1: "uploadID s1 = Some u"
    using uid by (auto simp add: s1_def uploadPart_def client_UploadPart_def Let_def split: sum.splits)
  have u2: "uploadID s2 = Some u"
    using u1 by (simp add: s2_def completeMultipartUpload_def client_CompleteMultipartUpload_def Let_def)
  have "S3Sink_Close s =
      (Some (Wrap ''failed to complete multipart upload'' err), snd (abortMultipartUpload s2))"
    using up cmp
    by (auto simp add: S3Sink_Close_alt s1_def s2_def split: prod.splits option.splits)
  then show ?thesis
    using u2 by (simp add: abortMultipartUpload_def client_AbortMultipartUpload_def Let_def)
qed

text \<open>
  C4. The failing input: the sink of the test with the mock whose part uploads fail,
  after a write of four bytes. \<open>Close\<close> sends the buffer as the final part, the
  transfer fails, and \<open>Close\<close> returns the error at once: the service has seen the
  creation and the failed part, and no abort.
\<close>

theorem Close_final_part_failure_no_abort:
  "NewS3Sink failingUploadClient ''test-bucket'' ''test-key'' [] = Inr sink_failing
   \<and> S3Sink_Write sink_failing [116, 101, 115, 116]
       = ((4, None), snd (S3Sink_Write sink_failing [116, 101, 115, 116]))
   \<and> fst (S3Sink_Close (snd (S3Sink_Write sink_failing [116, 101, 115, 116])))
       = Some (Wrap ''failed to upload final part'' (Err ''network error''))
   \<and> history (client (snd (S3Sink_Close (snd (S3Sink_Write sink_failing [116, 101, 115, 116])))))
       = [CreateMultipartUpload ''test-bucket'' ''test-key'' DefaultS3Options (Inr (Some ''test-upload-id'')),
          UploadPart 1 [116, 101, 115, 116] (Inl (Err ''network error''))]
   \<and> aborts (history (client (snd (S3Sink_Close (snd (S3Sink_Write sink_failing [116, 101, 115, 116])))))) = 0"
proof -
  note new = sink_failing_new
  have rest: "S3Sink_Write sink_failing [116, 101, 115, 116]
       = ((4, None), snd (S3Sink_Write sink_failing [116, 101, 115, 116]))
   \<and> fst (S3Sink_Close (snd (S3Sink_Write sink_failing [116, 101, 115, 116])))
       = Some (Wrap ''failed to upload final part'' (Err ''network error''))
   \<and> history (client (snd (S3Sink_Close (snd (S3Sink_Write sink_failing [116, 101, 115, 116])))))
       = [CreateMultipartUpload ''test-bucket'' ''test-key'' DefaultS3Options (Inr (Some ''test-upload-id'')),
          UploadPart 1 [116, 101, 115, 116] (Inl (Err ''network error''))]
   \<and> aborts (history (client (snd (S3Sink_Close (snd (S3Sink_Write sink_failing [116, 101, 115, 116])))))) = 0"
    by (simp add: s3_defs sink_failing_def failingUploadClient_def mockS3Client_def
        DefaultS3Options_def)
  from new rest show ?thesis by (rule conjI)
qed

section \<open>The writer: lifecycle flags\<close>

lemma same_flags_refl: "same_flags w w"
  by (simp add: same_flags_def)

lemma same_flags_trans: "same_flags w w1 \<Longrightarrow> same_flags w1 w2 \<Longrightarrow> same_flags w w2"
  by (simp add: same_flags_def)

lemma flags_archive_Create: "archive_Create w name = (r, w') \<Longrightarrow> same_flags w w'"
  by (auto simp add: archive_Create_def same_flags_def split: option.splits prod.splits sum.splits)

lemma flags_entry_Write: "entry_Write w h d = (r, w') \<Longrightarrow> same_flags w w'"
  by (auto simp add: entry_Write_def same_flags_def split: option.splits prod.splits)

lemma flags_archive_Close: "archive_Close w = (r, w') \<Longrightarrow> same_flags w w'"
  by (auto simp add: archive_Close_def same_flags_def split: option.splits prod.splits)

lemma flags_writeZipFile: "writeZipFile w name d = (r, w') \<Longrightarrow> same_flags w w'"
  by (auto simp add: writeZipFile_def split: prod.splits result.splits
      dest!: flags_archive_Create flags_entry_Write intro: same_flags_trans)

lemma flags_closeLastSheet: "closeLastSheet msg w = (r, w') \<Longrightarrow> same_flags w w'"
  by (auto simp add: closeLastSheet_def same_flags_def split: prod.splits result.splits if_splits
      dest!: flags_entry_Write)

lemma flags_startNewSheet: "startNewSheet w = (r, w') \<Longrightarrow> same_flags w w'"
  by (auto simp add: startNewSheet_def Let_def same_flags_def split: prod.splits result.splits
      dest!: flags_closeLastSheet flags_archive_Create flags_entry_Write)

lemma flags_appendRow: "appendRow L w vs = (r, w') \<Longrightarrow> same_flags w w'"
  by (auto simp add: appendRow_def same_flags_def split: prod.splits result.splits option.splits
      dest!: flags_entry_Write)

lemma flags_WriteRow: "WriteRow L w vs = (r, w') \<Longrightarrow> same_flags w w'"
  by (auto simp add: WriteRow_def same_flags_def split: prod.splits result.splits option.splits if_splits
      dest!: flags_startNewSheet flags_appendRow)

lemma flags_writeHeaders: "writeHeaders L w hs = (r, w') \<Longrightarrow> same_flags w w'"
  by (auto simp add: writeHeaders_def same_flags_def split: prod.splits result.splits list.splits if_splits
      dest!: flags_WriteRow)

lemma flags_closeSink: "closeSink w = (r, w') \<Longrightarrow> same_flags w w'"
  by (auto simp add: closeSink_def same_flags_def split: prod.splits option.splits)

lemma flags_writeManifests: "writeManifests w = (r, w') \<Longrightarrow> same_flags w w'"
  by (auto simp add: writeManifests_def same_flags_def split: prod.splits result.splits
      dest!: flags_writeZipFile flags_archive_Close flags_closeSink)

lemma flags_writeHeaders_snd:
  "started (snd (writeHeaders L w hs)) = started w"
  "finished (snd (writeHeaders L w hs)) = finished w"
  using flags_writeHeaders [of L w hs "fst (writeHeaders L w hs)" "snd (writeHeaders L w hs)"]
  by (simp_all add: same_flags_def)

lemma flags_writeManifests_snd:
  "started (snd (writeManifests w)) = started w"
  "finished (snd (writeManifests w)) = finished w"
  using flags_writeManifests [of w "fst (writeManifests w)" "snd (writeManifests w)"]
  by (simp_all add: same_flags_def)

lemma StartFile_started: "started (snd (StartFile L w hs))"
  by (auto simp add: StartFile_def same_flags_def flags_writeHeaders_snd
      split: prod.splits result.splits
      dest!: flags_writeZipFile flags_startNewSheet)

lemma FinishFile_finished:
  "started w \<Longrightarrow> started (snd (FinishFile w)) \<and> finished (snd (FinishFile w))"
  by (auto simp add: FinishFile_def same_flags_def flags_writeManifests_snd
      split: prod.splits result.splits
      dest!: flags_closeLastSheet)

section \<open>The writer: the states of a successful export\<close>

lemma row_chunks_snoc:
  "row_chunks esc (rows @ [r]) = row_chunks esc rows @ [generateRow esc (int (length rows)) r @ ''\<newline>'']"
  by (simp add: row_chunks_def nth_append)

lemma sheets_dir_snoc:
  "sheets_dir esc (ss @ [s]) = sheets_dir esc ss @ [sheet_entry esc (length ss) (fst s) (snd s)]"
  by (simp add: sheets_dir_def nth_append)

lemma sheets_writers_snoc:
  "sheets_writers hdone (ss @ [s]) =
     sheets_writers hdone ss @
       [\<lparr>writer = length ss + 2, rowCount = int (length (fst s)), sheetIndex = int (length ss),
         headersDone = (hdone \<and> length ss = 0), closed = snd s\<rparr>]"
  by (simp add: sheets_writers_def nth_append)

lemma length_sheets_dir [simp]: "length (sheets_dir esc ss) = length ss"
  by (simp add: sheets_dir_def)

lemma length_sheets_writers [simp]: "length (sheets_writers hdone ss) = length ss"
  by (simp add: sheets_writers_def)

lemma length_static [simp]: "length static_entries = 2"
  by (simp add: static_entries_def)

lemma zip_flush_ok:
  assumes "zip_flush z s = (None, z', s')"
  shows "\<exists>fl'. z' = z\<lparr>flushes := fl'\<rparr>"
proof
  from assms show "z' = z\<lparr>flushes := flushes z'\<rparr>"
    by (auto simp add: zip_flush_def split: list.splits if_splits prod.splits)
qed

lemma zip_Write_ok:
  assumes "zip_Write h d z s = (None, z', s')"
  shows "\<not> zclosed z \<and> Suc h = length (dir z)
       \<and> (\<exists>fl'. z' = z\<lparr>flushes := fl', dir := (dir z)[h := (dir z ! h)\<lparr>chunks := chunks (dir z ! h) @ [d]\<rparr>]\<rparr>)"
proof -
  from assms have c: "\<not> zclosed z" "Suc h = length (dir z)"
    by (auto simp add: zip_Write_def split: if_splits)
  with assms obtain z1 where f: "zip_flush z s = (None, z1, s')"
    and z': "z' = z1\<lparr>dir := (dir z1)[h := (dir z1 ! h)\<lparr>chunks := chunks (dir z1 ! h) @ [d]\<rparr>]\<rparr>"
    by (auto simp add: zip_Write_def split: prod.splits option.splits)
  from zip_flush_ok [OF f] obtain fl' where z1: "z1 = z\<lparr>flushes := fl'\<rparr>" ..
  have "z' = z\<lparr>flushes := fl', dir := (dir z)[h := (dir z ! h)\<lparr>chunks := chunks (dir z ! h) @ [d]\<rparr>]\<rparr>"
    unfolding z' z1 by simp
  then have "\<exists>fl'. z' = z\<lparr>flushes := fl', dir := (dir z)[h := (dir z ! h)\<lparr>chunks := chunks (dir z ! h) @ [d]\<rparr>]\<rparr>" ..
  with c show ?thesis by simp
qed

lemma zip_Create_ok:
  assumes "zip_Create lvl name z s = (Inr h, z', s')"
  shows "h = length (dir z)
       \<and> (\<exists>fl'. z' = z\<lparr>flushes := fl', dir := dir z @ [\<lparr>ename = name, chunks = []\<rparr>]\<rparr>)"
proof -
  from assms obtain z1 where f: "zip_flush z s = (None, z1, s')"
    and z': "z' = z1\<lparr>dir := dir z1 @ [\<lparr>ename = name, chunks = []\<rparr>]\<rparr>" and h: "h = length (dir z1)"
    by (auto simp add: zip_Create_def split: prod.splits option.splits if_splits)
  from zip_flush_ok [OF f] obtain fl' where z1: "z1 = z\<lparr>flushes := fl'\<rparr>" ..
  have "z' = z\<lparr>flushes := fl', dir := dir z @ [\<lparr>ename = name, chunks = []\<rparr>]\<rparr>"
    unfolding z' z1 by simp
  then have "\<exists>fl'. z' = z\<lparr>flushes := fl', dir := dir z @ [\<lparr>ename = name, chunks = []\<rparr>]\<rparr>" ..
  moreover have "h = length (dir z)" unfolding h z1 by simp
  ultimately show ?thesis by simp
qed

lemma zip_Close_ok:
  assumes "zip_Close z s = (None, z', s')"
  shows "\<not> zclosed z \<and> (\<exists>fl'. z' = z\<lparr>flushes := fl', zclosed := True\<rparr>)"
proof -
  from assms have c: "\<not> zclosed z" by (auto simp add: zip_Close_def split: if_splits)
  with assms have f: "zip_flush (z\<lparr>zclosed := True\<rparr>) s = (None, z', s')"
    by (simp add: zip_Close_def)
  from zip_flush_ok [OF f] obtain fl' where "z' = z\<lparr>zclosed := True, flushes := fl'\<rparr>" ..
  then have "z' = z\<lparr>flushes := fl', zclosed := True\<rparr>" by simp
  then have "\<exists>fl'. z' = z\<lparr>flushes := fl', zclosed := True\<rparr>" ..
  with c show ?thesis by simp
qed

lemma entry_Write_ok:
  assumes "entry_Write w h d = (Ok u, w')" and "zipWriter w = Some z"
  shows "Suc h = length (dir z)
       \<and> (\<exists>fl' snk'. w' = w\<lparr>zipWriter := Some (z\<lparr>flushes := fl',
              dir := (dir z)[h := (dir z ! h)\<lparr>chunks := chunks (dir z ! h) @ [d]\<rparr>]\<rparr>), sink := snk'\<rparr>)"
proof -
  from assms obtain z' s' where zw: "zip_Write h d z (sink w) = (None, z', s')"
    and w': "w' = w\<lparr>zipWriter := Some z', sink := s'\<rparr>"
    by (auto simp add: entry_Write_def split: prod.splits option.splits)
  from zip_Write_ok [OF zw] obtain fl' where h: "Suc h = length (dir z)"
    and z': "z' = z\<lparr>flushes := fl', dir := (dir z)[h := (dir z ! h)\<lparr>chunks := chunks (dir z ! h) @ [d]\<rparr>]\<rparr>"
    by auto
  from w' have "w' = w\<lparr>zipWriter := Some (z\<lparr>flushes := fl',
              dir := (dir z)[h := (dir z ! h)\<lparr>chunks := chunks (dir z ! h) @ [d]\<rparr>]\<rparr>), sink := s'\<rparr>"
    unfolding z' .
  then have "\<exists>fl' snk'. w' = w\<lparr>zipWriter := Some (z\<lparr>flushes := fl',
              dir := (dir z)[h := (dir z ! h)\<lparr>chunks := chunks (dir z ! h) @ [d]\<rparr>]\<rparr>), sink := snk'\<rparr>"
    by blast
  with h show ?thesis by simp
qed

lemma archive_Create_ok:
  assumes "archive_Create w name = (Ok h, w')" and "zipWriter w = Some z"
  shows "h = length (dir z)
       \<and> (\<exists>fl' snk'. w' = w\<lparr>zipWriter := Some (z\<lparr>flushes := fl',
              dir := dir z @ [\<lparr>ename = name, chunks = []\<rparr>]\<rparr>), sink := snk'\<rparr>)"
proof -
  from assms obtain z' s' where zc: "zip_Create (CompressionLevel (config w)) name z (sink w) = (Inr h, z', s')"
    and w': "w' = w\<lparr>zipWriter := Some z', sink := s'\<rparr>"
    by (auto simp add: archive_Create_def split: prod.splits sum.splits)
  from zip_Create_ok [OF zc] obtain fl' where h: "h = length (dir z)"
    and z': "z' = z\<lparr>flushes := fl', dir := dir z @ [\<lparr>ename = name, chunks = []\<rparr>]\<rparr>"
    by auto
  from w' have "w' = w\<lparr>zipWriter := Some (z\<lparr>flushes := fl',
              dir := dir z @ [\<lparr>ename = name, chunks = []\<rparr>]\<rparr>), sink := s'\<rparr>"
    unfolding z' .
  then have "\<exists>fl' snk'. w' = w\<lparr>zipWriter := Some (z\<lparr>flushes := fl',
              dir := dir z @ [\<lparr>ename = name, chunks = []\<rparr>]\<rparr>), sink := snk'\<rparr>"
    by blast
  with h show ?thesis by simp
qed

lemma archive_Close_ok:
  assumes "archive_Close w = (Ok u, w')" and "zipWriter w = Some z"
  shows "\<exists>fl' snk'. w' = w\<lparr>zipWriter := Some (z\<lparr>flushes := fl', zclosed := True\<rparr>), sink := snk'\<rparr>"
proof -
  from assms obtain z' s' where zc: "zip_Close z (sink w) = (None, z', s')"
    and w': "w' = w\<lparr>zipWriter := Some z', sink := s'\<rparr>"
    by (auto simp add: archive_Close_def split: prod.splits option.splits)
  from zip_Close_ok [OF zc] obtain fl' where z': "z' = z\<lparr>flushes := fl', zclosed := True\<rparr>"
    by auto
  from w' have "w' = w\<lparr>zipWriter := Some (z\<lparr>flushes := fl', zclosed := True\<rparr>), sink := s'\<rparr>"
    unfolding z' .
  then show ?thesis by blast
qed

lemma writeZipFile_ok:
  assumes "writeZipFile w name d = (Ok u, w')" and "zipWriter w = Some z"
  shows "\<exists>fl' snk'. w' = w\<lparr>zipWriter := Some (z\<lparr>flushes := fl',
              dir := dir z @ [\<lparr>ename = name, chunks = [d]\<rparr>]\<rparr>), sink := snk'\<rparr>"
proof -
  from assms(1) obtain h w1 where c: "archive_Create w name = (Ok h, w1)"
    and e: "entry_Write w1 h d = (Ok u, w')"
    by (auto simp add: writeZipFile_def split: prod.splits result.splits)
  from archive_Create_ok [OF c assms(2)] obtain fl1 snk1 where h: "h = length (dir z)"
    and w1: "w1 = w\<lparr>zipWriter := Some (z\<lparr>flushes := fl1,
              dir := dir z @ [\<lparr>ename = name, chunks = []\<rparr>]\<rparr>), sink := snk1\<rparr>"
    by auto
  have z1: "zipWriter w1 = Some (z\<lparr>flushes := fl1, dir := dir z @ [\<lparr>ename = name, chunks = []\<rparr>]\<rparr>)"
    by (simp add: w1)
  from entry_Write_ok [OF e z1] obtain fl2 snk2 where
    "w' = w1\<lparr>zipWriter := Some ((z\<lparr>flushes := fl1, dir := dir z @ [\<lparr>ename = name, chunks = []\<rparr>]\<rparr>)
            \<lparr>flushes := fl2,
              dir := (dir (z\<lparr>flushes := fl1, dir := dir z @ [\<lparr>ename = name, chunks = []\<rparr>]\<rparr>))
                 [h := (dir (z\<lparr>flushes := fl1, dir := dir z @ [\<lparr>ename = name, chunks = []\<rparr>]\<rparr>) ! h)
                    \<lparr>chunks := chunks (dir (z\<lparr>flushes := fl1, dir := dir z @ [\<lparr>ename = name, chunks = []\<rparr>]\<rparr>) ! h) @ [d]\<rparr>]\<rparr>),
           sink := snk2\<rparr>"
    by auto
  then have "w' = w\<lparr>zipWriter := Some (z\<lparr>flushes := fl2,
              dir := dir z @ [\<lparr>ename = name, chunks = [d]\<rparr>]\<rparr>), sink := snk2\<rparr>"
    by (simp add: w1 h)
  then show ?thesis by blast
qed

lemma zipWriter_writing:
  "zipWriter (writing esc cfg fin ss hdone t fl snk) =
     Some \<lparr>dir = static_entries @ sheets_dir esc ss, zclosed = False, flushes = fl\<rparr>"
  by (simp add: writing_def)

lemma closeLastSheet_writing_open:
  assumes "closeLastSheet msg (writing esc cfg fin (ss @ [(rows, False)]) hdone t fl snk) = (Ok u, w')"
  shows "\<exists>fl' snk'. w' = writing esc cfg fin (ss @ [(rows, True)]) hdone t fl' snk'"
proof -
  let ?w = "writing esc cfg fin (ss @ [(rows, False)]) hdone t fl snk"
  let ?z = "\<lparr>dir = static_entries @ sheets_dir esc (ss @ [(rows, False)]), zclosed = False, flushes = fl\<rparr>"
  have sw: "sheetWriters ?w = sheets_writers hdone ss @
       [\<lparr>writer = length ss + 2, rowCount = int (length rows), sheetIndex = int (length ss),
         headersDone = (hdone \<and> length ss = 0), closed = False\<rparr>]"
    by (simp add: writing_def sheets_writers_snoc)
  from assms obtain w1 where e: "entry_Write ?w (length ss + 2) worksheetFooter = (Ok (), w1)"
    and w': "w' = w1\<lparr>sheetWriters :=
                      (sheetWriters w1)[length (sheetWriters w1) - 1 :=
                         (last (sheetWriters w1))\<lparr>closed := True\<rparr>]\<rparr>"
    by (auto simp add: closeLastSheet_def sw split: prod.splits result.splits)
  from entry_Write_ok [OF e zipWriter_writing] obtain fl' snk' where
    w1: "w1 = ?w\<lparr>zipWriter := Some (?z\<lparr>flushes := fl',
              dir := (dir ?z)[length ss + 2 := (dir ?z ! (length ss + 2))
                 \<lparr>chunks := chunks (dir ?z ! (length ss + 2)) @ [worksheetFooter]\<rparr>]\<rparr>), sink := snk'\<rparr>"
    by auto
  have "w' = writing esc cfg fin (ss @ [(rows, True)]) hdone t fl' snk'"
    unfolding w' w1
    by (simp add: writing_def sheets_dir_snoc sheets_writers_snoc sheet_entry_def
        nth_append list_update_append)
  then show ?thesis by blast
qed

lemma closeLastSheet_writing_closed:
  assumes "ss = [] \<or> snd (last ss)"
  shows "closeLastSheet msg (writing esc cfg fin ss hdone t fl snk) = (Ok (), writing esc cfg fin ss hdone t fl snk)"
proof (cases "ss = []")
  case True
  then show ?thesis by (simp add: closeLastSheet_def writing_def sheets_writers_def)
next
  case False
  then obtain ss0 s where ss: "ss = ss0 @ [s]" by (metis rev_exhaust)
  with assms have "snd s" by simp
  then show ?thesis
    by (simp add: closeLastSheet_def writing_def ss sheets_writers_snoc)
qed

lemma closeLastSheet_writing:
  assumes "closeLastSheet msg (writing esc cfg fin ss hdone t fl snk) = (Ok u, w')"
  shows "\<exists>fl' snk'. w' = writing esc cfg fin (close_last ss) hdone t fl' snk'"
proof (cases "ss = [] \<or> snd (last ss)")
  case True
  from closeLastSheet_writing_closed [OF True] assms
  have w': "w' = writing esc cfg fin ss hdone t fl snk" by simp
  from True have "close_last ss = ss"
    by (cases ss rule: rev_cases) (auto simp add: close_last_def)
  with w' show ?thesis by auto
next
  case False
  then obtain ss0 rows where ss: "ss = ss0 @ [(rows, False)]"
    by (cases ss rule: rev_cases) auto
  from closeLastSheet_writing_open [OF assms [unfolded ss]]
  show ?thesis by (simp add: ss close_last_def)
qed

lemma startNewSheet_writing:
  assumes "startNewSheet (writing esc cfg fin ss hdone t fl snk) = (Ok u, w')"
    and "ss = [] \<longrightarrow> \<not> hdone"
  shows "\<exists>fl' snk'. w' = writing esc cfg fin (close_last ss @ [([], False)]) hdone t fl' snk'"
proof -
  let ?cs = "close_last ss"
  have len: "length ?cs = length ss"
    by (cases ss rule: rev_cases) (simp_all add: close_last_def)
  from assms(1) obtain w1 h w2 w3 where
    c: "closeLastSheet ''failed to close previous sheet'' (writing esc cfg fin ss hdone t fl snk) = (Ok (), w1)"
    and cr0: "archive_Create w1 (sheetName_of (int (length (sheetWriters w1)) + 1)) = (Ok h, w2)"
    and hw: "entry_Write w2 h (worksheetHeader @ ''\<newline>'') = (Ok (), w3)"
    and w'0: "w' = w3\<lparr>sheetWriters :=
                             sheetWriters w3 @
                               [\<lparr>writer = h, rowCount = 0, sheetIndex = int (length (sheetWriters w1)) + 1 - 1,
                                 headersDone = False, closed = False\<rparr>],
                           currentSheetIndex := int (length (sheetWriters w3) + 1) - 1\<rparr>"
    by (auto simp add: startNewSheet_def Let_def split: prod.splits result.splits)
  from closeLastSheet_writing [OF c] obtain fl1 snk1 where
    w1: "w1 = writing esc cfg fin ?cs hdone t fl1 snk1" by auto
  have n1: "length (sheetWriters w1) = length ss" by (simp add: w1 writing_def len)
  from cr0 have cr: "archive_Create w1 (sheet_path (length ss)) = (Ok h, w2)"
    by (simp add: n1 sheet_path_def)
  from w'0 have w': "w' = w3\<lparr>sheetWriters :=
                             sheetWriters w3 @
                               [\<lparr>writer = h, rowCount = 0, sheetIndex = int (length ss),
                                 headersDone = False, closed = False\<rparr>],
                           currentSheetIndex := int (length (sheetWriters w3) + 1) - 1\<rparr>"
    by (simp add: n1)
  let ?z1 = "\<lparr>dir = static_entries @ sheets_dir esc ?cs, zclosed = False, flushes = fl1\<rparr>"
  have z1: "zipWriter w1 = Some ?z1" by (simp add: w1 writing_def)
  from archive_Create_ok [OF cr z1] obtain fl2 snk2 where h: "h = length ss + 2"
    and w2: "w2 = w1\<lparr>zipWriter := Some (?z1\<lparr>flushes := fl2,
              dir := dir ?z1 @ [\<lparr>ename = sheet_path (length ss), chunks = []\<rparr>]\<rparr>), sink := snk2\<rparr>"
    by (auto simp add: len)
  let ?z2 = "?z1\<lparr>flushes := fl2, dir := dir ?z1 @ [\<lparr>ename = sheet_path (length ss), chunks = []\<rparr>]\<rparr>"
  have z2: "zipWriter w2 = Some ?z2" by (simp add: w2)
  from entry_Write_ok [OF hw z2] obtain fl3 snk3 where
    w3: "w3 = w2\<lparr>zipWriter := Some (?z2\<lparr>flushes := fl3,
              dir := (dir ?z2)[h := (dir ?z2 ! h)\<lparr>chunks := chunks (dir ?z2 ! h) @ [worksheetHeader @ ''\<newline>'']\<rparr>]\<rparr>),
            sink := snk3\<rparr>"
    by auto
  have "w' = writing esc cfg fin (?cs @ [([], False)]) hdone t fl3 snk3"
    unfolding w' w3 w2 w1 h
    using assms(2)
    by (auto simp add: writing_def sheets_dir_snoc sheets_writers_snoc sheet_entry_def row_chunks_def
        len nth_append list_update_append)
  then show ?thesis by blast
qed

lemma currentWriter_writing:
  "currentWriter (writing esc cfg fin (ss @ [(rows, cl)]) hdone t fl snk) =
     Some \<lparr>writer = length ss + 2, rowCount = int (length rows), sheetIndex = int (length ss),
           headersDone = (hdone \<and> length ss = 0), closed = cl\<rparr>"
  by (simp add: currentWriter_def writing_def sheets_writers_snoc nth_append)

lemma appendRow_writing:
  assumes "appendRow L (writing (EscapeText L) cfg fin (ss @ [(rows, False)]) hdone t fl snk) r = (Ok u, w')"
  shows "\<exists>fl' snk'. w' = writing (EscapeText L) cfg fin (ss @ [(rows @ [r], False)]) hdone (t + 1) fl' snk'"
proof -
  let ?esc = "EscapeText L"
  let ?w = "writing ?esc cfg fin (ss @ [(rows, False)]) hdone t fl snk"
  let ?cur = "\<lparr>writer = length ss + 2, rowCount = int (length rows), sheetIndex = int (length ss),
           headersDone = (hdone \<and> length ss = 0), closed = False\<rparr>"
  let ?z = "\<lparr>dir = static_entries @ sheets_dir ?esc (ss @ [(rows, False)]), zclosed = False, flushes = fl\<rparr>"
  from assms obtain w1 where
    e: "entry_Write ?w (length ss + 2) (generateRow ?esc (int (length rows)) r @ ''\<newline>'') = (Ok (), w1)"
    and w': "w' = w1\<lparr>sheetWriters :=
                     (sheetWriters w1)[nat (currentSheetIndex w1) :=
                        ?cur\<lparr>rowCount := rowCount ?cur + 1\<rparr>],
                   totalRows := totalRows w1 + 1\<rparr>"
    by (auto simp add: appendRow_def currentWriter_writing split: prod.splits result.splits)
  from entry_Write_ok [OF e zipWriter_writing] obtain fl' snk' where
    w1: "w1 = ?w\<lparr>zipWriter := Some (?z\<lparr>flushes := fl',
              dir := (dir ?z)[length ss + 2 := (dir ?z ! (length ss + 2))
                 \<lparr>chunks := chunks (dir ?z ! (length ss + 2)) @ [generateRow ?esc (int (length rows)) r @ ''\<newline>'']\<rparr>]\<rparr>),
            sink := snk'\<rparr>"
    by auto
  have "w' = writing ?esc cfg fin (ss @ [(rows @ [r], False)]) hdone (t + 1) fl' snk'"
    unfolding w' w1
    by (simp add: writing_def sheets_dir_snoc sheets_writers_snoc sheet_entry_def row_chunks_snoc
        nth_append list_update_append)
  then show ?thesis by blast
qed

lemma close_last_sheets: "close_last (sheets gs) = map (\<lambda>g. (g, True)) (butlast gs) @ [(last gs, True)]"
  by (simp add: close_last_def sheets_def)

lemma sheets_snoc:
  assumes "gs \<noteq> []"
  shows "sheets (gs @ [g]) = close_last (sheets gs) @ [(g, False)]"
proof -
  have "map (\<lambda>g. (g, True)) gs = map (\<lambda>g. (g, True)) (butlast gs @ [last gs])"
    using assms by simp
  then have "map (\<lambda>g. (g, True)) gs = map (\<lambda>g. (g, True)) (butlast gs) @ [(last gs, True)]"
    by simp
  then show ?thesis
    by (simp add: close_last_sheets) (simp add: sheets_def butlast_append)
qed

lemma WriteRow_writing:
  assumes wr: "WriteRow L (writing (EscapeText L) cfg False (sheets gs) hdone t fl snk) r = (Ok u, w')"
    and ne: "gs \<noteq> []"
  shows "\<exists>fl' snk'. w' = writing (EscapeText L) cfg False (sheets (place (MaxRowsPerSheet cfg) gs r)) hdone (t + 1) fl' snk'"
proof -
  let ?esc = "EscapeText L"
  let ?ss0 = "map (\<lambda>g. (g, True)) (butlast gs)"
  let ?w = "writing ?esc cfg False (sheets gs) hdone t fl snk"
  have ss: "sheets gs = ?ss0 @ [(last gs, False)]" by (simp add: sheets_def)
  have flags: "started ?w" "\<not> finished ?w" "config ?w = cfg" by (simp_all add: writing_def)
  have cur: "currentWriter ?w = Some \<lparr>writer = length ?ss0 + 2, rowCount = int (length (last gs)),
       sheetIndex = int (length ?ss0), headersDone = (hdone \<and> length ?ss0 = 0), closed = False\<rparr>"
    unfolding ss by (rule currentWriter_writing)
  show ?thesis
  proof (cases "int (length (last gs)) \<ge> MaxRowsPerSheet cfg")
    case True
    with wr obtain w1 where sn: "startNewSheet ?w = (Ok (), w1)"
      and ap: "appendRow L w1 r = (Ok u, w')"
      by (auto simp add: WriteRow_def flags cur split: prod.splits result.splits)
    have "sheets gs = [] \<longrightarrow> \<not> hdone" by (simp add: sheets_def)
    from startNewSheet_writing [OF sn this] obtain fl1 snk1 where
      w1: "w1 = writing ?esc cfg False (close_last (sheets gs) @ [([], False)]) hdone t fl1 snk1"
      by auto
    from appendRow_writing [OF ap [unfolded w1]] obtain fl2 snk2 where
      "w' = writing ?esc cfg False (close_last (sheets gs) @ [([] @ [r], False)]) hdone (t + 1) fl2 snk2"
      by auto
    moreover have "sheets (place (MaxRowsPerSheet cfg) gs r) = close_last (sheets gs) @ [([] @ [r], False)]"
      using True ne by (simp add: place_def sheets_snoc)
    ultimately show ?thesis by auto
  next
    case False
    with wr have ap: "appendRow L (writing ?esc cfg False (?ss0 @ [(last gs, False)]) hdone t fl snk) r = (Ok u, w')"
      by (simp add: WriteRow_def flags cur ss [symmetric])
    from appendRow_writing [OF ap] obtain fl2 snk2 where
      "w' = writing ?esc cfg False (?ss0 @ [(last gs @ [r], False)]) hdone (t + 1) fl2 snk2"
      by auto
    moreover have "sheets (place (MaxRowsPerSheet cfg) gs r) = ?ss0 @ [(last gs @ [r], False)]"
      using False by (simp add: place_def sheets_def)
    ultimately show ?thesis by auto
  qed
qed

lemma place_nonempty: "place c gs r \<noteq> []"
  by (simp add: place_def)

lemma WriteRows_writing:
  assumes "WriteRows L (writing (EscapeText L) cfg False (sheets gs) hdone t fl snk) rows = (Ok u, w')"
    and "gs \<noteq> []"
  shows "\<exists>fl' snk'. w' = writing (EscapeText L) cfg False
            (sheets (foldl (place (MaxRowsPerSheet cfg)) gs rows)) hdone (t + int (length rows)) fl' snk'"
  using assms
proof (induction rows arbitrary: gs t fl snk)
  case Nil
  then show ?case by auto
next
  case (Cons r rows)
  from Cons.prems(1) obtain w1 where
    1: "WriteRow L (writing (EscapeText L) cfg False (sheets gs) hdone t fl snk) r = (Ok (), w1)"
    and 2: "WriteRows L w1 rows = (Ok u, w')"
    by (auto split: prod.splits result.splits)
  from WriteRow_writing [OF 1 Cons.prems(2)] obtain fl1 snk1 where
    w1: "w1 = writing (EscapeText L) cfg False (sheets (place (MaxRowsPerSheet cfg) gs r)) hdone (t + 1) fl1 snk1"
    by auto
  from Cons.IH [OF 2 [unfolded w1] place_nonempty] show ?case
    by (simp add: add.assoc)
qed

lemma distribute_nonempty: "distribute c rows \<noteq> []"
proof (induction rows rule: rev_induct)
  case Nil
  then show ?case by (simp add: distribute_def)
next
  case (snoc r rows)
  then show ?case by (simp add: distribute_def place_nonempty)
qed

lemma headersDone_first:
  assumes "sheets_writers False ss = first # others"
  shows "first\<lparr>headersDone := True\<rparr> # others = sheets_writers True ss"
proof (rule nth_equalityI)
  from assms have "length (sheets_writers False ss) = Suc (length others)" by simp
  then have len: "length ss = Suc (length others)" by simp
  then show "length (first\<lparr>headersDone := True\<rparr> # others) = length (sheets_writers True ss)" by simp
  fix i assume "i < length (first\<lparr>headersDone := True\<rparr> # others)"
  then have i: "i < length ss" using len by simp
  from assms have "(first # others) ! i = sheets_writers False ss ! i" by simp
  with i show "(first\<lparr>headersDone := True\<rparr> # others) ! i = sheets_writers True ss ! i"
    by (cases i) (simp_all add: sheets_writers_def)
qed

lemma writeHeaders_writing:
  assumes "writeHeaders L (writing (EscapeText L) cfg False (sheets [[]]) False 0 fl snk) headers = (Ok u, w')"
  shows "\<exists>fl' snk'. w' = writing (EscapeText L) cfg False
            (sheets (distribute (MaxRowsPerSheet cfg) (header_rows headers)))
            (header_rows headers \<noteq> []) 0 fl' snk'"
proof (cases "length headers > 0 \<and> length (hd headers) > 0")
  case False
  with assms have "w' = writing (EscapeText L) cfg False (sheets [[]]) False 0 fl snk"
    by (auto simp add: writeHeaders_def)
  moreover from False have "header_rows headers = []" by (auto simp add: header_rows_def)
  ultimately show ?thesis by (auto simp add: distribute_def)
next
  case True
  then have hr: "header_rows headers = [hd headers]" by (simp add: header_rows_def)
  from assms True obtain w1 first others where
    1: "WriteRow L (writing (EscapeText L) cfg False (sheets [[]]) False 0 fl snk) (hd headers) = (Ok (), w1)"
    and sw: "sheetWriters w1 = first # others"
    and w': "w' = w1\<lparr>sheetWriters := first\<lparr>headersDone := True\<rparr> # others,
                         totalRows := totalRows w1 - 1\<rparr>"
    by (auto simp add: writeHeaders_def split: prod.splits result.splits list.splits)
  have "[[]] \<noteq> ([] :: cell list list list)" by simp
  from WriteRow_writing [OF 1 this] obtain fl1 snk1 where
    w1: "w1 = writing (EscapeText L) cfg False (sheets (place (MaxRowsPerSheet cfg) [[]] (hd headers))) False (0 + 1) fl1 snk1"
    by auto
  from sw have "sheets_writers False (sheets (place (MaxRowsPerSheet cfg) [[]] (hd headers))) = first # others"
    by (simp add: w1 writing_def)
  from headersDone_first [OF this]
  have "w' = writing (EscapeText L) cfg False (sheets (place (MaxRowsPerSheet cfg) [[]] (hd headers))) True 0 fl1 snk1"
    unfolding w' w1 by (simp add: writing_def)
  then show ?thesis by (auto simp add: hr distribute_def)
qed

lemma StartFile_writing:
  assumes "StartFile L (NewWriter snk [Some cfg]) headers = (Ok u, w')"
  shows "\<exists>fl' snk'. w' = writing (EscapeText L) cfg False
            (sheets (distribute (MaxRowsPerSheet cfg) (header_rows headers)))
            (header_rows headers \<noteq> []) 0 fl' snk'"
proof -
  let ?w0 = "(NewWriter snk [Some cfg])\<lparr>started := True, zipWriter := Some (zip_NewWriter (deflate_schedule L))\<rparr>"
  from assms obtain w1 w2 w3 where
    1: "writeZipFile ?w0 ''_rels/.rels'' relsXML = (Ok (), w1)"
    and 2: "writeZipFile w1 ''xl/styles.xml'' stylesXML = (Ok (), w2)"
    and 3: "startNewSheet w2 = (Ok (), w3)"
    and 4: "writeHeaders L w3 headers = (Ok u, w')"
    by (auto simp add: StartFile_def NewWriter_def split: prod.splits result.splits)
  have z0: "zipWriter ?w0 = Some (zip_NewWriter (deflate_schedule L))" by simp
  from writeZipFile_ok [OF 1 z0] obtain fl1 snk1 where
    w1: "w1 = ?w0\<lparr>zipWriter := Some ((zip_NewWriter (deflate_schedule L))\<lparr>flushes := fl1,
              dir := dir (zip_NewWriter (deflate_schedule L)) @ [\<lparr>ename = ''_rels/.rels'', chunks = [relsXML]\<rparr>]\<rparr>),
            sink := snk1\<rparr>"
    by auto
  let ?z1 = "\<lparr>dir = [\<lparr>ename = ''_rels/.rels'', chunks = [relsXML]\<rparr>], zclosed = False, flushes = fl1\<rparr>"
  have z1: "zipWriter w1 = Some ?z1" by (simp add: w1 zip_NewWriter_def)
  from writeZipFile_ok [OF 2 z1] obtain fl2 snk2 where
    w2: "w2 = w1\<lparr>zipWriter := Some (?z1\<lparr>flushes := fl2,
              dir := dir ?z1 @ [\<lparr>ename = ''xl/styles.xml'', chunks = [stylesXML]\<rparr>]\<rparr>),
            sink := snk2\<rparr>"
    by auto
  have w2': "w2 = writing (EscapeText L) cfg False [] False 0 fl2 snk2"
    unfolding w2 w1
    by (simp add: writing_def NewWriter_def static_entries_def sheets_dir_def sheets_writers_def)
  from startNewSheet_writing [OF 3 [unfolded w2']] obtain fl3 snk3 where
    "w3 = writing (EscapeText L) cfg False (close_last [] @ [([], False)]) False 0 fl3 snk3"
    by auto
  then have w3: "w3 = writing (EscapeText L) cfg False (sheets [[]]) False 0 fl3 snk3"
    by (simp add: close_last_def sheets_def)
  from writeHeaders_writing [OF 4 [unfolded w3]] show ?thesis .
qed

lemma close_last_sheets_all: "gs \<noteq> [] \<Longrightarrow> close_last (sheets gs) = all_closed gs"
proof -
  assume "gs \<noteq> []"
  then have "map (\<lambda>g. (g, True)) gs = map (\<lambda>g. (g, True)) (butlast gs @ [last gs])" by simp
  then show ?thesis by (simp add: close_last_sheets all_closed_def)
qed

lemma closeSink_ok:
  assumes "closeSink w = (Ok stats, w')"
  shows "stats = \<lparr>TotalRows = totalRows w, TotalSheets = int (length (sheetWriters w)), FileSize = 0\<rparr>
       \<and> w' = w\<lparr>sink := sink w'\<rparr>"
  using assms by (auto simp add: closeSink_def split: prod.splits option.splits)

lemma FinishFile_writing:
  assumes fin: "FinishFile (writing esc cfg False (sheets gs) hdone t fl snk) = (Ok stats, w')"
    and ne: "gs \<noteq> []"
  shows "stats = \<lparr>TotalRows = t, TotalSheets = int (length gs), FileSize = 0\<rparr>
       \<and> (\<exists>fl' snk'. w' = finished_writer esc cfg gs hdone t fl' snk')"
proof -
  let ?w = "writing esc cfg False (sheets gs) hdone t fl snk"
  have f: "?w\<lparr>finished := True\<rparr> = writing esc cfg True (sheets gs) hdone t fl snk"
    by (simp add: writing_def)
  have st: "started ?w" "\<not> finished ?w" by (simp_all add: writing_def)
  from fin have "(case closeLastSheet ''failed to write worksheet footer'' (?w\<lparr>finished := True\<rparr>) of
           (Fail err, w1) \<Rightarrow> (Fail err, w1)
         | (Panic p, w1) \<Rightarrow> (Panic p, w1)
         | (Ok u, w1) \<Rightarrow> writeManifests w1) = (Ok stats, w')"
    by (simp add: FinishFile_def st)
  then obtain w1 where
    1: "closeLastSheet ''failed to write worksheet footer'' (writing esc cfg True (sheets gs) hdone t fl snk) = (Ok (), w1)"
    and 2: "writeManifests w1 = (Ok stats, w')"
    unfolding f by (auto split: prod.splits result.splits)
  from closeLastSheet_writing [OF 1] obtain fl1 snk1 where
    w1: "w1 = writing esc cfg True (all_closed gs) hdone t fl1 snk1"
    by (auto simp add: close_last_sheets_all [OF ne])
  have n: "length (sheetWriters w1) = length gs" "SheetNamePrefix (config w1) = SheetNamePrefix cfg"
    by (simp_all add: w1 writing_def all_closed_def)
  from 2 obtain w2 w3 w4 w5 where
    a: "writeZipFile w1 ''xl/workbook.xml'' (generateWorkbookXML (int (length (sheetWriters w1))) (SheetNamePrefix (config w1))) = (Ok (), w2)"
    and b: "writeZipFile w2 ''xl/_rels/workbook.xml.rels'' (generateWorkbookRelsXML (int (length (sheetWriters w2)))) = (Ok (), w3)"
    and c: "writeZipFile w3 ''[Content_Types].xml'' (generateContentTypesXML (int (length (sheetWriters w3)))) = (Ok (), w4)"
    and d: "archive_Close w4 = (Ok (), w5)"
    and e: "closeSink w5 = (Ok stats, w')"
    by (auto simp add: writeManifests_def split: prod.splits result.splits)
  let ?z1 = "\<lparr>dir = static_entries @ sheets_dir esc (all_closed gs), zclosed = False, flushes = fl1\<rparr>"
  have z1: "zipWriter w1 = Some ?z1" by (simp add: w1 writing_def)
  from writeZipFile_ok [OF a z1] obtain fl2 snk2 where
    w2: "w2 = w1\<lparr>zipWriter := Some (?z1\<lparr>flushes := fl2,
              dir := dir ?z1 @ [\<lparr>ename = ''xl/workbook.xml'',
                 chunks = [generateWorkbookXML (int (length (sheetWriters w1))) (SheetNamePrefix (config w1))]\<rparr>]\<rparr>),
            sink := snk2\<rparr>"
    by auto
  let ?z2 = "\<lparr>dir = static_entries @ sheets_dir esc (all_closed gs) @
                 [\<lparr>ename = ''xl/workbook.xml'', chunks = [generateWorkbookXML (int (length gs)) (SheetNamePrefix cfg)]\<rparr>],
             zclosed = False, flushes = fl2\<rparr>"
  have z2: "zipWriter w2 = Some ?z2" by (simp add: w2 n)
  have n2: "length (sheetWriters w2) = length gs" by (simp add: w2 n)
  from writeZipFile_ok [OF b z2] obtain fl3 snk3 where
    w3: "w3 = w2\<lparr>zipWriter := Some (?z2\<lparr>flushes := fl3,
              dir := dir ?z2 @ [\<lparr>ename = ''xl/_rels/workbook.xml.rels'',
                 chunks = [generateWorkbookRelsXML (int (length (sheetWriters w2)))]\<rparr>]\<rparr>),
            sink := snk3\<rparr>"
    by auto
  let ?z3 = "\<lparr>dir = static_entries @ sheets_dir esc (all_closed gs) @
                 [\<lparr>ename = ''xl/workbook.xml'', chunks = [generateWorkbookXML (int (length gs)) (SheetNamePrefix cfg)]\<rparr>,
                  \<lparr>ename = ''xl/_rels/workbook.xml.rels'', chunks = [generateWorkbookRelsXML (int (length gs))]\<rparr>],
             zclosed = False, flushes = fl3\<rparr>"
  have z3: "zipWriter w3 = Some ?z3" by (simp add: w3 n2)
  have n3: "length (sheetWriters w3) = length gs" by (simp add: w3 n2)
  from writeZipFile_ok [OF c z3] obtain fl4 snk4 where
    w4: "w4 = w3\<lparr>zipWriter := Some (?z3\<lparr>flushes := fl4,
              dir := dir ?z3 @ [\<lparr>ename = ''[Content_Types].xml'',
                 chunks = [generateContentTypesXML (int (length (sheetWriters w3)))]\<rparr>]\<rparr>),
            sink := snk4\<rparr>"
    by auto
  let ?z4 = "\<lparr>dir = static_entries @ sheets_dir esc (all_closed gs) @ manifest_entries cfg (length gs),
             zclosed = False, flushes = fl4\<rparr>"
  have z4: "zipWriter w4 = Some ?z4" by (simp add: w4 n3 manifest_entries_def)
  from archive_Close_ok [OF d z4] obtain fl5 snk5 where
    w5: "w5 = w4\<lparr>zipWriter := Some (?z4\<lparr>flushes := fl5, zclosed := True\<rparr>), sink := snk5\<rparr>"
    by auto
  have w5': "w5 = finished_writer esc cfg gs hdone t fl5 snk5"
    unfolding w5 w4 w3 w2 w1 using ne
    by (simp add: finished_writer_def writing_def all_closed_def)
  from closeSink_ok [OF e] have st: "stats = \<lparr>TotalRows = totalRows w5, TotalSheets = int (length (sheetWriters w5)), FileSize = 0\<rparr>"
    and w': "w' = w5\<lparr>sink := sink w'\<rparr>" by simp_all
  have "w' = finished_writer esc cfg gs hdone t fl5 (sink w')"
    by (subst w') (simp add: w5' finished_writer_def)
  moreover have "stats = \<lparr>TotalRows = t, TotalSheets = int (length gs), FileSize = 0\<rparr>"
    by (simp add: st w5' finished_writer_def all_closed_def)
  ultimately show ?thesis by blast
qed

lemma distribute_append:
  "foldl (place c) (distribute c xs) ys = distribute c (xs @ ys)"
  by (simp add: distribute_def)

lemma export_ok:
  assumes "export L snk cfg headers rows = (Ok stats, w)"
  shows "stats = \<lparr>TotalRows = int (length rows),
                  TotalSheets = int (length (distribute (MaxRowsPerSheet cfg) (header_rows headers @ rows))),
                  FileSize = 0\<rparr>
       \<and> (\<exists>fl snk'. w = finished_writer (EscapeText L) cfg
              (distribute (MaxRowsPerSheet cfg) (header_rows headers @ rows))
              (header_rows headers \<noteq> []) (int (length rows)) fl snk')"
proof -
  from assms obtain w1 w2 where
    1: "StartFile L (NewWriter snk [Some cfg]) headers = (Ok (), w1)"
    and 2: "WriteRows L w1 rows = (Ok (), w2)"
    and 3: "FinishFile w2 = (Ok stats, w)"
    by (auto simp add: export_def split: prod.splits result.splits)
  from StartFile_writing [OF 1] obtain fl1 snk1 where
    w1: "w1 = writing (EscapeText L) cfg False
            (sheets (distribute (MaxRowsPerSheet cfg) (header_rows headers)))
            (header_rows headers \<noteq> []) 0 fl1 snk1"
    by auto
  from WriteRows_writing [OF 2 [unfolded w1] distribute_nonempty] obtain fl2 snk2 where
    w2: "w2 = writing (EscapeText L) cfg False
            (sheets (distribute (MaxRowsPerSheet cfg) (header_rows headers @ rows)))
            (header_rows headers \<noteq> []) (int (length rows)) fl2 snk2"
    by (auto simp add: distribute_append)
  from FinishFile_writing [OF 3 [unfolded w2] distribute_nonempty] show ?thesis by simp
qed

section \<open>What is observed of a finished writer\<close>

lemma is_worksheet_sheet_entry: "is_worksheet (sheet_entry esc i rows fin)"
  by (simp add: is_worksheet_def sheet_entry_def sheet_path_def sheetName_of_def)

lemma filter_sheets_dir: "filter is_worksheet (sheets_dir esc ss) = sheets_dir esc ss"
  by (simp add: sheets_dir_def is_worksheet_sheet_entry)

lemma worksheet_entries_finished:
  "worksheet_entries (finished_writer esc cfg gs hdone t fl snk) = sheets_dir esc (all_closed gs)"
  by (simp add: worksheet_entries_def archive_def finished_writer_def filter_sheets_dir
      static_entries_def manifest_entries_def is_worksheet_def)

lemma is_row_chunk_generateRow: "is_row_chunk (generateRow esc j r @ x)"
  by (simp add: is_row_chunk_def generateRow_def)

lemma filter_row_chunks: "filter is_row_chunk (row_chunks esc rows) = row_chunks esc rows"
  by (simp add: row_chunks_def is_row_chunk_generateRow)

lemma entry_rows_sheet_entry: "entry_rows (sheet_entry esc i rows fin) = length rows"
  by (simp add: entry_rows_def sheet_entry_def filter_row_chunks)
     (simp add: is_row_chunk_def worksheetHeader_def worksheetFooter_def row_chunks_def)

lemma map_entry_rows_sheets_dir:
  "map entry_rows (sheets_dir esc (all_closed gs)) = map length gs"
  by (rule nth_equalityI) (simp_all add: sheets_dir_def all_closed_def entry_rows_sheet_entry)

lemma map_rowCount_sheets_writers:
  "map rowCount (sheets_writers hdone (all_closed gs)) = map (\<lambda>g. int (length g)) gs"
  by (rule nth_equalityI) (simp_all add: sheets_writers_def all_closed_def)

section \<open>The sizes of the groups\<close>

lemma distribute_snoc: "distribute c (rows @ [r]) = place c (distribute c rows) r"
  by (simp add: distribute_def)

lemma distribute_ne: "distribute c rows \<noteq> []"
  by (induction rows rule: rev_induct) (simp_all add: distribute_def place_def)

lemma concat_distribute: "concat (distribute c rows) = rows"
proof (induction rows rule: rev_induct)
  case Nil
  then show ?case by (simp add: distribute_def)
next
  case (snoc r rows)
  let ?gs = "distribute c rows"
  have "?gs = butlast ?gs @ [last ?gs]" using distribute_ne [of c rows] by simp
  then have "concat ?gs = concat (butlast ?gs @ [last ?gs])" by simp
  then have "concat ?gs = concat (butlast ?gs) @ last ?gs" by simp
  then have "concat (place c ?gs r) = concat ?gs @ [r]"
    by (simp add: place_def)
  with snoc show ?case by (simp add: distribute_snoc)
qed

lemma counts_ne: "counts c n \<noteq> []"
  by (simp add: counts_def)

lemma last_counts: "last (counts c n) = (if n = 0 then 0 else n - ((n - 1) div c) * c)"
  by (simp add: counts_def)

lemma butlast_counts: "butlast (counts c n) = (if n = 0 then [] else replicate ((n - 1) div c) c)"
  by (simp add: counts_def butlast_append)

lemma counts_Suc:
  assumes c: "0 < c"
  shows "counts c (Suc n) =
     (if last (counts c n) \<ge> c then counts c n @ [1] else butlast (counts c n) @ [last (counts c n) + 1])"
proof (cases "n = 0")
  case True
  with c show ?thesis by (simp add: counts_def)
next
  case False
  define q where "q = (n - 1) div c"
  define m where "m = q * c"
  have lo: "m \<le> n - 1" by (simp add: q_def m_def)
  have "n - 1 < c + c * q"
    unfolding q_def using c by (rule dividend_less_times_div)
  then have hi: "n - 1 < m + c" by (simp add: m_def algebra_simps)
  from False lo have lo': "m < n" by arith
  from hi False have hi': "n \<le> m + c" by arith
  have cn: "counts c n = replicate q c @ [n - m]"
    using False by (simp add: counts_def q_def m_def)
  show ?thesis
  proof (cases "n - m \<ge> c")
    case True
    with hi' lo' have eq: "n = m + c" by arith
    then have "n = (q + 1) * c" by (simp add: m_def)
    then have d: "n div c = q + 1" using c by simp
    have "Suc n - (q + 1) * c = 1" using eq by (simp add: m_def)
    then have "counts c (Suc n) = replicate (q + 1) c @ [1]"
      using d by (simp add: counts_def)
    moreover have "n - m = c" using eq by simp
    then have "counts c n @ [1] = replicate (q + 1) c @ [1]"
      unfolding cn by (simp add: replicate_append_same)
    ultimately show ?thesis using True by (simp add: cn)
  next
    case False
    then have lt: "n < m + c" by arith
    have "n div c = q"
    proof (rule div_nat_eqI)
      show "c * q \<le> n" using lo' by (simp add: m_def mult.commute)
      show "n < c * Suc q" using lt by (simp add: m_def mult.commute)
    qed
    then have "counts c (Suc n) = replicate q c @ [Suc n - m]"
      by (simp add: counts_def m_def)
    moreover have "Suc n - m = n - m + 1" using lo' by arith
    ultimately show ?thesis using False by (simp add: cn)
  qed
qed

lemma map_length_place:
  assumes "gs \<noteq> []"
  shows "map length (place c gs r) =
     (if int (last (map length gs)) \<ge> c then map length gs @ [1]
      else butlast (map length gs) @ [last (map length gs) + 1])"
  using assms by (simp add: place_def last_map map_butlast)

lemma map_length_distribute:
  assumes c: "1 \<le> c"
  shows "map length (distribute c rows) = counts (nat c) (length rows)"
proof (induction rows rule: rev_induct)
  case Nil
  then show ?case by (simp add: distribute_def counts_def)
next
  case (snoc r rows)
  have nc: "0 < nat c" using c by simp
  have cmp: "\<And>k. (int k \<ge> c) = (k \<ge> nat c)" using c by auto
  show ?case
    unfolding distribute_snoc map_length_place [OF distribute_ne] snoc.IH
    by (simp add: counts_Suc [OF nc] cmp)
qed

lemma sum_counts:
  assumes "0 < c"
  shows "sum_list (counts c n) = n"
proof (cases "n = 0")
  case True
  then show ?thesis by (simp add: counts_def)
next
  case False
  define m where "m = ((n - 1) div c) * c"
  have "m \<le> n - 1" by (simp add: m_def)
  with False have "m + (n - m) = n" by arith
  with False show ?thesis by (simp add: counts_def sum_list_replicate m_def)
qed

lemma length_counts:
  assumes c: "0 < c"
  shows "length (counts c n) = (if n = 0 then 1 else ceil_div n c)"
proof (cases "n = 0")
  case True
  then show ?thesis by (simp add: counts_def)
next
  case False
  then have "n + c - 1 = (n - 1) + c" by arith
  moreover have "((n - 1) + c) div c = (n - 1) div c + 1" using c by (simp add: div_add_self2)
  ultimately have "ceil_div n c = (n - 1) div c + 1" by (simp only: ceil_div_def)
  with False show ?thesis by (simp add: counts_def)
qed

lemma counts_le:
  assumes c: "0 < c" and k: "k \<in> set (counts c n)"
  shows "k \<le> c"
proof -
  define q where "q = (n - 1) div c"
  have "n - 1 < c + c * q"
    unfolding q_def using c by (rule dividend_less_times_div)
  then have "n - 1 < q * c + c" by (simp add: algebra_simps)
  then have "n - q * c \<le> c" by arith
  with k show ?thesis by (auto simp add: counts_def q_def split: if_splits)
qed

lemma ceil_div_is_ceiling:
  assumes c: "0 < c" and n: "0 < n"
  shows "(ceil_div n c - 1) * c < n \<and> n \<le> ceil_div n c * c"
proof -
  define q where "q = (n - 1) div c"
  from n have "n + c - 1 = (n - 1) + c" by arith
  moreover have "((n - 1) + c) div c = (n - 1) div c + 1" using c by (simp add: div_add_self2)
  ultimately have e: "ceil_div n c = q + 1" by (simp only: ceil_div_def q_def)
  have "q * c \<le> n - 1" by (simp add: q_def)
  with n have 1: "q * c < n" by arith
  have "n - 1 < c + c * q"
    unfolding q_def using c by (rule dividend_less_times_div)
  then have "n - 1 < q * c + c" by (simp add: algebra_simps)
  then have 2: "n \<le> (q + 1) * c" by (simp add: algebra_simps)
  from 1 2 show ?thesis unfolding e by simp
qed


lemma counts_10: "counts 10 10 = [10]" "counts 10 11 = [10, 1]" "counts 10 25 = [10, 10, 5]"
  by code_simp+

lemma distribute_small: "int (length rows) \<le> c \<Longrightarrow> distribute c rows = [rows]"
proof (induction rows rule: rev_induct)
  case Nil
  then show ?case by (simp add: distribute_def)
next
  case (snoc r rows)
  then have "distribute c rows = [rows]" by simp
  with snoc.prems show ?case by (simp add: distribute_snoc place_def)
qed

lemma row_chunks_Cons:
  "row_chunks esc (h # rows) =
     (generateRow esc 0 h @ ''\<newline>'') #
       map (\<lambda>j. generateRow esc (int j + 1) (rows ! j) @ ''\<newline>'') [0..<length rows]"
proof -
  have "[0..<length (h # rows)] = 0 # map Suc [0..<length rows]"
    by (simp add: upt_conv_Cons map_Suc_upt del: upt_Suc)
  then show ?thesis
    by (simp add: row_chunks_def comp_def add.commute del: upt_Suc)
qed

section \<open>An export to a healthy file succeeds\<close>

lemma Sink_Write_healthy:
  assumes "healthy_file s"
  shows "\<exists>s'. Sink_Write s bs = ((int (length bs), None), s') \<and> healthy_file s'"
proof -
  from assms obtain fs f where s: "s = LocalFile fs" and f: "file0 fs = Some f"
    and h: "\<not> fclosed f" "\<And>held p. onWrite f held p = None" "\<And>held. onFileClose f held = None"
    by (auto simp add: healthy_file_def split: Sink.splits option.splits)
  have "Sink_Write s bs = ((int (length bs), None), LocalFile (fs\<lparr>file0 := Some (f\<lparr>written := written f @ bs\<rparr>)\<rparr>))"
    by (simp add: s f h FileSink_Write_def File_Write_def)
  moreover have "healthy_file (LocalFile (fs\<lparr>file0 := Some (f\<lparr>written := written f @ bs\<rparr>)\<rparr>))"
    by (simp add: healthy_file_def h)
  ultimately show ?thesis by blast
qed

lemma Sink_Close_healthy:
  assumes "healthy_file s"
  shows "\<exists>s'. Sink_Close s = (None, s')"
proof -
  from assms obtain fs f where s: "s = LocalFile fs" and f: "file0 fs = Some f"
    and h: "\<not> fclosed f" "\<And>held. onFileClose f held = None"
    by (auto simp add: healthy_file_def split: Sink.splits option.splits)
  show ?thesis by (simp add: s f h FileSink_Close_def File_Close_def)
qed

lemma zip_flush_healthy:
  assumes "healthy_file s"
  shows "\<exists>z' s'. zip_flush z s = (None, z', s') \<and> healthy_file s'"
proof (cases "flushes z")
  case Nil
  with assms show ?thesis by (simp add: zip_flush_def)
next
  case (Cons bs rest)
  from Sink_Write_healthy [OF assms, of bs] obtain s' where
    "Sink_Write s bs = ((int (length bs), None), s')" "healthy_file s'" by blast
  with Cons assms show ?thesis by (simp add: zip_flush_def)
qed

lemma entry_Write_healthy:
  assumes "zipWriter w = Some z" "\<not> zclosed z" "Suc h = length (dir z)" "healthy_file (sink w)"
  shows "\<exists>w'. entry_Write w h d = (Ok (), w') \<and> healthy_file (sink w')"
proof -
  from zip_flush_healthy [OF assms(4), of z] obtain z' s' where
    "zip_flush z (sink w) = (None, z', s')" "healthy_file s'" by blast
  with assms show ?thesis by (simp add: entry_Write_def zip_Write_def)
qed

lemma archive_Create_healthy:
  assumes "zipWriter w = Some z" "level_ok (config w)" "healthy_file (sink w)"
  shows "\<exists>h w'. archive_Create w name = (Ok h, w') \<and> healthy_file (sink w')"
proof -
  from zip_flush_healthy [OF assms(3), of z] obtain z' s' where
    "zip_flush z (sink w) = (None, z', s')" "healthy_file s'" by blast
  with assms show ?thesis by (simp add: archive_Create_def zip_Create_def level_ok_def)
qed

lemma archive_Close_healthy:
  assumes "zipWriter w = Some z" "\<not> zclosed z" "healthy_file (sink w)"
  shows "\<exists>w'. archive_Close w = (Ok (), w') \<and> healthy_file (sink w')"
proof -
  from zip_flush_healthy [OF assms(3), of "z\<lparr>zclosed := True\<rparr>"] obtain z' s' where
    "zip_flush (z\<lparr>zclosed := True\<rparr>) (sink w) = (None, z', s')" "healthy_file s'" by blast
  with assms show ?thesis by (simp add: archive_Close_def zip_Close_def)
qed

lemma writeZipFile_healthy:
  assumes z: "zipWriter w = Some z" and nc: "\<not> zclosed z" and lv: "level_ok (config w)"
    and hs: "healthy_file (sink w)"
  shows "\<exists>w'. writeZipFile w name d = (Ok (), w') \<and> healthy_file (sink w')"
proof -
  from archive_Create_healthy [OF z lv hs, of name] obtain h w1 where
    c: "archive_Create w name = (Ok h, w1)" and h1: "healthy_file (sink w1)" by blast
  from archive_Create_ok [OF c z] obtain fl1 snk1 where h: "h = length (dir z)"
    and w1: "w1 = w\<lparr>zipWriter := Some (z\<lparr>flushes := fl1,
              dir := dir z @ [\<lparr>ename = name, chunks = []\<rparr>]\<rparr>), sink := snk1\<rparr>"
    by auto
  have z1: "zipWriter w1 = Some (z\<lparr>flushes := fl1, dir := dir z @ [\<lparr>ename = name, chunks = []\<rparr>]\<rparr>)"
    by (simp add: w1)
  from entry_Write_healthy [OF z1 _ _ h1, of h d] nc h obtain w' where
    "entry_Write w1 h d = (Ok (), w')" "healthy_file (sink w')" by auto
  with c show ?thesis by (simp add: writeZipFile_def)
qed

lemma sink_writing [simp]: "sink (writing esc cfg fin ss hdone t fl snk) = snk"
  by (simp add: writing_def)

lemma config_writing [simp]: "config (writing esc cfg fin ss hdone t fl snk) = cfg"
  by (simp add: writing_def)

lemma closeLastSheet_healthy:
  assumes hs: "healthy_file snk"
  shows "\<exists>fl' snk'. closeLastSheet msg (writing esc cfg fin ss hdone t fl snk)
            = (Ok (), writing esc cfg fin (close_last ss) hdone t fl' snk') \<and> healthy_file snk'"
proof (cases "ss = [] \<or> snd (last ss)")
  case True
  then have "close_last ss = ss"
    by (cases ss rule: rev_cases) (auto simp add: close_last_def)
  with closeLastSheet_writing_closed [OF True] hs show ?thesis by auto
next
  case False
  then obtain ss0 rows where ss: "ss = ss0 @ [(rows, False)]"
    by (cases ss rule: rev_cases) auto
  let ?w = "writing esc cfg fin ss hdone t fl snk"
  have sw: "sheetWriters ?w = sheets_writers hdone ss0 @
       [\<lparr>writer = length ss0 + 2, rowCount = int (length rows), sheetIndex = int (length ss0),
         headersDone = (hdone \<and> length ss0 = 0), closed = False\<rparr>]"
    by (simp add: writing_def ss sheets_writers_snoc)
  from entry_Write_healthy [where w = ?w and h = "length ss0 + 2" and d = worksheetFooter,
      OF zipWriter_writing] hs
  obtain w1 where e: "entry_Write ?w (length ss0 + 2) worksheetFooter = (Ok (), w1)"
    and h1: "healthy_file (sink w1)"
    by (auto simp add: ss)
  then obtain w' where c: "closeLastSheet msg ?w = (Ok (), w')" and s': "sink w' = sink w1"
    by (simp add: closeLastSheet_def sw)
  from closeLastSheet_writing [OF c] obtain fl' snk' where
    w': "w' = writing esc cfg fin (close_last ss) hdone t fl' snk'" by auto
  with s' h1 have "healthy_file snk'" by simp
  with c w' show ?thesis by auto
qed

lemma startNewSheet_healthy:
  assumes hs: "healthy_file snk" and lv: "level_ok cfg" and hd: "ss = [] \<longrightarrow> \<not> hdone"
  shows "\<exists>fl' snk'. startNewSheet (writing esc cfg fin ss hdone t fl snk)
            = (Ok (), writing esc cfg fin (close_last ss @ [([], False)]) hdone t fl' snk')
          \<and> healthy_file snk'"
proof -
  let ?w = "writing esc cfg fin ss hdone t fl snk"
  from closeLastSheet_healthy [OF hs] obtain fl1 snk1 where
    c: "closeLastSheet ''failed to close previous sheet'' ?w
          = (Ok (), writing esc cfg fin (close_last ss) hdone t fl1 snk1)"
    and h1: "healthy_file snk1" by blast
  let ?w1 = "writing esc cfg fin (close_last ss) hdone t fl1 snk1"
  from archive_Create_healthy [where w = ?w1
      and name = "sheetName_of (int (length (sheetWriters ?w1)) + 1)", OF zipWriter_writing] lv h1
  obtain h w2 where cr: "archive_Create ?w1 (sheetName_of (int (length (sheetWriters ?w1)) + 1)) = (Ok h, w2)"
    and h2: "healthy_file (sink w2)"
    by auto
  from archive_Create_ok [OF cr zipWriter_writing] obtain fl2 snk2 where
    h: "h = length (static_entries @ sheets_dir esc (close_last ss))"
    and w2: "w2 = ?w1\<lparr>zipWriter := Some (\<lparr>dir = static_entries @ sheets_dir esc (close_last ss), zclosed = False, flushes = fl1\<rparr>
               \<lparr>flushes := fl2,
                dir := dir \<lparr>dir = static_entries @ sheets_dir esc (close_last ss), zclosed = False, flushes = fl1\<rparr> @
                   [\<lparr>ename = sheetName_of (int (length (sheetWriters ?w1)) + 1), chunks = []\<rparr>]\<rparr>), sink := snk2\<rparr>"
    by auto
  have z2: "zipWriter w2 = Some \<lparr>dir = static_entries @ sheets_dir esc (close_last ss) @
                   [\<lparr>ename = sheetName_of (int (length (sheetWriters ?w1)) + 1), chunks = []\<rparr>],
                  zclosed = False, flushes = fl2\<rparr>"
    by (simp add: w2)
  from entry_Write_healthy [OF z2 _ _ h2, of h "worksheetHeader @ ''\<newline>''"] h
  obtain w3 where hw: "entry_Write w2 h (worksheetHeader @ ''\<newline>'') = (Ok (), w3)"
    and h3: "healthy_file (sink w3)"
    by auto
  from c cr hw obtain w' where sn: "startNewSheet ?w = (Ok (), w')" and s': "sink w' = sink w3"
    by (simp add: startNewSheet_def Let_def)
  from startNewSheet_writing [OF sn hd] obtain fl' snk' where
    w': "w' = writing esc cfg fin (close_last ss @ [([], False)]) hdone t fl' snk'" by auto
  with s' h3 have "healthy_file snk'" by simp
  with sn w' show ?thesis by auto
qed

lemma appendRow_healthy:
  assumes hs: "healthy_file snk"
  shows "\<exists>fl' snk'. appendRow L (writing (EscapeText L) cfg fin (ss @ [(rows, False)]) hdone t fl snk) r
            = (Ok (), writing (EscapeText L) cfg fin (ss @ [(rows @ [r], False)]) hdone (t + 1) fl' snk')
          \<and> healthy_file snk'"
proof -
  let ?w = "writing (EscapeText L) cfg fin (ss @ [(rows, False)]) hdone t fl snk"
  from entry_Write_healthy [where w = ?w and h = "length ss + 2"
      and d = "generateRow (EscapeText L) (int (length rows)) r @ ''\<newline>''", OF zipWriter_writing] hs
  obtain w1 where e: "entry_Write ?w (length ss + 2)
        (generateRow (EscapeText L) (int (length rows)) r @ ''\<newline>'') = (Ok (), w1)"
    and h1: "healthy_file (sink w1)"
    by auto
  then obtain w' where a: "appendRow L ?w r = (Ok (), w')" and s': "sink w' = sink w1"
    by (simp add: appendRow_def currentWriter_writing)
  from appendRow_writing [OF a] obtain fl' snk' where
    w': "w' = writing (EscapeText L) cfg fin (ss @ [(rows @ [r], False)]) hdone (t + 1) fl' snk'" by auto
  with s' h1 have "healthy_file snk'" by simp
  with a w' show ?thesis by auto
qed


lemma WriteRow_healthy:
  assumes hs: "healthy_file snk" and lv: "level_ok cfg" and ne: "gs \<noteq> []"
  shows "\<exists>fl' snk'. WriteRow L (writing (EscapeText L) cfg False (sheets gs) hdone t fl snk) r
            = (Ok (), writing (EscapeText L) cfg False (sheets (place (MaxRowsPerSheet cfg) gs r))
                 hdone (t + 1) fl' snk')
          \<and> healthy_file snk'"
proof -
  let ?esc = "EscapeText L"
  let ?ss0 = "map (\<lambda>g. (g, True)) (butlast gs)"
  let ?w = "writing ?esc cfg False (sheets gs) hdone t fl snk"
  have ss: "sheets gs = ?ss0 @ [(last gs, False)]" by (simp add: sheets_def)
  have flags: "started ?w" "\<not> finished ?w" by (simp_all add: writing_def)
  have cur: "currentWriter ?w = Some \<lparr>writer = length ?ss0 + 2, rowCount = int (length (last gs)),
       sheetIndex = int (length ?ss0), headersDone = (hdone \<and> length ?ss0 = 0), closed = False\<rparr>"
    unfolding ss by (rule currentWriter_writing)
  have "\<exists>w'. WriteRow L ?w r = (Ok (), w') \<and> healthy_file (sink w')"
  proof (cases "int (length (last gs)) \<ge> MaxRowsPerSheet cfg")
    case True
    have "sheets gs = [] \<longrightarrow> \<not> hdone" by (simp add: sheets_def)
    from startNewSheet_healthy [OF hs lv this] obtain fl1 snk1 where
      sn: "startNewSheet ?w = (Ok (), writing ?esc cfg False (close_last (sheets gs) @ [([], False)]) hdone t fl1 snk1)"
      and h1: "healthy_file snk1" by blast
    from appendRow_healthy [OF h1] obtain fl2 snk2 where
      "appendRow L (writing ?esc cfg False (close_last (sheets gs) @ [([], False)]) hdone t fl1 snk1) r
        = (Ok (), writing ?esc cfg False (close_last (sheets gs) @ [([] @ [r], False)]) hdone (t + 1) fl2 snk2)"
      and "healthy_file snk2" by blast
    with sn True show ?thesis by (simp add: WriteRow_def flags cur)
  next
    case False
    from appendRow_healthy [OF hs] obtain fl2 snk2 where
      "appendRow L (writing ?esc cfg False (?ss0 @ [(last gs, False)]) hdone t fl snk) r
        = (Ok (), writing ?esc cfg False (?ss0 @ [(last gs @ [r], False)]) hdone (t + 1) fl2 snk2)"
      and "healthy_file snk2" by blast
    with False show ?thesis by (simp add: WriteRow_def flags cur ss [symmetric])
  qed
  then obtain w' where wr: "WriteRow L ?w r = (Ok (), w')" and h': "healthy_file (sink w')" by blast
  from WriteRow_writing [OF wr ne] obtain fl' snk' where
    w': "w' = writing ?esc cfg False (sheets (place (MaxRowsPerSheet cfg) gs r)) hdone (t + 1) fl' snk'"
    by auto
  with h' have "healthy_file snk'" by simp
  with wr w' show ?thesis by auto
qed

lemma WriteRows_healthy:
  assumes "healthy_file snk" and lv: "level_ok cfg" and "gs \<noteq> []"
  shows "\<exists>fl' snk'. WriteRows L (writing (EscapeText L) cfg False (sheets gs) hdone t fl snk) rows
            = (Ok (), writing (EscapeText L) cfg False
                 (sheets (foldl (place (MaxRowsPerSheet cfg)) gs rows)) hdone (t + int (length rows)) fl' snk')
          \<and> healthy_file snk'"
  using assms(1,3)
proof (induction rows arbitrary: gs t fl snk)
  case Nil
  then show ?case by auto
next
  case (Cons r rows)
  from WriteRow_healthy [OF Cons.prems(1) lv Cons.prems(2)] obtain fl1 snk1 where
    1: "WriteRow L (writing (EscapeText L) cfg False (sheets gs) hdone t fl snk) r
            = (Ok (), writing (EscapeText L) cfg False (sheets (place (MaxRowsPerSheet cfg) gs r))
                 hdone (t + 1) fl1 snk1)"
    and h1: "healthy_file snk1" by blast
  from Cons.IH [OF h1 place_nonempty] obtain fl2 snk2 where
    "WriteRows L (writing (EscapeText L) cfg False (sheets (place (MaxRowsPerSheet cfg) gs r))
                 hdone (t + 1) fl1 snk1) rows
       = (Ok (), writing (EscapeText L) cfg False
            (sheets (foldl (place (MaxRowsPerSheet cfg)) (place (MaxRowsPerSheet cfg) gs r) rows))
            hdone (t + 1 + int (length rows)) fl2 snk2)"
    and "healthy_file snk2" by blast
  with 1 show ?case by (auto simp add: add.assoc)
qed

lemma writeHeaders_healthy:
  assumes hs: "healthy_file snk" and lv: "level_ok cfg"
  shows "\<exists>w'. writeHeaders L (writing (EscapeText L) cfg False (sheets [[]]) False 0 fl snk) headers = (Ok (), w')
          \<and> healthy_file (sink w')"
proof (cases "length headers > 0 \<and> length (hd headers) > 0")
  case False
  with hs show ?thesis by (auto simp add: writeHeaders_def)
next
  case True
  have "[[]] \<noteq> ([] :: cell list list list)" by simp
  from WriteRow_healthy [OF hs lv this] obtain fl1 snk1 where
    1: "WriteRow L (writing (EscapeText L) cfg False (sheets [[]]) False 0 fl snk) (hd headers)
            = (Ok (), writing (EscapeText L) cfg False (sheets (place (MaxRowsPerSheet cfg) [[]] (hd headers)))
                 False (0 + 1) fl1 snk1)"
    and h1: "healthy_file snk1" by blast
  have "sheetWriters (writing (EscapeText L) cfg False (sheets (place (MaxRowsPerSheet cfg) [[]] (hd headers)))
                 False (0 + 1) fl1 snk1) \<noteq> []"
    by (simp add: writing_def sheets_def sheets_writers_def)
  then obtain first others where
    "sheetWriters (writing (EscapeText L) cfg False (sheets (place (MaxRowsPerSheet cfg) [[]] (hd headers)))
                 False (0 + 1) fl1 snk1) = first # others"
    by (cases "sheetWriters (writing (EscapeText L) cfg False (sheets (place (MaxRowsPerSheet cfg) [[]] (hd headers)))
                 False (0 + 1) fl1 snk1)") auto
  with 1 True h1 show ?thesis by (simp add: writeHeaders_def)
qed

lemma StartFile_healthy:
  assumes hs: "healthy_file snk" and lv: "level_ok cfg"
  shows "\<exists>w'. StartFile L (NewWriter snk [Some cfg]) headers = (Ok (), w') \<and> healthy_file (sink w')"
proof -
  let ?w0 = "(NewWriter snk [Some cfg])\<lparr>started := True, zipWriter := Some (zip_NewWriter (deflate_schedule L))\<rparr>"
  have z0: "zipWriter ?w0 = Some (zip_NewWriter (deflate_schedule L))" by simp
  have nc0: "\<not> zclosed (zip_NewWriter (deflate_schedule L))" by (simp add: zip_NewWriter_def)
  have lv0: "level_ok (config ?w0)" using lv by (simp add: NewWriter_def)
  have hs0: "healthy_file (sink ?w0)" using hs by (simp add: NewWriter_def)
  from writeZipFile_healthy [OF z0 nc0 lv0 hs0] obtain w1 where
    1: "writeZipFile ?w0 ''_rels/.rels'' relsXML = (Ok (), w1)" and h1: "healthy_file (sink w1)" by blast
  from writeZipFile_ok [OF 1 z0] obtain fl1 snk1 where
    w1: "w1 = ?w0\<lparr>zipWriter := Some ((zip_NewWriter (deflate_schedule L))\<lparr>flushes := fl1,
              dir := dir (zip_NewWriter (deflate_schedule L)) @ [\<lparr>ename = ''_rels/.rels'', chunks = [relsXML]\<rparr>]\<rparr>),
            sink := snk1\<rparr>"
    by auto
  let ?z1 = "\<lparr>dir = [\<lparr>ename = ''_rels/.rels'', chunks = [relsXML]\<rparr>], zclosed = False, flushes = fl1\<rparr>"
  have z1: "zipWriter w1 = Some ?z1" by (simp add: w1 zip_NewWriter_def)
  have lv1: "level_ok (config w1)" using lv by (simp add: w1 NewWriter_def)
  from writeZipFile_healthy [OF z1 _ lv1 h1] obtain w2 where
    2: "writeZipFile w1 ''xl/styles.xml'' stylesXML = (Ok (), w2)" and h2: "healthy_file (sink w2)" by auto
  from writeZipFile_ok [OF 2 z1] obtain fl2 snk2 where
    w2: "w2 = w1\<lparr>zipWriter := Some (?z1\<lparr>flushes := fl2,
              dir := dir ?z1 @ [\<lparr>ename = ''xl/styles.xml'', chunks = [stylesXML]\<rparr>]\<rparr>),
            sink := snk2\<rparr>"
    by auto
  have w2': "w2 = writing (EscapeText L) cfg False [] False 0 fl2 snk2"
    unfolding w2 w1
    by (simp add: writing_def NewWriter_def static_entries_def sheets_dir_def sheets_writers_def)
  from h2 have h2': "healthy_file snk2" by (simp add: w2')
  from startNewSheet_healthy [OF h2' lv, of "[]" False "EscapeText L" False 0 fl2] obtain fl3 snk3 where
    3: "startNewSheet w2 = (Ok (), writing (EscapeText L) cfg False (sheets [[]]) False 0 fl3 snk3)"
    and h3: "healthy_file snk3"
    by (auto simp add: w2' close_last_def sheets_def)
  from writeHeaders_healthy [OF h3 lv] obtain w' where
    4: "writeHeaders L (writing (EscapeText L) cfg False (sheets [[]]) False 0 fl3 snk3) headers = (Ok (), w')"
    and h': "healthy_file (sink w')" by blast
  have "\<not> started (NewWriter snk [Some cfg])" by (simp add: NewWriter_def)
  with 1 2 3 4 have "StartFile L (NewWriter snk [Some cfg]) headers = (Ok (), w')"
    by (simp add: StartFile_def)
  with h' show ?thesis by blast
qed

lemma FinishFile_healthy:
  assumes hs: "healthy_file snk" and lv: "level_ok cfg" and ne: "gs \<noteq> []"
  shows "\<exists>stats w'. FinishFile (writing esc cfg False (sheets gs) hdone t fl snk) = (Ok stats, w')"
proof -
  let ?w = "writing esc cfg False (sheets gs) hdone t fl snk"
  have f: "?w\<lparr>finished := True\<rparr> = writing esc cfg True (sheets gs) hdone t fl snk"
    by (simp add: writing_def)
  have st: "started ?w" "\<not> finished ?w" by (simp_all add: writing_def)
  from closeLastSheet_healthy [OF hs] obtain fl1 snk1 where
    1: "closeLastSheet ''failed to write worksheet footer'' (writing esc cfg True (sheets gs) hdone t fl snk)
          = (Ok (), writing esc cfg True (close_last (sheets gs)) hdone t fl1 snk1)"
    and h1: "healthy_file snk1" by blast
  let ?w1 = "writing esc cfg True (close_last (sheets gs)) hdone t fl1 snk1"
  have z1: "zipWriter ?w1 = Some \<lparr>dir = static_entries @ sheets_dir esc (close_last (sheets gs)), zclosed = False, flushes = fl1\<rparr>"
    by (rule zipWriter_writing)
  have lv1: "level_ok (config ?w1)" "healthy_file (sink ?w1)" using lv h1 by simp_all
  from writeZipFile_healthy [OF z1 _ lv1] obtain w2 where
    a: "writeZipFile ?w1 ''xl/workbook.xml'' (generateWorkbookXML (int (length (sheetWriters ?w1))) (SheetNamePrefix (config ?w1))) = (Ok (), w2)"
    and h2: "healthy_file (sink w2)" by auto
  from writeZipFile_ok [OF a z1] obtain fl2 snk2 z2 where
    z2: "zipWriter w2 = Some z2" "\<not> zclosed z2" and c2: "config w2 = cfg"
    by auto
  have lv2: "level_ok (config w2)" using lv c2 by simp
  from writeZipFile_healthy [OF z2 lv2 h2] obtain w3 where
    b: "writeZipFile w2 ''xl/_rels/workbook.xml.rels'' (generateWorkbookRelsXML (int (length (sheetWriters w2)))) = (Ok (), w3)"
    and h3: "healthy_file (sink w3)" by blast
  from writeZipFile_ok [OF b z2(1)] z2(2) c2 obtain z3 where
    z3: "zipWriter w3 = Some z3" "\<not> zclosed z3" and c3: "config w3 = cfg"
    by auto
  have lv3: "level_ok (config w3)" using lv c3 by simp
  from writeZipFile_healthy [OF z3 lv3 h3] obtain w4 where
    c: "writeZipFile w3 ''[Content_Types].xml'' (generateContentTypesXML (int (length (sheetWriters w3)))) = (Ok (), w4)"
    and h4: "healthy_file (sink w4)" by blast
  from writeZipFile_ok [OF c z3(1)] z3(2) obtain z4 where
    z4: "zipWriter w4 = Some z4" "\<not> zclosed z4"
    by auto
  from archive_Close_healthy [OF z4 h4] obtain w5 where
    d: "archive_Close w4 = (Ok (), w5)" and h5: "healthy_file (sink w5)" by blast
  from Sink_Close_healthy [OF h5] obtain s' where "Sink_Close (sink w5) = (None, s')" by blast
  then obtain stats w' where e: "closeSink w5 = (Ok stats, w')"
    by (simp add: closeSink_def)
  from a b c d e have "writeManifests ?w1 = (Ok stats, w')"
    by (simp add: writeManifests_def)
  with 1 have "FinishFile ?w = (Ok stats, w')"
    by (simp add: FinishFile_def st f)
  then show ?thesis by blast
qed

lemma export_succeeds:
  assumes hs: "healthy_file snk" and lv: "level_ok cfg"
  shows "\<exists>stats w. export L snk cfg headers rows = (Ok stats, w)"
proof -
  from StartFile_healthy [OF hs lv] obtain w1 where
    1: "StartFile L (NewWriter snk [Some cfg]) headers = (Ok (), w1)" and h1: "healthy_file (sink w1)"
    by blast
  from StartFile_writing [OF 1] obtain fl1 snk1 where
    w1: "w1 = writing (EscapeText L) cfg False
            (sheets (distribute (MaxRowsPerSheet cfg) (header_rows headers)))
            (header_rows headers \<noteq> []) 0 fl1 snk1"
    by auto
  from h1 have h1': "healthy_file snk1" by (simp add: w1)
  have "\<exists>fl' snk'. WriteRows L (writing (EscapeText L) cfg False
            (sheets (distribute (MaxRowsPerSheet cfg) (header_rows headers)))
            (header_rows headers \<noteq> []) 0 fl1 snk1) rows
         = (Ok (), writing (EscapeText L) cfg False
              (sheets (foldl (place (MaxRowsPerSheet cfg))
                 (distribute (MaxRowsPerSheet cfg) (header_rows headers)) rows))
              (header_rows headers \<noteq> []) (0 + int (length rows)) fl' snk')
          \<and> healthy_file snk'"
    by (rule WriteRows_healthy [OF h1' lv distribute_nonempty])
  then obtain fl2 snk2 where
    2: "WriteRows L w1 rows = (Ok (), writing (EscapeText L) cfg False
            (sheets (distribute (MaxRowsPerSheet cfg) (header_rows headers @ rows)))
            (header_rows headers \<noteq> []) (int (length rows)) fl2 snk2)"
    and h2: "healthy_file snk2"
    unfolding w1 by (auto simp add: distribute_append)
  from FinishFile_healthy [OF h2 lv distribute_nonempty] obtain stats w where
    "FinishFile (writing (EscapeText L) cfg False
            (sheets (distribute (MaxRowsPerSheet cfg) (header_rows headers @ rows)))
            (header_rows headers \<noteq> []) (int (length rows)) fl2 snk2) = (Ok stats, w)"
    by blast
  with 1 2 have "export L snk cfg headers rows = (Ok stats, w)"
    by (simp add: export_def)
  then show ?thesis by blast
qed

section \<open>Worksheets of an export\<close>

lemma healthy_test_sink: "healthy_file test_sink"
  by (simp add: healthy_file_def test_sink_def test_file_def)

lemma level_ok_config_10: "level_ok config_10"
  by (simp add: level_ok_def config_10_def DefaultConfig_def)

lemma level_ok_Default: "level_ok DefaultConfig"
  by (simp add: level_ok_def DefaultConfig_def)

lemma export_test_Ok:
  assumes "level_ok cfg"
  shows "export test_lib test_sink cfg headers rows
       = (Ok (case fst (export test_lib test_sink cfg headers rows) of Ok stats \<Rightarrow> stats),
          snd (export test_lib test_sink cfg headers rows))"
proof -
  from export_succeeds [OF healthy_test_sink assms] obtain stats w where
    "export test_lib test_sink cfg headers rows = (Ok stats, w)" by blast
  then show ?thesis by simp
qed

lemma export_observed:
  assumes ex: "export L snk cfg headers rows = (Ok stats, w)"
    and c: "1 \<le> MaxRowsPerSheet cfg"
  shows "worksheet_entries w =
           sheets_dir (EscapeText L) (all_closed (distribute (MaxRowsPerSheet cfg) (header_rows headers @ rows)))"
    and "map entry_rows (worksheet_entries w) =
           counts (nat (MaxRowsPerSheet cfg)) (length (header_rows headers) + length rows)"
    and "map rowCount (sheetWriters w) =
           map int (counts (nat (MaxRowsPerSheet cfg)) (length (header_rows headers) + length rows))"
    and "stats = \<lparr>TotalRows = int (length rows),
                   TotalSheets = int (length (counts (nat (MaxRowsPerSheet cfg))
                                                (length (header_rows headers) + length rows))),
                   FileSize = 0\<rparr>"
proof -
  let ?gs = "distribute (MaxRowsPerSheet cfg) (header_rows headers @ rows)"
  from export_ok [OF ex] obtain fl snk' where
    st: "stats = \<lparr>TotalRows = int (length rows), TotalSheets = int (length ?gs), FileSize = 0\<rparr>"
    and w: "w = finished_writer (EscapeText L) cfg ?gs (header_rows headers \<noteq> []) (int (length rows)) fl snk'"
    by auto
  have ml: "map length ?gs = counts (nat (MaxRowsPerSheet cfg)) (length (header_rows headers) + length rows)"
    using map_length_distribute [OF c, of "header_rows headers @ rows"] by simp
  show "worksheet_entries w = sheets_dir (EscapeText L) (all_closed ?gs)"
    unfolding w by (rule worksheet_entries_finished)
  then show "map entry_rows (worksheet_entries w) =
           counts (nat (MaxRowsPerSheet cfg)) (length (header_rows headers) + length rows)"
    by (simp add: map_entry_rows_sheets_dir ml)
  have "map rowCount (sheetWriters w) = map (\<lambda>g. int (length g)) ?gs"
    unfolding w by (simp add: finished_writer_def map_rowCount_sheets_writers)
  also have "\<dots> = map int (map length ?gs)" by simp
  finally show "map rowCount (sheetWriters w) =
           map int (counts (nat (MaxRowsPerSheet cfg)) (length (header_rows headers) + length rows))"
    unfolding ml .
  have "length ?gs = length (map length ?gs)" by simp
  then show "stats = \<lparr>TotalRows = int (length rows),
                   TotalSheets = int (length (counts (nat (MaxRowsPerSheet cfg))
                                                (length (header_rows headers) + length rows))),
                   FileSize = 0\<rparr>"
    unfolding st ml by simp
qed

lemma sum_list_int: "sum_list (map int ns) = int (sum_list ns)"
  by (induction ns) simp_all

lemma length_rows_of [simp]: "length (rows_of n) = n"
  by (simp add: rows_of_def)

lemma header_rows_ID_Value [simp]: "length (header_rows header_ID_Value) = 1"
  by (simp add: header_rows_def header_ID_Value_def)

lemma config_10_ceiling [simp]: "MaxRowsPerSheet config_10 = 10"
  by (simp add: config_10_def)

lemma counts_10_more: "counts 10 0 = [0]" "counts 10 26 = [10, 10, 6]"
  by code_simp+

lemma counts_small: "0 < n \<Longrightarrow> n \<le> c \<Longrightarrow> counts c n = [n]"
proof -
  assume "0 < n" "n \<le> c"
  then have "n - 1 < c" by arith
  then have "(n - 1) div c = 0" by simp
  with \<open>0 < n\<close> show ?thesis by (simp add: counts_def)
qed

lemma counts_one_more: "0 < c \<Longrightarrow> counts c (Suc c) = [c, Suc 0]"
  by (simp add: counts_def)

text \<open>
  C1, as amended. For every sequence of \<open>N\<close> data rows written between \<open>StartFile\<close> and
  \<open>FinishFile\<close>, all of it succeeding, under a ceiling of at least 1: let \<open>P\<close> be the
  number of rows that reach the worksheets, \<open>N\<close> and one more when a header row (not
  empty) was given, since the header is a row of the first worksheet and counts towards
  its ceiling. The archive holds one worksheet entry when \<open>P = 0\<close> and \<open>P / ceiling\<close>
  rounded up otherwise; the rows of the worksheet entries sum to \<open>P\<close>, as do the row
  counters of the sheet writers; the statistics report that number of sheets and \<open>N\<close>
  rows.
\<close>

theorem worksheets_of_export:
  assumes ex: "export L snk cfg headers rows = (Ok stats, w)"
    and c: "1 \<le> MaxRowsPerSheet cfg"
    and P: "P = length (header_rows headers) + length rows"
  shows "length (worksheet_entries w) = (if P = 0 then 1 else ceil_div P (nat (MaxRowsPerSheet cfg)))
       \<and> sum_list (map entry_rows (worksheet_entries w)) = P
       \<and> sum_list (map rowCount (sheetWriters w)) = int P
       \<and> TotalSheets stats = int (length (worksheet_entries w))
       \<and> TotalRows stats = int (length rows)"
proof -
  have nc: "0 < nat (MaxRowsPerSheet cfg)" using c by simp
  note o = export_observed [OF ex c, folded P]
  have "length (worksheet_entries w) = length (map entry_rows (worksheet_entries w))" by simp
  also have "\<dots> = (if P = 0 then 1 else ceil_div P (nat (MaxRowsPerSheet cfg)))"
    unfolding o(2) by (rule length_counts [OF nc])
  finally have 1: "length (worksheet_entries w) = (if P = 0 then 1 else ceil_div P (nat (MaxRowsPerSheet cfg)))" .
  have 2: "sum_list (map entry_rows (worksheet_entries w)) = P"
    unfolding o(2) by (rule sum_counts [OF nc])
  have 3: "sum_list (map rowCount (sheetWriters w)) = int P"
    unfolding o(3) sum_list_int by (simp add: sum_counts [OF nc])
  have "length (worksheet_entries w) = length (counts (nat (MaxRowsPerSheet cfg)) P)"
    using o(2) by (metis length_map)
  then have 4: "TotalSheets stats = int (length (worksheet_entries w))"
    by (simp add: o(4))
  have 5: "TotalRows stats = int (length rows)" by (simp add: o(4))
  from 1 2 3 4 5 show ?thesis by simp
qed

text \<open>
  C1, as amended, at the export of \<open>TestMultiSheet\<close>: a header and 25 rows under a
  ceiling of 10 give 3 worksheets holding 26 rows, and statistics of 25 rows.
\<close>

theorem worksheets_of_export_witness:
  "length (worksheet_entries (snd (export test_lib test_sink config_10 header_ID_Value (rows_of 25)))) = 3
   \<and> sum_list (map entry_rows
        (worksheet_entries (snd (export test_lib test_sink config_10 header_ID_Value (rows_of 25))))) = 26
   \<and> sum_list (map rowCount
        (sheetWriters (snd (export test_lib test_sink config_10 header_ID_Value (rows_of 25))))) = 26
   \<and> (case fst (export test_lib test_sink config_10 header_ID_Value (rows_of 25)) of
         Ok stats \<Rightarrow> TotalRows stats = 25 \<and> TotalSheets stats = 3
       | Fail err \<Rightarrow> False
       | Panic p \<Rightarrow> False)"
proof -
  from export_succeeds [OF healthy_test_sink level_ok_config_10] obtain stats w where
    ex: "export test_lib test_sink config_10 header_ID_Value (rows_of 25) = (Ok stats, w)" by blast
  have c: "1 \<le> MaxRowsPerSheet config_10" by simp
  have P: "26 = length (header_rows header_ID_Value) + length (rows_of 25)" by simp
  from worksheets_of_export [OF ex c P] show ?thesis
    by (simp add: ex ceil_div_def)
qed

text \<open>
  C1, as stated, fails. A header and 10 data rows under a ceiling of 10: the export
  succeeds with 2 worksheets of 10 and 1 rows, not 10 / 10 = 1 worksheet, and the rows of
  the worksheets sum to 11, not 10. No header and no rows: the export succeeds with one
  (empty) worksheet, not 0 / 10 = 0 worksheets.
\<close>

theorem worksheets_of_export_counterexample:
  "(case fst (export test_lib test_sink config_10 header_ID_Value (rows_of 10)) of
      Ok stats \<Rightarrow> TotalRows stats = 10 \<and> TotalSheets stats = 2
    | Fail err \<Rightarrow> False
    | Panic p \<Rightarrow> False)
   \<and> map entry_rows
        (worksheet_entries (snd (export test_lib test_sink config_10 header_ID_Value (rows_of 10)))) = [10, 1]
   \<and> length (worksheet_entries (snd (export test_lib test_sink config_10 header_ID_Value (rows_of 10))))
        \<noteq> ceil_div 10 10
   \<and> sum_list (map entry_rows
        (worksheet_entries (snd (export test_lib test_sink config_10 header_ID_Value (rows_of 10))))) \<noteq> 10
   \<and> fst (export test_lib test_sink config_10 [] []) = Ok \<lparr>TotalRows = 0, TotalSheets = 1, FileSize = 0\<rparr>
   \<and> map entry_rows (worksheet_entries (snd (export test_lib test_sink config_10 [] []))) = [0]
   \<and> length (worksheet_entries (snd (export test_lib test_sink config_10 [] []))) \<noteq> ceil_div 0 10"
proof -
  have c: "1 \<le> MaxRowsPerSheet config_10" by simp
  from export_succeeds [OF healthy_test_sink level_ok_config_10] obtain stats w where
    ex: "export test_lib test_sink config_10 header_ID_Value (rows_of 10) = (Ok stats, w)" by blast
  note o = export_observed [OF ex c]
  have e: "map entry_rows (worksheet_entries w) = [10, 1]"
    unfolding o(2) by (simp add: counts_10)
  then have "length (map entry_rows (worksheet_entries w)) = 2" by simp
  then have l: "length (worksheet_entries w) = 2" by simp
  have 1: "(case fst (export test_lib test_sink config_10 header_ID_Value (rows_of 10)) of
      Ok stats \<Rightarrow> TotalRows stats = 10 \<and> TotalSheets stats = 2
    | Fail err \<Rightarrow> False
    | Panic p \<Rightarrow> False)
   \<and> map entry_rows
        (worksheet_entries (snd (export test_lib test_sink config_10 header_ID_Value (rows_of 10)))) = [10, 1]
   \<and> length (worksheet_entries (snd (export test_lib test_sink config_10 header_ID_Value (rows_of 10))))
        \<noteq> ceil_div 10 10
   \<and> sum_list (map entry_rows
        (worksheet_entries (snd (export test_lib test_sink config_10 header_ID_Value (rows_of 10))))) \<noteq> 10"
    by (simp add: ex e l o(4) counts_10 ceil_div_def)
  from export_succeeds [OF healthy_test_sink level_ok_config_10] obtain stats0 w0 where
    ex0: "export test_lib test_sink config_10 [] [] = (Ok stats0, w0)" by blast
  note o0 = export_observed [OF ex0 c]
  have e0: "map entry_rows (worksheet_entries w0) = [0]"
    unfolding o0(2) by (simp add: header_rows_def counts_10_more)
  then have "length (map entry_rows (worksheet_entries w0)) = 1" by simp
  then have l0: "length (worksheet_entries w0) = 1" by simp
  have 2: "fst (export test_lib test_sink config_10 [] []) = Ok \<lparr>TotalRows = 0, TotalSheets = 1, FileSize = 0\<rparr>
   \<and> map entry_rows (worksheet_entries (snd (export test_lib test_sink config_10 [] []))) = [0]
   \<and> length (worksheet_entries (snd (export test_lib test_sink config_10 [] []))) \<noteq> ceil_div 0 10"
    by (simp add: ex0 e0 l0 o0(4) header_rows_def counts_10_more ceil_div_def)
  from 1 2 show ?thesis by simp
qed

text \<open>
  C2. With no header and a ceiling of at least 1, the rows of the worksheet entries of a
  successful export are the sizes of the rows cut into groups of the ceiling: every
  worksheet before the last holds exactly the ceiling, no worksheet holds more, rows up
  to the ceiling stay in one worksheet, and one row more starts the second worksheet.
  With a ceiling of 10: 10 rows give one worksheet of 10, 11 rows give 10 and 1, 25 rows
  give 10, 10 and 5.
\<close>

theorem rollover_boundary:
  assumes ex: "export L snk cfg headers rows = (Ok stats, w)"
    and nh: "header_rows headers = []"
    and c: "1 \<le> MaxRowsPerSheet cfg"
  shows "map entry_rows (worksheet_entries w) = counts (nat (MaxRowsPerSheet cfg)) (length rows)
       \<and> map rowCount (sheetWriters w) = map int (counts (nat (MaxRowsPerSheet cfg)) (length rows))
       \<and> (\<forall>k \<in> set (map entry_rows (worksheet_entries w)). k \<le> nat (MaxRowsPerSheet cfg))
       \<and> (0 < length rows \<longrightarrow> length rows \<le> nat (MaxRowsPerSheet cfg) \<longrightarrow>
            map entry_rows (worksheet_entries w) = [length rows])
       \<and> (length rows = nat (MaxRowsPerSheet cfg) + 1 \<longrightarrow>
            map entry_rows (worksheet_entries w) = [nat (MaxRowsPerSheet cfg), 1])
       \<and> (MaxRowsPerSheet cfg = 10 \<longrightarrow> length rows = 10 \<longrightarrow>
            map entry_rows (worksheet_entries w) = [10] \<and> TotalSheets stats = 1)
       \<and> (MaxRowsPerSheet cfg = 10 \<longrightarrow> length rows = 11 \<longrightarrow>
            map entry_rows (worksheet_entries w) = [10, 1] \<and> TotalSheets stats = 2)
       \<and> (MaxRowsPerSheet cfg = 10 \<longrightarrow> length rows = 25 \<longrightarrow>
            map entry_rows (worksheet_entries w) = [10, 10, 5] \<and> TotalSheets stats = 3)"
proof -
  have nc: "0 < nat (MaxRowsPerSheet cfg)" using c by simp
  note o = export_observed [OF ex c, unfolded nh, simplified]
  have 1: "\<forall>k \<in> set (map entry_rows (worksheet_entries w)). k \<le> nat (MaxRowsPerSheet cfg)"
    unfolding o(2) using counts_le [OF nc] by blast
  have 2: "0 < length rows \<longrightarrow> length rows \<le> nat (MaxRowsPerSheet cfg) \<longrightarrow>
            map entry_rows (worksheet_entries w) = [length rows]"
    unfolding o(2) by (simp add: counts_small)
  have 3: "length rows = nat (MaxRowsPerSheet cfg) + 1 \<longrightarrow>
            map entry_rows (worksheet_entries w) = [nat (MaxRowsPerSheet cfg), 1]"
    unfolding o(2) using nc by (simp add: counts_one_more)
  have 4: "MaxRowsPerSheet cfg = 10 \<longrightarrow> length rows = 10 \<longrightarrow>
            map entry_rows (worksheet_entries w) = [10] \<and> TotalSheets stats = 1"
    unfolding o(2) o(4) by (simp add: counts_10)
  have 5: "MaxRowsPerSheet cfg = 10 \<longrightarrow> length rows = 11 \<longrightarrow>
            map entry_rows (worksheet_entries w) = [10, 1] \<and> TotalSheets stats = 2"
    unfolding o(2) o(4) by (simp add: counts_10)
  have 6: "MaxRowsPerSheet cfg = 10 \<longrightarrow> length rows = 25 \<longrightarrow>
            map entry_rows (worksheet_entries w) = [10, 10, 5] \<and> TotalSheets stats = 3"
    unfolding o(2) o(4) by (simp add: counts_10)
  from o(2) o(3) 1 2 3 4 5 6 show ?thesis by blast
qed

text \<open>C2, at exports of 10, 11 and 25 rows to the test sink under a ceiling of 10.\<close>

theorem rollover_boundary_witness:
  "map entry_rows (worksheet_entries (snd (export test_lib test_sink config_10 [] (rows_of 10)))) = [10]
   \<and> map entry_rows (worksheet_entries (snd (export test_lib test_sink config_10 [] (rows_of 11)))) = [10, 1]
   \<and> map entry_rows (worksheet_entries (snd (export test_lib test_sink config_10 [] (rows_of 25)))) = [10, 10, 5]"
proof -
  have c: "1 \<le> MaxRowsPerSheet config_10" by simp
  have nh: "header_rows [] = []" by (simp add: header_rows_def)
  from export_succeeds [OF healthy_test_sink level_ok_config_10] obtain s10 w10 where
    e10: "export test_lib test_sink config_10 [] (rows_of 10) = (Ok s10, w10)" by blast
  from export_succeeds [OF healthy_test_sink level_ok_config_10] obtain s11 w11 where
    e11: "export test_lib test_sink config_10 [] (rows_of 11) = (Ok s11, w11)" by blast
  from export_succeeds [OF healthy_test_sink level_ok_config_10] obtain s25 w25 where
    e25: "export test_lib test_sink config_10 [] (rows_of 25) = (Ok s25, w25)" by blast
  from rollover_boundary [OF e10 nh c] rollover_boundary [OF e11 nh c] rollover_boundary [OF e25 nh c]
  show ?thesis by (simp add: e10 e11 e25 counts_10)
qed



section \<open>The writer over a store whose part uploads fail\<close>

lemmas run_defs = StartFile_def NewWriter_def writeZipFile_def archive_Create_def
  entry_Write_def archive_Close_def zip_Create_def zip_Write_def zip_Close_def zip_flush_def
  zip_NewWriter_def closeLastSheet_def startNewSheet_def currentWriter_def appendRow_def
  WriteRow_def writeHeaders_def closeSink_def writeManifests_def FinishFile_def Let_def
  DefaultConfig_def test_lib_def

text \<open>
  Starting the export succeeds: the four bytes that the archive layer hands over stay in
  the buffer of the sink, below the part size, and the store is not called.
\<close>

lemma StartFile_on_failing_s3:
  "StartFile test_lib (NewWriter (S3 sink_failing) []) []
     = (Ok (), writing (EscapeText test_lib) DefaultConfig False (sheets [[]]) False 0 []
          (S3 (sink_failing\<lparr>buffer := [80, 75, 3, 4], totalBytes := 4\<rparr>)))"
  by (simp add: run_defs s3_defs sink_failing_def failingUploadClient_def mockS3Client_def
      DefaultS3Options_def writing_def sheets_def sheets_dir_def sheets_writers_def
      static_entries_def sheet_entry_def row_chunks_def sheet_path_def)

text \<open>
  Finishing it fails at the close of the sink. \<open>FinishFile\<close> wraps the error of
  \<open>Close\<close> and returns; the store has seen the creation of the upload and the failed
  part, and no abort: neither \<open>Close\<close> nor \<open>FinishFile\<close> calls one on this path.
\<close>

lemma FinishFile_on_failing_s3:
  "fst (FinishFile writer_on_failing_s3)
     = Fail (Wrap ''failed to close sink'' (Wrap ''failed to upload final part'' (Err ''network error'')))
   \<and> sink_history (sink (snd (FinishFile writer_on_failing_s3)))
     = [CreateMultipartUpload ''test-bucket'' ''test-key'' DefaultS3Options (Inr (Some ''test-upload-id'')),
        UploadPart 1 [80, 75, 3, 4] (Inl (Err ''network error''))]"
  unfolding writer_on_failing_s3_def StartFile_on_failing_s3 snd_conv
  by (simp add: run_defs s3_defs sink_failing_def failingUploadClient_def mockS3Client_def
      DefaultS3Options_def writing_def sheets_def sheets_dir_def sheets_writers_def
      static_entries_def sheet_entry_def row_chunks_def sheet_path_def)

lemma writer_on_failing_s3_flags:
  "started writer_on_failing_s3 \<and> \<not> finished writer_on_failing_s3"
  unfolding writer_on_failing_s3_def StartFile_on_failing_s3 snd_conv
  by (simp add: writing_def)


section \<open>Header row and statistics\<close>

text \<open>
  C6. An export with a non-empty header row and five data rows, under a ceiling of at
  least six rows per sheet, that returns its statistics: \<open>TotalRows\<close> is 5 and
  \<open>TotalSheets\<close> is 1, while the one worksheet holds six rows and the row counter of
  its sheet writer is 6. The chunks of the worksheet are the preamble, the header row
  encoded as row index 0 (so \<open>r="1"\<close>), the five data rows at indices 1 to 5, and the
  footer. \<open>StartFile\<close> takes only the first of the header rows it is given.
\<close>

theorem header_exclusion:
  assumes ex: "export L snk cfg (h # hs) rows = (Ok stats, w)"
    and h: "h \<noteq> []" and n: "length rows = 5" and c: "6 \<le> MaxRowsPerSheet cfg"
  shows "TotalRows stats = 5
       \<and> TotalSheets stats = 1
       \<and> map entry_rows (worksheet_entries w) = [6]
       \<and> map rowCount (sheetWriters w) = [6]
       \<and> map chunks (worksheet_entries w) =
           [(worksheetHeader @ ''\<newline>'') #
            (generateRow (EscapeText L) 0 h @ ''\<newline>'') #
            map (\<lambda>j. generateRow (EscapeText L) (int j + 1) (rows ! j) @ ''\<newline>'') [0..<5] @
            [worksheetFooter]]"
proof -
  have hr: "header_rows (h # hs) = [h]" using h by (simp add: header_rows_def)
  have c1: "1 \<le> MaxRowsPerSheet cfg" using c by simp
  note o = export_observed [OF ex c1, unfolded hr]
  have cnt: "counts (nat (MaxRowsPerSheet cfg)) (length [h] + length rows) = [6]"
    using c n by (simp add: counts_small)
  have "int (length ([h] @ rows)) \<le> MaxRowsPerSheet cfg" using c n by simp
  then have d: "distribute (MaxRowsPerSheet cfg) ([h] @ rows) = [[h] @ rows]"
    by (rule distribute_small)
  have 5: "map chunks (worksheet_entries w) =
           [(worksheetHeader @ ''\<newline>'') #
            (generateRow (EscapeText L) 0 h @ ''\<newline>'') #
            map (\<lambda>j. generateRow (EscapeText L) (int j + 1) (rows ! j) @ ''\<newline>'') [0..<5] @
            [worksheetFooter]]"
  proof -
    have "sheets_dir (EscapeText L) (all_closed [[h] @ rows]) =
            [sheet_entry (EscapeText L) 0 (h # rows) True]"
      by (simp add: sheets_dir_def all_closed_def)
    then show ?thesis
      unfolding o(1) d
      by (simp add: sheet_entry_def row_chunks_Cons n del: upt_Suc)
  qed
  have 2: "map entry_rows (worksheet_entries w) = [6]" using o(2) unfolding cnt .
  have 3: "map rowCount (sheetWriters w) = [6]" using o(3) unfolding cnt by simp
  have 4: "TotalRows stats = 5 \<and> TotalSheets stats = 1" using o(4) unfolding cnt by (simp add: n)
  from 2 3 4 5 show ?thesis by simp
qed

text \<open>
  C6, at the export of the example: the header Name, Age, Email and five rows, to the
  test sink with the default configuration.
\<close>

theorem header_exclusion_witness:
  "(case fst (export test_lib test_sink DefaultConfig
               [[VString ''Name'', VString ''Age'', VString ''Email'']] (rows_of 5)) of
      Ok stats \<Rightarrow> TotalRows stats = 5 \<and> TotalSheets stats = 1
    | Fail err \<Rightarrow> False
    | Panic p \<Rightarrow> False)
   \<and> map entry_rows (worksheet_entries (snd (export test_lib test_sink DefaultConfig
         [[VString ''Name'', VString ''Age'', VString ''Email'']] (rows_of 5)))) = [6]"
proof -
  from export_succeeds [OF healthy_test_sink level_ok_Default] obtain stats w where
    ex: "export test_lib test_sink DefaultConfig
           ([VString ''Name'', VString ''Age'', VString ''Email''] # []) (rows_of 5) = (Ok stats, w)"
    by blast
  have h: "[VString ''Name'', VString ''Age'', VString ''Email''] \<noteq> []" by simp
  have n: "length (rows_of 5) = 5" by simp
  have c: "6 \<le> MaxRowsPerSheet DefaultConfig" by (simp add: DefaultConfig_def)
  from header_exclusion [OF ex h n c] show ?thesis by (simp add: ex)
qed

section \<open>Cell addresses\<close>

lemma columnName_number:
  assumes "0 \<le> col" and "col < 2 ^ 63 - 1"
  shows "column_number (columnName col) = col + 1"
proof -
  have "int64 (col + 1) = col + 1" using assms by (intro int64_id) simp_all
  then show ?thesis
    using loop_number [of "col + 1" "[]"] assms by (simp add: column_number_def columnName_def)
qed

lemma columnName_loop_stop: "col \<le> 0 \<Longrightarrow> columnName_loop col name = name"
  by (simp add: columnName_loop.simps [of col name])

lemma columnName_wrapped: "columnName (2 ^ 63 - 1) = []"
  unfolding columnName_def int64_greatest
  by (rule columnName_loop_stop) simp

lemma columnName_negative:
  assumes "- (2 ^ 63) \<le> col" and "col < 0"
  shows "columnName col = []"
proof -
  have "int64 (col + 1) = col + 1" using assms by (intro int64_id) simp_all
  then show ?thesis
    using assms by (simp add: columnName_def columnName_loop.simps [of "col + 1" "[]"])
qed

lemma columnName_letters: "set (columnName col) \<subseteq> char_of ` {65 .. (90::int)}"
  using loop_letters [of "int64 (col + 1)" "[]"] by (simp add: columnName_def)

lemma generateRow_references:
  \<open>generateRow esc j vs =
     ''<row r="'' @ fmt_d (int64 (j + 1)) @ ''">'' @
     concat (map (\<lambda>k. generateCell esc (columnName (int k) @ fmt_d (int64 (j + 1))) (vs ! k))
                 [0..<length vs]) @
     ''</row>''\<close>
  using generateRow_cells_concat [of esc j 0 vs]
  by (simp add: generateRow_def generateCell_render cellReference_def)

lemma export_chunks:
  assumes ex: "export L snk cfg headers rows = (Ok stats, w)"
  shows "\<exists>gs. concat gs = header_rows headers @ rows
            \<and> length gs = length (worksheet_entries w)
            \<and> (\<forall>i < length gs.
                  chunks (worksheet_entries w ! i) =
                    (worksheetHeader @ ''\<newline>'') #
                    map (\<lambda>j. generateRow (EscapeText L) (int j) (gs ! i ! j) @ ''\<newline>'')
                        [0..<length (gs ! i)] @
                    [worksheetFooter])"
proof -
  let ?gs = "distribute (MaxRowsPerSheet cfg) (header_rows headers @ rows)"
  from export_ok [OF ex] obtain fl snk' where
    w: "w = finished_writer (EscapeText L) cfg ?gs (header_rows headers \<noteq> []) (int (length rows)) fl snk'"
    by auto
  have we: "worksheet_entries w = sheets_dir (EscapeText L) (all_closed ?gs)"
    unfolding w by (rule worksheet_entries_finished)
  have 1: "concat ?gs = header_rows headers @ rows" by (rule concat_distribute)
  have 2: "length ?gs = length (worksheet_entries w)"
    by (simp add: we all_closed_def)
  have 3: "\<forall>i < length ?gs.
                  chunks (worksheet_entries w ! i) =
                    (worksheetHeader @ ''\<newline>'') #
                    map (\<lambda>j. generateRow (EscapeText L) (int j) (?gs ! i ! j) @ ''\<newline>'')
                        [0..<length (?gs ! i)] @
                    [worksheetFooter]"
    by (simp add: we sheets_dir_def all_closed_def sheet_entry_def row_chunks_def)
  from 1 2 3 show ?thesis by blast
qed

text \<open>
  C8. The column name of position 0 is A, of 25 is Z, of 26 is AA, of 27 is AB, of 701
  is ZZ and of 702 is AAA. For every position \<open>col\<close> from 0 up to, and not including,
  the greatest 64-bit integer, the name, read as a bijective base-26 numeral (A = 1,
  ..., Z = 26), has the value \<open>col + 1\<close>; at the greatest integer itself \<open>col++\<close>
  wraps around and the name is empty, as it is for a negative position; every name is
  made of the letters A to Z only. A cell reference is the column name followed by the
  row index plus one, and \<open>generateRow\<close> at row index \<open>j\<close> numbers the row and each of
  its cells with \<open>j + 1\<close> (in 64-bit arithmetic, which is \<open>j + 1\<close> itself below the
  greatest integer). In a successful export the rows written (the header row first, if
  any) are cut into consecutive groups, one per worksheet, and the worksheet of group
  \<open>i\<close> holds its rows encoded at the indices 0, 1, ... of their position within the
  group: the row numbers of every worksheet start again at 1.
\<close>

theorem cell_addressing:
  \<open>columnName 0 = ''A'' \<and> columnName 25 = ''Z'' \<and> columnName 26 = ''AA''
   \<and> columnName 27 = ''AB'' \<and> columnName 701 = ''ZZ'' \<and> columnName 702 = ''AAA''
   \<and> (0 \<le> col \<and> col < 2 ^ 63 - 1 \<longrightarrow> column_number (columnName col) = col + 1)
   \<and> columnName (2 ^ 63 - 1) = []
   \<and> (- (2 ^ 63) \<le> col \<and> col < 0 \<longrightarrow> columnName col = [])
   \<and> set (columnName col) \<subseteq> char_of ` {65 .. (90::int)}
   \<and> cellReference row col = columnName col @ fmt_d (int64 (row + 1))
   \<and> generateRow esc j vs =
        ''<row r="'' @ fmt_d (int64 (j + 1)) @ ''">'' @
        concat (map (\<lambda>k. generateCell esc (columnName (int k) @ fmt_d (int64 (j + 1))) (vs ! k))
                    [0..<length vs]) @
        ''</row>''
   \<and> (- (2 ^ 63) \<le> j + 1 \<and> j + 1 < 2 ^ 63 \<longrightarrow> int64 (j + 1) = j + 1)
   \<and> (export L snk cfg headers rows = (Ok stats, w) \<longrightarrow>
        (\<exists>gs. concat gs = header_rows headers @ rows
            \<and> length gs = length (worksheet_entries w)
            \<and> (\<forall>i < length gs.
                  chunks (worksheet_entries w ! i) =
                    (worksheetHeader @ ''\<newline>'') #
                    map (\<lambda>j. generateRow (EscapeText L) (int j) (gs ! i ! j) @ ''\<newline>'')
                        [0..<length (gs ! i)] @
                    [worksheetFooter])))\<close>
proof -
  have 1: "columnName 0 = ''A'' \<and> columnName 25 = ''Z'' \<and> columnName 26 = ''AA''
   \<and> columnName 27 = ''AB'' \<and> columnName 701 = ''ZZ'' \<and> columnName 702 = ''AAA''"
    by code_simp
  have 2: "0 \<le> col \<and> col < 2 ^ 63 - 1 \<longrightarrow> column_number (columnName col) = col + 1"
    using columnName_number [of col] by blast
  note w = columnName_wrapped
  have neg: "- (2 ^ 63) \<le> col \<and> col < 0 \<longrightarrow> columnName col = []"
    using columnName_negative [of col] by blast
  note 3 = columnName_letters [of col]
  have 4: "cellReference row col = columnName col @ fmt_d (int64 (row + 1))"
    by (simp add: cellReference_def)
  note 5 = generateRow_references [of esc j vs]
  have 6: "- (2 ^ 63) \<le> j + 1 \<and> j + 1 < 2 ^ 63 \<longrightarrow> int64 (j + 1) = j + 1"
    using int64_id [of "j + 1"] by blast
  from 1 2 w neg 3 4 5 6 export_chunks [of L snk cfg headers rows stats w] show ?thesis by blast
qed

text \<open>
  C8, at position 27 and at the export of \<open>TestMultiSheet\<close>: a header and 25 rows
  under a ceiling of 10.
\<close>

theorem cell_addressing_witness:
  \<open>column_number (columnName 27) = 28
   \<and> cellReference 0 27 = ''AB1''
   \<and> generateRow (EscapeText test_lib) 0 [VInt 1, VInt 2] =
        ''<row r="1"><c r="A1"><v>1</v></c><c r="B1"><v>2</v></c></row>''
   \<and> (\<exists>gs. concat gs = header_rows header_ID_Value @ rows_of 25
          \<and> length gs = length (worksheet_entries
                (snd (export test_lib test_sink config_10 header_ID_Value (rows_of 25))))
          \<and> (\<forall>i < length gs.
                chunks (worksheet_entries
                  (snd (export test_lib test_sink config_10 header_ID_Value (rows_of 25))) ! i) =
                  (worksheetHeader @ ''\<newline>'') #
                  map (\<lambda>j. generateRow (EscapeText test_lib) (int j) (gs ! i ! j) @ ''\<newline>'')
                      [0..<length (gs ! i)] @
                  [worksheetFooter]))\<close>
proof -
  from export_succeeds [OF healthy_test_sink level_ok_config_10] obtain stats w where
    ex: "export test_lib test_sink config_10 header_ID_Value (rows_of 25) = (Ok stats, w)"
    by blast
  have f: "fmt_d (int64 (0 + 1)) = ''1''" by code_simp
  have g: \<open>generateRow (EscapeText test_lib) 0 [VInt 1, VInt 2] =
        ''<row r="1"><c r="A1"><v>1</v></c><c r="B1"><v>2</v></c></row>''\<close>
    by code_simp
  note t = cell_addressing [where col = 27 and row = 0 and esc = "EscapeText test_lib"
      and j = 0 and vs = "[VInt 1, VInt 2]" and L = test_lib and snk = test_sink
      and cfg = config_10 and headers = header_ID_Value and rows = "rows_of 25"
      and stats = stats and w = w]
  from t have c: "columnName 27 = ''AB''"
    and n0: "0 \<le> (27::int) \<and> (27::int) < 2 ^ 63 - 1 \<longrightarrow> column_number (columnName 27) = 27 + 1"
    and r: "cellReference 0 27 = columnName 27 @ fmt_d (int64 (0 + 1))"
    by blast+
  from n0 have n: "column_number (columnName 27) = 28" by simp
  from t ex have e: "\<exists>gs. concat gs = header_rows header_ID_Value @ rows_of 25
          \<and> length gs = length (worksheet_entries w)
          \<and> (\<forall>i < length gs.
                chunks (worksheet_entries w ! i) =
                  (worksheetHeader @ ''\<newline>'') #
                  map (\<lambda>j. generateRow (EscapeText test_lib) (int j) (gs ! i ! j) @ ''\<newline>'')
                      [0..<length (gs ! i)] @
                  [worksheetFooter])"
    by blast
  have r': "cellReference 0 27 = ''AB1''" unfolding r c f by simp
  from e have e': "\<exists>gs. concat gs = header_rows header_ID_Value @ rows_of 25
          \<and> length gs = length (worksheet_entries
                (snd (export test_lib test_sink config_10 header_ID_Value (rows_of 25))))
          \<and> (\<forall>i < length gs.
                chunks (worksheet_entries
                  (snd (export test_lib test_sink config_10 header_ID_Value (rows_of 25))) ! i) =
                  (worksheetHeader @ ''\<newline>'') #
                  map (\<lambda>j. generateRow (EscapeText test_lib) (int j) (gs ! i ! j) @ ''\<newline>'')
                      [0..<length (gs ! i)] @
                  [worksheetFooter])"
    unfolding ex snd_conv .
  from n r' g e' show ?thesis by (intro conjI)
qed

section \<open>Lifecycle\<close>

text \<open>
  C5. A call out of order fails with its error and returns the writer as it was given,
  so that no field of it, the archive and the sink included, has changed and nothing has
  been written: \<open>WriteRow\<close> and \<open>FinishFile\<close> on a writer that is not started;
  \<open>StartFile\<close> on a started one; \<open>FinishFile\<close> and \<open>WriteRow\<close> on a finished one.
  The same for the sequences of calls: a second \<open>StartFile\<close> after any first one
  (also a failed one), and a \<open>FinishFile\<close> or a \<open>WriteRow\<close> after any \<open>FinishFile\<close>
  of a started writer.
\<close>

theorem lifecycle_enforcement:
  "(\<not> started w \<longrightarrow> WriteRow L w row = (Fail (Err ''file not started, call StartFile first''), w))
   \<and> (\<not> started w \<longrightarrow> FinishFile w = (Fail (Err ''file not started''), w))
   \<and> (started w \<longrightarrow> StartFile L w hs = (Fail (Err ''file already started''), w))
   \<and> (started w \<and> finished w \<longrightarrow> FinishFile w = (Fail (Err ''file already finished''), w))
   \<and> (started w \<and> finished w \<longrightarrow> WriteRow L w row = (Fail (Err ''file already finished''), w))
   \<and> StartFile L (snd (StartFile L w hs)) hs' = (Fail (Err ''file already started''), snd (StartFile L w hs))
   \<and> (started w \<longrightarrow>
        FinishFile (snd (FinishFile w)) = (Fail (Err ''file already finished''), snd (FinishFile w)))
   \<and> (started w \<longrightarrow>
        WriteRow L (snd (FinishFile w)) row = (Fail (Err ''file already finished''), snd (FinishFile w)))"
proof -
  have 1: "\<not> started w \<longrightarrow> WriteRow L w row = (Fail (Err ''file not started, call StartFile first''), w)"
    by (simp add: WriteRow_def)
  have 2: "\<not> started w \<longrightarrow> FinishFile w = (Fail (Err ''file not started''), w)"
    by (simp add: FinishFile_def)
  have 3: "StartFile L v hs'' = (Fail (Err ''file already started''), v)" if "started v" for v hs''
    using that by (simp add: StartFile_def)
  have 4: "FinishFile v = (Fail (Err ''file already finished''), v)" if "started v" "finished v" for v
    using that by (simp add: FinishFile_def)
  have 5: "WriteRow L v row = (Fail (Err ''file already finished''), v)" if "started v" "finished v" for v
    using that by (simp add: WriteRow_def)
  from 1 2 3 [of w hs] 4 [of w] 5 [of w]
    3 [OF StartFile_started [of L w hs], of hs']
    FinishFile_finished [of w] 4 [of "snd (FinishFile w)"] 5 [of "snd (FinishFile w)"]
  show ?thesis by blast
qed

text \<open>C5, at a new writer on the test sink, before and after it is started.\<close>

theorem lifecycle_enforcement_witness:
  "WriteRow test_lib (NewWriter test_sink []) [VInt 1]
     = (Fail (Err ''file not started, call StartFile first''), NewWriter test_sink [])
   \<and> FinishFile (NewWriter test_sink []) = (Fail (Err ''file not started''), NewWriter test_sink [])
   \<and> StartFile test_lib (snd (StartFile test_lib (NewWriter test_sink []) [])) []
     = (Fail (Err ''file already started''), snd (StartFile test_lib (NewWriter test_sink []) []))
   \<and> FinishFile (snd (FinishFile (snd (StartFile test_lib (NewWriter test_sink []) []))))
     = (Fail (Err ''file already finished''),
        snd (FinishFile (snd (StartFile test_lib (NewWriter test_sink []) []))))
   \<and> WriteRow test_lib (snd (FinishFile (snd (StartFile test_lib (NewWriter test_sink []) [])))) [VInt 1]
     = (Fail (Err ''file already finished''),
        snd (FinishFile (snd (StartFile test_lib (NewWriter test_sink []) []))))"
proof -
  have a: "\<not> started (NewWriter test_sink [])" by (simp add: NewWriter_def)
  have b: "started (snd (StartFile test_lib (NewWriter test_sink []) []))"
    by (rule StartFile_started)
  from lifecycle_enforcement [where w = "NewWriter test_sink []" and L = test_lib
      and row = "[VInt 1]" and hs = "[]" and hs' = "[]"]
    lifecycle_enforcement [where w = "snd (StartFile test_lib (NewWriter test_sink []) [])"
      and L = test_lib and row = "[VInt 1]" and hs = "[]" and hs' = "[]"]
    a b
  show ?thesis by blast
qed

text \<open>
  C10. \<open>FinishFile\<close> sets the finished flag before its first write, and no later step
  clears it. So after \<open>FinishFile\<close> on a started writer, whatever it returned (a
  failure of the footer, of a manifest, of the archive close or of the sink close
  included), the writer is finished and still started: \<open>WriteRow\<close> and \<open>FinishFile\<close>
  fail with the already-finished error and leave the writer unchanged, and \<open>StartFile\<close>
  fails as already started. There is no way back to a writer that can finish.
\<close>

theorem failed_finish_is_terminal:
  assumes "started w"
  shows "finished (snd (FinishFile w))
       \<and> started (snd (FinishFile w))
       \<and> WriteRow L (snd (FinishFile w)) row
           = (Fail (Err ''file already finished''), snd (FinishFile w))
       \<and> FinishFile (snd (FinishFile w))
           = (Fail (Err ''file already finished''), snd (FinishFile w))
       \<and> StartFile L (snd (FinishFile w)) hs
           = (Fail (Err ''file already started''), snd (FinishFile w))"
proof -
  from FinishFile_finished [OF assms]
  have s: "started (snd (FinishFile w))" and f: "finished (snd (FinishFile w))"
    by simp_all
  have 1: "WriteRow L (snd (FinishFile w)) row
           = (Fail (Err ''file already finished''), snd (FinishFile w))"
    using s f by (simp add: WriteRow_def [of L "snd (FinishFile w)"])
  have 2: "FinishFile (snd (FinishFile w))
           = (Fail (Err ''file already finished''), snd (FinishFile w))"
    using s f by (simp add: FinishFile_def [of "snd (FinishFile w)"])
  have 3: "StartFile L (snd (FinishFile w)) hs
           = (Fail (Err ''file already started''), snd (FinishFile w))"
    using s by (simp add: StartFile_def [of L "snd (FinishFile w)"])
  from s f 1 2 3 show ?thesis by simp
qed

text \<open>
  C10, at the writer whose sink cannot upload its final part: \<open>FinishFile\<close> fails at
  the close of the sink, and the writer is finished.
\<close>

theorem failed_finish_is_terminal_witness:
  "\<not> finished writer_on_failing_s3
   \<and> fst (FinishFile writer_on_failing_s3)
       = Fail (Wrap ''failed to close sink''
               (Wrap ''failed to upload final part'' (Err ''network error'')))
   \<and> finished (snd (FinishFile writer_on_failing_s3))
   \<and> WriteRow test_lib (snd (FinishFile writer_on_failing_s3)) [VInt 1]
       = (Fail (Err ''file already finished''), snd (FinishFile writer_on_failing_s3))
   \<and> FinishFile (snd (FinishFile writer_on_failing_s3))
       = (Fail (Err ''file already finished''), snd (FinishFile writer_on_failing_s3))"
  using failed_finish_is_terminal [of writer_on_failing_s3 test_lib "[VInt 1]" "[]"]
    writer_on_failing_s3_flags FinishFile_on_failing_s3
  by blast

end
